theory Spec2Isabelle
  imports Complex_Main
begin

section \<open>Positions\<close>

text \<open>
  The program computes with the vectors of the \<open>vec3\<close> package. JavaScript numbers are
  taken as real numbers here: rounding of floating point is not part of the model.
  Only the operations the program calls are given, under the package's names.
\<close>

datatype Vec3 = Vec3 (vx: real) (vy: real) (vz: real)

definition offset :: "Vec3 \<Rightarrow> real \<Rightarrow> real \<Rightarrow> real \<Rightarrow> Vec3" where
  "offset p dx dy dz = Vec3 (vx p + dx) (vy p + dy) (vz p + dz)"

definition plus_vec :: "Vec3 \<Rightarrow> Vec3 \<Rightarrow> Vec3" where
  "plus_vec p q = Vec3 (vx p + vx q) (vy p + vy q) (vz p + vz q)"

definition minus_vec :: "Vec3 \<Rightarrow> Vec3 \<Rightarrow> Vec3" where
  "minus_vec p q = Vec3 (vx p - vx q) (vy p - vy q) (vz p - vz q)"

definition scaled :: "Vec3 \<Rightarrow> real \<Rightarrow> Vec3" where
  "scaled p k = Vec3 (vx p * k) (vy p * k) (vz p * k)"

definition floored :: "Vec3 \<Rightarrow> Vec3" where
  "floored p = Vec3 (of_int \<lfloor>vx p\<rfloor>) (of_int \<lfloor>vy p\<rfloor>) (of_int \<lfloor>vz p\<rfloor>)"

definition distanceSquared :: "Vec3 \<Rightarrow> Vec3 \<Rightarrow> real" where
  "distanceSquared p q = (vx q - vx p)\<^sup>2 + (vy q - vy p)\<^sup>2 + (vz q - vz p)\<^sup>2"

definition distanceTo :: "Vec3 \<Rightarrow> Vec3 \<Rightarrow> real" where
  "distanceTo p q = sqrt (distanceSquared p q)"

section \<open>The trap offsets\<close>

text \<open>
  \<open>trapOffsets\<close> is filled by three loops when a worker starts: the floor ring, two
  layers of wall, the roof. Each entry carries its position and the role it was pushed
  with (the earlier revision of the file pushes the same positions in the same order,
  without the role).
\<close>

definition floorOffsets :: "(Vec3 \<times> string) list" where
  "floorOffsets =
     [(Vec3 (of_int i) (-1) (of_int k), ''floor'').
        i \<leftarrow> [-1..1], k \<leftarrow> [-1..1], \<not> (i = 0 \<and> k = 0)]"

definition wallOffsets :: "(Vec3 \<times> string) list" where
  "wallOffsets =
     concat (map (\<lambda>j.
       [(Vec3 (-1) (of_int j) (-1), ''wall''), (Vec3 (-1) (of_int j) 1, ''wall''),
        (Vec3 1 (of_int j) (-1), ''wall''), (Vec3 1 (of_int j) 1, ''wall''),
        (Vec3 0 (of_int j) (-1), ''wall''), (Vec3 0 (of_int j) 1, ''wall''),
        (Vec3 (-1) (of_int j) 0, ''wall''), (Vec3 1 (of_int j) 0, ''wall'')]) [0..1])"

definition roofOffsets :: "(Vec3 \<times> string) list" where
  "roofOffsets = [(Vec3 (of_int i) 2 (of_int k), ''roof''). i \<leftarrow> [-1..1], k \<leftarrow> [-1..1]]"

definition trapOffsets :: "(Vec3 \<times> string) list" where
  "trapOffsets = floorOffsets @ wallOffsets @ roofOffsets"



section \<open>The supervisor (main thread)\<close>

subsection \<open>The identity map\<close>

text \<open>
  \<open>activeWorkers\<close> is a JavaScript \<open>Map\<close>: an association list in insertion order.
  \<open>set\<close> on a key that is present replaces its value in place, \<open>set\<close> on a new key
  appends the entry, \<open>delete\<close> removes it. The order matters for the sweep command,
  which numbers the workers in the order of \<open>values()\<close>.
\<close>

definition Map_get :: "('k \<times> 'v) list \<Rightarrow> 'k \<Rightarrow> 'v option" where
  "Map_get m k = map_of m k"

definition Map_has :: "('k \<times> 'v) list \<Rightarrow> 'k \<Rightarrow> bool" where
  "Map_has m k = (map_of m k \<noteq> None)"

fun Map_set :: "('k \<times> 'v) list \<Rightarrow> 'k \<Rightarrow> 'v \<Rightarrow> ('k \<times> 'v) list" where
  "Map_set [] k v = [(k, v)]"
| "Map_set (e # m) k v = (if fst e = k then (k, v) # m else e # Map_set m k v)"

definition Map_delete :: "('k \<times> 'v) list \<Rightarrow> 'k \<Rightarrow> ('k \<times> 'v) list" where
  "Map_delete m k = filter (\<lambda>e. fst e \<noteq> k) m"

definition Map_values :: "('k \<times> 'v) list \<Rightarrow> 'v list" where
  "Map_values m = map snd m"

text \<open>The keys under which a map holds a value satisfying \<open>P\<close>, in map order.\<close>

definition keysWhere :: "('v \<Rightarrow> bool) \<Rightarrow> ('k \<times> 'v) list \<Rightarrow> 'k list" where
  "keysWhere P m = map fst (filter (\<lambda>e. P (snd e)) m)"

subsection \<open>Messages and effects\<close>

text \<open>
  A \<open>Worker\<close> object is known by its identity, a number here. An entry of the map in
  depster.js is \<open>{ worker, finalUsername }\<close>, with \<open>finalUsername\<close> null until the worker
  has authenticated; in the earlier revision the map holds the worker itself.
\<close>

type_synonym Worker = nat

record workerEntry =
  worker :: Worker
  finalUsername :: "string option"

text \<open>
  The object a dashboard sends with \<open>send-command\<close>, which is also what a worker receives
  through \<open>postMessage\<close>: the fields the program reads, each absent (\<open>None\<close>) or present.
\<close>

record command_data =
  m_type :: "string option"
  m_command :: "string option"
  m_target :: "string option"
  m_angle :: "real option"
  m_message :: "string option"

text \<open>What a worker posts to the main thread: \<open>{ type, bot, ... }\<close>.\<close>

datatype unit_payload =
    auth_link string string
  | authenticated string "string option"
  | status_update string
  | log_text string
  | error_text string

record unit_msg =
  msg_bot :: string
  msg_payload :: unit_payload

text \<open>What the main thread emits to the dashboard with \<open>io.emit\<close>.\<close>

datatype dashboard_event =
    ev_auth_link string string string string
  | ev_log string string string
  | ev_bot_authenticated "string option" string
  | ev_bot_status_update string string
  | ev_bot_online string string
  | ev_bot_offline string

text \<open>
  What a handler of the main thread does besides changing the map. \<open>ConsoleLog\<close> is a
  line of \<open>console.log\<close>; the hook on \<open>process.stdout\<close> shows each such line on the
  dashboard as well, as a \<open>log\<close> event of the bot \<open>System\<close>. \<open>SetTimeout\<close> schedules a
  task after so many milliseconds; what the task does when the timer fires is \<open>runTimer\<close>
  below.
\<close>

datatype timer_task = Respawn string

datatype effect =
    Emit dashboard_event
  | ConsoleLog string
  | PostMessage Worker command_data
  | SetTimeout timer_task nat
  | StartWorker Worker string bool
  | Terminate Worker

text \<open>Template literals print numbers and booleans; these are the printers they need.\<close>

fun show_nat :: "nat \<Rightarrow> string" where
  "show_nat n =
     (if n < 10 then [char_of (48 + n)]
      else show_nat (n div 10) @ [char_of (48 + n mod 10)])"

definition show_int :: "int \<Rightarrow> string" where
  "show_int i = (if i < 0 then CHR ''-'' # show_nat (nat (- i)) else show_nat (nat i))"

definition show_bool :: "bool \<Rightarrow> string" where
  "show_bool b = (if b then ''true'' else ''false'')"

definition show_opt :: "string option \<Rightarrow> string" where
  "show_opt s = (case s of None \<Rightarrow> ''undefined'' | Some t \<Rightarrow> t)"

definition show_null :: "string option \<Rightarrow> string" where
  "show_null s = (case s of None \<Rightarrow> ''null'' | Some t \<Rightarrow> t)"

text \<open>\<open>a || b\<close> on strings: the empty string and null are falsy.\<close>

definition or_else :: "string option \<Rightarrow> string \<Rightarrow> string" where
  "or_else a b = (case a of None \<Rightarrow> b | Some s \<Rightarrow> if s = [] then b else s)"

subsection \<open>depster.js: spawnWorkerFor and its handlers\<close>

record supervisor =
  activeWorkers :: "(string \<times> workerEntry) list"
  nextWorker :: Worker

definition spawnWorkerFor :: "string \<Rightarrow> bool \<Rightarrow> supervisor \<Rightarrow> supervisor \<times> effect list" where
  "spawnWorkerFor username isAuthWorker sv =
     (if Map_has (activeWorkers sv) username
      then (sv, [ConsoleLog (''[main] Worker for '' @ username @ '' already running.'')])
      else
        (let w = nextWorker sv in
         (sv\<lparr>activeWorkers :=
                 Map_set (activeWorkers sv) username \<lparr>worker = w, finalUsername = None\<rparr>,
               nextWorker := Suc w\<rparr>,
          [StartWorker w username isAuthWorker,
           ConsoleLog (''[main] Spawned worker for: '' @ username @ '' (isAuth: ''
                       @ show_bool isAuthWorker @ '')'')])))"

text \<open>
  \<open>socket.on('spawn-auth-bot')\<close>: an authentication-flow worker is spawned under a
  temporary handle, \<open>AuthBot-\<close> and a random number below 10000 (\<open>n\<close> here).
\<close>

definition spawnAuthBot :: "nat \<Rightarrow> supervisor \<Rightarrow> supervisor \<times> effect list" where
  "spawnAuthBot n sv =
     (let tempUsername = ''AuthBot-'' @ show_nat n;
          r = spawnWorkerFor tempUsername True sv
      in (fst r, snd r @ [Emit (ev_bot_online tempUsername ''Authenticating...'')]))"

text \<open>
  \<open>worker.on('message')\<close>. The handler closes over \<open>username\<close> and \<open>isAuthWorker\<close> of
  the call of \<open>spawnWorkerFor\<close> that created the worker. It runs to completion on the
  main thread, so it is one step from the map before to the map after.
\<close>

definition onMessage ::
  "string \<Rightarrow> bool \<Rightarrow> unit_msg \<Rightarrow> (string \<times> workerEntry) list
     \<Rightarrow> (string \<times> workerEntry) list \<times> effect list" where
  "onMessage username isAuthWorker msg aw =
     (let botName = or_else (Some (msg_bot msg)) username in
      case msg_payload msg of
        auth_link link user_code \<Rightarrow>
          (aw, [Emit (ev_auth_link link user_code (msg_bot msg) botName),
                Emit (ev_log botName (''Auth required. Code: '' @ user_code) ''info'')])
      | authenticated finalUsername' initialUsername \<Rightarrow>
          (let aw' =
             (case initialUsername of
                None \<Rightarrow> aw
              | Some ini \<Rightarrow>
                  (case Map_get aw ini of
                     None \<Rightarrow> aw
                   | Some workerEntry \<Rightarrow>
                       (let entry = workerEntry\<lparr>finalUsername := Some finalUsername'\<rparr>;
                            aw1 = Map_set aw ini entry
                        in if isAuthWorker
                           then Map_set (Map_delete aw1 ini) finalUsername' entry
                           else aw1)))
           in (aw', [Emit (ev_bot_authenticated initialUsername finalUsername'),
                     ConsoleLog (''[main] Authed usrname: '' @ finalUsername'),
                     ConsoleLog (''[main] txtfileusername: '' @ show_opt initialUsername)]))
      | status_update status \<Rightarrow>
          (case (case Map_get aw botName of
                   Some e \<Rightarrow> Some e
                 | None \<Rightarrow> find (\<lambda>w. finalUsername w = Some botName) (Map_values aw)) of
             None \<Rightarrow> (aw, [])
           | Some botToUpdate \<Rightarrow>
               (aw, [Emit (ev_bot_status_update
                            (or_else (finalUsername botToUpdate) botName) status)]))
      | log_text text \<Rightarrow> (aw, [Emit (ev_log botName text ''info'')])
      | error_text e \<Rightarrow> (aw, [Emit (ev_log botName (''ERROR: '' @ e) ''error'')]))"

text \<open>
  \<open>worker.on('exit')\<close>. The entry is looked up by the identity of the worker; a key that
  is the empty string is falsy and skips the cleanup.
\<close>

definition onExit ::
  "string \<Rightarrow> bool \<Rightarrow> Worker \<Rightarrow> int \<Rightarrow> (string \<times> workerEntry) list
     \<Rightarrow> (string \<times> workerEntry) list \<times> effect list" where
  "onExit username isAuthWorker w code aw =
     (case find (\<lambda>e. worker (snd e) = w) aw of
        None \<Rightarrow> (aw, [])
      | Some (exitedBotKey, exitedBotInfo) \<Rightarrow>
          if exitedBotKey = [] then (aw, [])
          else
            (let offlineUsername = or_else (finalUsername exitedBotInfo) exitedBotKey in
             (Map_delete aw exitedBotKey,
              [Emit (ev_bot_offline offlineUsername),
               ConsoleLog (''[main] Worker for '' @ offlineUsername @ '' (initial: ''
                           @ exitedBotKey @ '') exited with code '' @ show_int code @ ''.'')]
              @ (if code \<noteq> 0 \<and> \<not> isAuthWorker
                 then [SetTimeout (Respawn exitedBotKey) 5000] else []))))"

text \<open>The callback of the timer: a log line, then \<open>spawnWorkerFor(exitedBotKey, false)\<close>.\<close>

definition runTimer :: "timer_task \<Rightarrow> supervisor \<Rightarrow> supervisor \<times> effect list" where
  "runTimer t sv =
     (case t of Respawn key \<Rightarrow>
        (let r = spawnWorkerFor key False sv
         in (fst r, ConsoleLog (''[main] Respawning worker for '' @ key @ ''...'') # snd r)))"

subsection \<open>depster.js: commands from the dashboard\<close>

definition clearmapMessage :: "real \<Rightarrow> command_data" where
  "clearmapMessage angle =
     \<lparr>m_type = Some ''command'', m_command = Some ''clearmap'', m_target = None,
      m_angle = Some angle, m_message = None\<rparr>"

text \<open>\<open>{ type: 'command', ...data }\<close>: a \<open>type\<close> of the data's own overrides the first.\<close>

definition spreadCommand :: "command_data \<Rightarrow> command_data" where
  "spreadCommand d\<^sub>0 =
     d\<^sub>0\<lparr>m_type := (case m_type d\<^sub>0 of None \<Rightarrow> Some ''command'' | Some t \<Rightarrow> Some t)\<rparr>"

definition sweepAngle :: "nat \<Rightarrow> nat \<Rightarrow> real" where
  "sweepAngle index n = (real index / real n) * 2 * pi"

definition sendCommandTo :: "Worker list \<Rightarrow> command_data option \<Rightarrow> effect list" where
  "sendCommandTo workers data =
     (case data of
        None \<Rightarrow> []
      | Some d\<^sub>0 \<Rightarrow>
          (case m_command d\<^sub>0 of
             None \<Rightarrow> []
           | Some c \<Rightarrow>
               if c = [] then []
               else
                 ConsoleLog (''[main] Received command '' @ [CHR 0x27] @ c @ [CHR 0x27]
                             @ '' from dashboard.'')
                 # (if c = ''clearmap''
                    then map (\<lambda>(index, w).
                                PostMessage w (clearmapMessage (sweepAngle index (length workers))))
                           (enumerate 0 workers)
                    else map (\<lambda>w. PostMessage w (spreadCommand d\<^sub>0)) workers)))"

definition sendCommand :: "command_data option \<Rightarrow> (string \<times> workerEntry) list \<Rightarrow> effect list" where
  "sendCommand data aw = sendCommandTo (map worker (Map_values aw)) data"

definition sendChat :: "string \<Rightarrow> (string \<times> workerEntry) list \<Rightarrow> effect list" where
  "sendChat message aw =
     ConsoleLog (''[main] Broadcasting chat from dashboard: '' @ message)
     # map (\<lambda>e. PostMessage (worker e)
                  \<lparr>m_type = Some ''command'', m_command = Some ''chat'', m_target = None,
                   m_angle = None, m_message = Some message\<rparr>) (Map_values aw)"

definition disconnectAll :: "(string \<times> workerEntry) list \<Rightarrow> effect list" where
  "disconnectAll aw =
     ConsoleLog ''[main] Disconnecting all bots via dashboard command.''
     # map (\<lambda>e. Terminate (worker e)) (Map_values aw)"

subsection \<open>The earlier revision: the map holds the worker itself\<close>

definition spawnWorkerFor_v1 ::
  "string \<Rightarrow> bool \<Rightarrow> (string \<times> Worker) list \<times> Worker
     \<Rightarrow> ((string \<times> Worker) list \<times> Worker) \<times> effect list" where
  "spawnWorkerFor_v1 username isAuthWorker sv =
     (if Map_has (fst sv) username
      then (sv, [ConsoleLog (''[main] Worker for '' @ username @ '' already running.'')])
      else
        (let w = snd sv in
         ((Map_set (fst sv) username w, Suc w),
          [StartWorker w username isAuthWorker,
           ConsoleLog (''[main] Spawned worker for: '' @ username @ '' (isAuth: ''
                       @ show_bool isAuthWorker @ '')'')])))"

definition onMessage_v1 ::
  "string \<Rightarrow> bool \<Rightarrow> unit_msg \<Rightarrow> (string \<times> Worker) list
     \<Rightarrow> (string \<times> Worker) list \<times> effect list" where
  "onMessage_v1 username isAuthWorker msg aw =
     (let botName = or_else (Some (msg_bot msg)) username in
      case msg_payload msg of
        auth_link link user_code \<Rightarrow>
          (aw, [Emit (ev_auth_link link user_code (msg_bot msg) botName),
                Emit (ev_log botName (''Auth required. Code: '' @ user_code) ''info'')])
      | authenticated finalUsername' initialUsername \<Rightarrow>
          (let aw' =
             (if username \<noteq> finalUsername' \<and> Map_has aw username
              then (case Map_get aw username of
                      None \<Rightarrow> aw
                    | Some workerRef \<Rightarrow> Map_set (Map_delete aw username) finalUsername' workerRef)
              else aw)
           in (aw', [Emit (ev_bot_authenticated (Some username) finalUsername'),
                     Emit (ev_log finalUsername' ''Authenticated successfully.'' ''info'')]))
      | status_update status \<Rightarrow> (aw, [Emit (ev_bot_status_update botName status)])
      | log_text text \<Rightarrow> (aw, [Emit (ev_log botName text ''info'')])
      | error_text e \<Rightarrow> (aw, [Emit (ev_log botName (''ERROR: '' @ e) ''error'')]))"

definition onExit_v1 ::
  "string \<Rightarrow> bool \<Rightarrow> Worker \<Rightarrow> int \<Rightarrow> (string \<times> Worker) list
     \<Rightarrow> (string \<times> Worker) list \<times> effect list" where
  "onExit_v1 username isAuthWorker w code aw =
     (case find (\<lambda>e. snd e = w) aw of
        None \<Rightarrow> (aw, [])
      | Some (exitedBotKey, w') \<Rightarrow>
          if exitedBotKey = [] then (aw, [])
          else
            (Map_delete aw exitedBotKey,
             [Emit (ev_bot_offline exitedBotKey),
              ConsoleLog (''[main] Worker for '' @ exitedBotKey @ '' exited with code ''
                          @ show_int code @ ''.'')]
             @ (if code \<noteq> 0 \<and> \<not> isAuthWorker
                then [SetTimeout (Respawn exitedBotKey) 5000] else [])))"

definition sendCommand_v1 :: "command_data option \<Rightarrow> (string \<times> Worker) list \<Rightarrow> effect list" where
  "sendCommand_v1 data aw = sendCommandTo (Map_values aw) data"

section \<open>The worker (one bot)\<close>

subsection \<open>The world a bot sees\<close>

text \<open>
  \<open>bot.blockAt(p)\<close> gives the block of the cell that holds \<open>p\<close>, or null where no chunk is
  loaded. A block carries its (floored) position, its name, its numeric type and its
  bounding box, \<open>'block'\<close> for a solid block and \<open>'empty'\<close> for air, water and the like.
\<close>

datatype blockData = BlockData (d_name: string) (d_type: nat) (d_boundingBox: string)

datatype Block =
  Block (b_position: Vec3) (b_name: string) (b_type: nat) (b_boundingBox: string)

type_synonym world = "int \<times> int \<times> int \<Rightarrow> blockData option"

definition cell :: "Vec3 \<Rightarrow> int \<times> int \<times> int" where
  "cell p = (\<lfloor>vx p\<rfloor>, \<lfloor>vy p\<rfloor>, \<lfloor>vz p\<rfloor>)"

definition world_blockAt :: "world \<Rightarrow> Vec3 \<Rightarrow> Block option" where
  "world_blockAt w p =
     (case w (cell p) of
        None \<Rightarrow> None
      | Some d \<Rightarrow> Some (Block (floored p) (d_name d) (d_type d) (d_boundingBox d)))"

datatype Entity = Entity (e_id: nat) (e_position: Vec3)

datatype Player = Player (p_entity: "Entity option")

datatype Item = Item (i_type: nat) (i_count: nat)

subsection \<open>The state of a bot\<close>

datatype mode = follow | grief | trap | clearmap

record bot_state =
  target :: "string option"
  mode :: "mode option"
  lastDig :: real
  clearMapAngle :: "real option"
  isTrapping :: bool

text \<open>The state \<open>createBot\<close> gives a new bot.\<close>

definition initialState :: bot_state where
  "initialState =
     \<lparr>target = None, mode = None, lastDig = 0, clearMapAngle = Some 0, isTrapping = False\<rparr>"

datatype goal =
    GoalFollow Entity real
  | GoalBlock real real real
  | GoalXZ "real option" "real option"

text \<open>Remote actions a bot issues, in the order it issues them.\<close>

datatype action =
    LookAt Vec3
  | Dig Block
  | Equip Item
  | PlaceBlock Block Vec3
  | SetInventorySlot nat Item
  | Chat "string option"

text \<open>
  The \<open>bot\<close> object with what the plugins hang on it. \<open>entity\<close> is the bot's own
  entity (present from the spawn on, which is when ticks start); \<open>players\<close> is
  the lookup \<open>bot.players[name]\<close>: \<open>None\<close> when the lookup gives undefined, and otherwise
  the entry, with the entity it carries or without one (a player who is in the list of
  the server but out of view has an entry without entity, and so has, for the handlers,
  a name such as \<open>toString\<close> that the plain object resolves through its prototype); \<open>sprint\<close> is \<open>bot.controlState.sprint\<close>; \<open>pathGoal\<close> is the goal the
  pathfinder holds, with its \<open>dynamic\<close> flag; \<open>moving\<close> is what
  \<open>bot.pathfinder.isMoving()\<close> answers. \<open>sent\<close> collects what the worker posts to the
  main thread and \<open>acted\<close> the remote actions it issues.
\<close>

record Bot =
  username :: string
  entity :: Entity
  players :: "string \<Rightarrow> Player option"
  state :: bot_state
  sprint :: bool
  pathGoal :: "(goal \<times> bool) option"
  moving :: bool
  blocks :: world
  inventory :: "Item list"
  creative :: bool
  sent :: "unit_msg list"
  acted :: "action list"

record config =
  protectedNames :: "string list"
  cps :: real
  clickDelay :: real
  scanRadius :: int
  maxDig :: real
  trapBlock :: string

definition sharedConfig :: config where
  "sharedConfig =
     \<lparr>protectedNames = [''light_gray_concrete'', ''smooth_quartz_slab'', ''water'',
                        ''barrier'', ''bedrock''],
      cps = 20, clickDelay = 1000 / 20, scanRadius = 8, maxDig = 8, trapBlock = ''dirt''\<rparr>"

definition sharedConfig_v1 :: config where
  "sharedConfig_v1 = sharedConfig\<lparr>cps := 13, clickDelay := 1000 / 13\<rparr>"

text \<open>
  The errors a handler can meet: a name that is not declared, a property read on
  undefined, and an action that the client library rejects.
\<close>

datatype js_error = ReferenceError string | TypeError string | ActionError string

text \<open>
  What a worker is started with (\<open>workerData\<close>), the tables of \<open>minecraft-data\<close> it
  reads (block ids and item ids by name), how the runtime prints a number with two
  decimals (\<open>toFixed(2)\<close>), and the stack frames the runtime records in an error: the
  lines of \<open>e.stack\<close> after the first one (\<open>at griefLogic (...)\<close> and so on, each with its
  line break), which depend on where the files are installed.
\<close>

record workerEnv =
  initialUsername :: string
  isAuthWorker :: bool
  cfg :: config
  blocksByName :: "string \<Rightarrow> nat option"
  itemsByName :: "string \<Rightarrow> nat option"
  toFixed2 :: "real \<Rightarrow> string"
  stackFrames :: "js_error \<Rightarrow> string"

text \<open>
  \<open>protectedIds\<close>: the ids of the protected names; \<open>filter(Boolean)\<close> drops a name the
  table does not know and the id 0.
\<close>

definition protectedIds :: "workerEnv \<Rightarrow> nat set" where
  "protectedIds env =
     set (filter (\<lambda>i. i \<noteq> 0) (List.map_filter (blocksByName env) (protectedNames (cfg env))))"

datatype outcome = Returned | Threw js_error

text \<open>
  What the remote world answers during one handler run: whether each remote action is
  rejected (with which error), and what the clock reads. \<open>placeBlock\<close> may depend on the
  world at the moment of the call.
\<close>

record remote =
  lookAt_error :: "Vec3 \<Rightarrow> js_error option"
  dig_error :: "Block \<Rightarrow> js_error option"
  equip_error :: "Item \<Rightarrow> js_error option"
  placeBlock_error :: "world \<Rightarrow> Block \<Rightarrow> Vec3 \<Rightarrow> js_error option"
  setInventorySlot_error :: "js_error option"
  now :: real
  now_again :: real

subsection \<open>Helpers of the worker\<close>

definition blockAt :: "Bot \<Rightarrow> Vec3 \<Rightarrow> Block option" where
  "blockAt b p = world_blockAt (blocks b) p"

definition send :: "workerEnv \<Rightarrow> unit_payload \<Rightarrow> Bot \<Rightarrow> Bot" where
  "send env m b =
     b\<lparr>sent := sent b
            @ [\<lparr>msg_bot = or_else (Some (username b)) (initialUsername env),
                msg_payload = m\<rparr>]\<rparr>"

definition log_line :: "workerEnv \<Rightarrow> string \<Rightarrow> Bot \<Rightarrow> Bot" where
  "log_line env text b = send env (log_text text) b"

text \<open>
  \<open>String(e)\<close>: the name of the error and its message. It is also the first line of
  \<open>e.stack\<close>. \<open>err\<close> posts \<open>e.stack\<close> when the error has one, as every error thrown by the
  runtime or by the client library has: the first line, then the frames.
\<close>

definition error_string :: "js_error \<Rightarrow> string" where
  "error_string e =
     (case e of
        ReferenceError n \<Rightarrow> ''ReferenceError: '' @ n @ '' is not defined''
      | TypeError s \<Rightarrow> ''TypeError: '' @ s
      | ActionError s \<Rightarrow> ''Error: '' @ s)"

definition err :: "workerEnv \<Rightarrow> js_error \<Rightarrow> Bot \<Rightarrow> Bot" where
  "err env e b = send env (error_text (error_string e @ stackFrames env e)) b"

definition updateStatus :: "workerEnv \<Rightarrow> string \<Rightarrow> Bot \<Rightarrow> Bot" where
  "updateStatus env status b = send env (status_update status) b"

definition setGoal :: "goal \<Rightarrow> bool \<Rightarrow> Bot \<Rightarrow> Bot" where
  "setGoal g dynamic b = b\<lparr>pathGoal := Some (g, dynamic)\<rparr>"

definition pathfinder_stop :: "Bot \<Rightarrow> Bot" where
  "pathfinder_stop b = b\<lparr>pathGoal := None\<rparr>"

definition act :: "action \<Rightarrow> Bot \<Rightarrow> Bot" where
  "act a b = b\<lparr>acted := acted b @ [a]\<rparr>"

text \<open>\<open>targetName ? bot.players[targetName] : null\<close>, then \<open>player?.entity\<close>.\<close>

definition targetPlayer :: "Bot \<Rightarrow> Player option" where
  "targetPlayer b =
     (case target (state b) of
        None \<Rightarrow> None
      | Some targetName \<Rightarrow> if targetName = [] then None else players b targetName)"

definition playerEntity :: "Player option \<Rightarrow> Entity option" where
  "playerEntity player = (case player of None \<Rightarrow> None | Some p \<Rightarrow> p_entity p)"

subsection \<open>The spawn handler\<close>

text \<open>
  \<open>bot.once('spawn')\<close>: the worker tells the main thread the name the server gave it.
  In depster.js every worker does, and adds the handle it was started with; in the
  earlier revision only an authentication-flow worker sends the message, and without
  the handle. (The line appended to the accounts file and the set-up of the pathfinder
  are left out.)
\<close>

definition onSpawn :: "workerEnv \<Rightarrow> Bot \<Rightarrow> Bot" where
  "onSpawn env b =
     updateStatus env ''Idle''
       (log_line env ''Bot online.''
          (send env (authenticated (username b) (Some (initialUsername env))) b))"

definition onSpawn_v1 :: "workerEnv \<Rightarrow> Bot \<Rightarrow> Bot" where
  "onSpawn_v1 env b =
     updateStatus env ''Idle''
       (log_line env ''Bot online.''
          (if isAuthWorker env then send env (authenticated (username b) None) b else b))"

subsection \<open>The command handler\<close>

definition quote :: string where
  "quote = [CHR 0x27]"

text \<open>\<open>s.charAt(0).toUpperCase() + s.slice(1)\<close>, on ASCII letters.\<close>

definition toUpperCase_char :: "char \<Rightarrow> char" where
  "toUpperCase_char c =
     (let n = (of_char c :: nat) in if 97 \<le> n \<and> n \<le> 122 then char_of (n - 32) else c)"

definition capitalized :: "string \<Rightarrow> string" where
  "capitalized s = (case s of [] \<Rightarrow> [] | c # cs \<Rightarrow> toUpperCase_char c # cs)"

definition mode_of_command :: "string \<Rightarrow> mode option" where
  "mode_of_command c =
     (if c = ''follow'' then Some follow
      else if c = ''grief'' then Some grief
      else if c = ''trap'' then Some trap
      else None)"

definition resetState :: "workerEnv \<Rightarrow> Bot \<Rightarrow> Bot" where
  "resetState env b =
     updateStatus env ''Idle''
       (pathfinder_stop
          (b\<lparr>state := (state b)\<lparr>target := None, mode := None, isTrapping := False\<rparr>,
               sprint := False\<rparr>))"

text \<open>
  The \<open>switch\<close> of \<open>parentPort.on('message')\<close> in depster.js, for a bot that is live.
  \<open>msg.angle.toFixed(2)\<close> throws when the message has no angle.
\<close>

definition onCommand :: "workerEnv \<Rightarrow> command_data \<Rightarrow> Bot \<Rightarrow> outcome \<times> Bot" where
  "onCommand env msg b =
     (case m_command msg of
        None \<Rightarrow> (Returned, b)
      | Some c \<Rightarrow>
          if c = ''follow'' \<or> c = ''grief'' \<or> c = ''trap'' then
            (case m_target msg of
               None \<Rightarrow> (Returned, log_line env ''Target player name is required.'' b)
             | Some targetName \<Rightarrow>
                 if targetName = []
                 then (Returned, log_line env ''Target player name is required.'' b)
                 else
                   (case players b targetName of
                      None \<Rightarrow>
                        (Returned,
                         log_line env (''Can'' @ quote @ ''t see target player ''
                                       @ targetName @ ''.'') b)
                    | Some targetPlayer' \<Rightarrow>
                        (let b1 = resetState env b;
                             b2 = b1\<lparr>state := (state b1)\<lparr>target := Some targetName,
                                                          mode := mode_of_command c\<rparr>\<rparr>;
                             b3 = log_line env (''Executing '' @ quote @ c @ quote @ '' on ''
                                                @ targetName @ ''.'') b2
                         in (Returned,
                             updateStatus env (capitalized c @ ''ing '' @ targetName) b3))))
          else if c = ''clearmap'' then
            (let b1 = resetState env b;
                 b2 = b1\<lparr>state := (state b1)\<lparr>mode := Some clearmap,
                                              clearMapAngle := m_angle msg\<rparr>\<rparr>
             in case m_angle msg of
                  None \<Rightarrow>
                    (Threw (TypeError (''Cannot read properties of undefined (reading '' @ quote
                                       @ ''toFixed'' @ quote @ '')'')),
                     b2)
                | Some a \<Rightarrow>
                    (Returned,
                     updateStatus env ''Clearing Map''
                       (log_line env (''Initializing clearmap protocol at angle ''
                                      @ toFixed2 env a @ ''.'') b2)))
          else if c = ''stop'' then
            (Returned, resetState env (log_line env ''Stopping current action.'' b))
          else if c = ''chat'' then (Returned, act (Chat (m_message msg)) b)
          else (Returned, b))"

text \<open>
  \<open>parentPort.on('message')\<close>: \<open>None\<close> stands for a worker whose \<open>bot\<close> is still null
  or has no entity yet; such a worker ignores every message.
\<close>

definition onParentMessage ::
  "workerEnv \<Rightarrow> command_data \<Rightarrow> Bot option \<Rightarrow> outcome \<times> Bot option" where
  "onParentMessage env msg live =
     (case live of
        None \<Rightarrow> (Returned, None)
      | Some b \<Rightarrow>
          if m_type msg \<noteq> Some ''command'' then (Returned, Some b)
          else (case onCommand env msg b of (r, b') \<Rightarrow> (r, Some b')))"

subsection \<open>Target acquisition\<close>

text \<open>The three nested loops over \<open>dx\<close>, \<open>dy\<close>, \<open>dz\<close> from \<open>-scanRadius\<close> to \<open>scanRadius\<close>.\<close>

definition cube :: "int \<Rightarrow> (int \<times> int \<times> int) list" where
  "cube r = [(dx, dy, dz). dx \<leftarrow> [-r..r], dy \<leftarrow> [-r..r], dz \<leftarrow> [-r..r]]"

text \<open>
  The body of the loops: one position of the cube gives a candidate block or nothing
  (\<open>continue\<close>). A block always carries a position, so the check \<open>!b.position\<close> that
  depster.js adds never fires.
\<close>

definition candidateAt ::
  "real \<Rightarrow> nat set \<Rightarrow> Bot \<Rightarrow> Vec3 \<Rightarrow> int \<times> int \<times> int \<Rightarrow> Block option" where
  "candidateAt maxDig' protected b targetPos d =
     (case d of (dx, dy, dz) \<Rightarrow>
        (let bpos = offset targetPos (of_int dx) (of_int dy) (of_int dz) in
         if distanceTo (e_position (entity b)) bpos > maxDig' then None
         else
           (case blockAt b bpos of
              None \<Rightarrow> None
            | Some blk \<Rightarrow>
                if b_name blk = ''air'' \<or> b_type blk \<in> protected then None else Some blk)))"

definition scanBlocks :: "int \<Rightarrow> real \<Rightarrow> nat set \<Rightarrow> Bot \<Rightarrow> Vec3 \<Rightarrow> Block list" where
  "scanBlocks r maxDig' protected b targetPos =
     List.map_filter (candidateAt maxDig' protected b targetPos) (cube r)"

text \<open>
  \<open>blocks.sort((a, b) => distance(a) - distance(b))\<close>: a stable sort by the distance from
  the bot to the position of the block.
\<close>

definition nearestFirst :: "Bot \<Rightarrow> Block list \<Rightarrow> Block list" where
  "nearestFirst b blks = sort_key (\<lambda>blk. distanceTo (e_position (entity b)) (b_position blk)) blks"

text \<open>
  \<open>griefLogic\<close> of the earlier revision. It reads \<open>cfg.scanRadius\<close>, \<open>cfg.maxDig\<close> and
  \<open>cfg.clickDelay\<close>, reads the clock twice, and swallows a failed \<open>lookAt\<close> or \<open>dig\<close>.
\<close>

definition griefLogic_v1 :: "workerEnv \<Rightarrow> remote \<Rightarrow> Vec3 \<Rightarrow> Bot \<Rightarrow> outcome \<times> Bot" where
  "griefLogic_v1 env rw targetPos b =
     (let blks = scanBlocks (scanRadius (cfg env)) (maxDig (cfg env)) (protectedIds env)
                   b targetPos
      in if blks = [] then (Returned, b)
         else
           (let blockToBreak = hd (nearestFirst b blks) in
            if now rw - lastDig (state b) < clickDelay (cfg env) then (Returned, b)
            else
              (let b1 = b\<lparr>state := (state b)\<lparr>lastDig := now_again rw\<rparr>\<rparr>;
                   b2 = act (LookAt (offset (b_position blockToBreak) 0.5 0.5 0.5)) b1
               in case lookAt_error rw (offset (b_position blockToBreak) 0.5 0.5 0.5) of
                    Some e \<Rightarrow> (Returned, b2)
                  | None \<Rightarrow> (Returned, act (Dig blockToBreak) b2))))"

text \<open>
  \<open>griefLogic\<close> of depster.js. It names \<open>scanRadius\<close>, \<open>maxDig\<close> and \<open>clickDelay\<close> as
  bare identifiers. \<open>globals\<close> is what these identifiers are bound to: \<open>None\<close> when no
  declaration of them is in scope, and then evaluating \<open>-scanRadius\<close>, the first of
  them, throws a ReferenceError. The dig is not awaited and its rejection is dropped.
\<close>

record griefGlobals =
  g_scanRadius :: int
  g_maxDig :: real
  g_clickDelay :: real

definition griefLogic ::
  "workerEnv \<Rightarrow> remote \<Rightarrow> griefGlobals option \<Rightarrow> Vec3 \<Rightarrow> Bot \<Rightarrow> outcome \<times> Bot" where
  "griefLogic env rw globals targetPos b =
     (let b0 = setGoal (GoalBlock (vx targetPos) (vy targetPos) (vz targetPos)) True b in
      case globals of
        None \<Rightarrow> (Threw (ReferenceError ''scanRadius''), b0)
      | Some g \<Rightarrow>
          (let blks = scanBlocks (g_scanRadius g) (g_maxDig g) (protectedIds env) b0 targetPos
           in if blks = [] then (Returned, b0)
              else
                (let blk = hd (nearestFirst b0 blks);
                     now' = now rw
                 in if now' - lastDig (state b0) < g_clickDelay g then (Returned, b0)
                    else
                      (let b1 = b0\<lparr>state := (state b0)\<lparr>lastDig := now'\<rparr>\<rparr>;
                           b2 = act (LookAt (offset (b_position blk) 0.5 0.5 0.5)) b1
                       in case lookAt_error rw (offset (b_position blk) 0.5 0.5 0.5) of
                            Some e \<Rightarrow> (Threw e, b2)
                          | None \<Rightarrow> (Returned, act (Dig blk) b2)))))"

text \<open>
  The worker of depster.js declares none of the three names: \<open>scanRadius\<close>, \<open>maxDig\<close> and
  \<open>clickDelay\<close> occur in the file only as properties of \<open>sharedConfig\<close>, which the worker
  holds as \<open>cfg\<close>.
\<close>

definition workerGlobals :: "griefGlobals option" where
  "workerGlobals = None"

subsection \<open>The structure planner\<close>

definition findInventoryItem :: "Bot \<Rightarrow> nat \<Rightarrow> Item option" where
  "findInventoryItem b itemId = find (\<lambda>i. i_type i = itemId) (inventory b)"

text \<open>
  \<open>getBlockInHand\<close> of depster.js. A granted stack lands in the inventory when
  \<open>setInventorySlot\<close> resolves; when it rejects, the error is reported and null returned.
\<close>

definition getBlockInHand ::
  "workerEnv \<Rightarrow> remote \<Rightarrow> string \<Rightarrow> Bot \<Rightarrow> Item option \<times> Bot" where
  "getBlockInHand env rw itemName b =
     (case itemsByName env itemName of
        None \<Rightarrow> (None, b)
      | Some itemId \<Rightarrow>
          (case findInventoryItem b itemId of
             Some item \<Rightarrow> (Some item, b)
           | None \<Rightarrow>
               if creative b then
                 (let b1 = act (SetInventorySlot 36 (Item itemId 64)) b in
                  case setInventorySlot_error rw of
                    Some e \<Rightarrow> (None, err env e b1)
                  | None \<Rightarrow>
                      (let b2 = log_line env (''Gave myself a stack of '' @ itemName @ ''.'')
                                  (b1\<lparr>inventory := Item itemId 64 # inventory b1\<rparr>)
                       in (findInventoryItem b2 itemId, b2)))
               else (None, b)))"

definition adjacentOffsets :: "Vec3 list" where
  "adjacentOffsets =
     [Vec3 0 (-1) 0, Vec3 0 1 0, Vec3 (-1) 0 0, Vec3 1 0 0, Vec3 0 0 (-1), Vec3 0 0 1]"

text \<open>
  The block a successful \<open>placeBlock\<close> leaves in the world: the configured material, held
  in the hand, as a solid block. It lands in the cell next to the reference block on
  the side of the face vector.
\<close>

definition placedBlock :: "workerEnv \<Rightarrow> blockData" where
  "placedBlock env =
     BlockData (trapBlock (cfg env))
       (case blocksByName env (trapBlock (cfg env)) of None \<Rightarrow> 0 | Some i \<Rightarrow> i) ''block''"

definition placeBlock :: "workerEnv \<Rightarrow> remote \<Rightarrow> Block \<Rightarrow> Vec3 \<Rightarrow> Bot \<Rightarrow> outcome \<times> Bot" where
  "placeBlock env rw referenceBlock faceVector b =
     (let b1 = act (PlaceBlock referenceBlock faceVector) b in
      case placeBlock_error rw (blocks b) referenceBlock faceVector of
        Some e \<Rightarrow> (Threw e, b1)
      | None \<Rightarrow>
          (Returned,
           b1\<lparr>blocks := (blocks b1)
                  (cell (plus_vec (b_position referenceBlock) faceVector)
                     := Some (placedBlock env))\<rparr>))"

text \<open>
  The inner loop of \<open>trapLogic\<close> in depster.js, over the adjacent offsets that are left:
  the first solid neighbour against which the placement succeeds ends the loop
  (\<open>break\<close>); a placement that throws is ignored and the next neighbour is tried.
\<close>

fun placeAgainst :: "workerEnv \<Rightarrow> remote \<Rightarrow> Vec3 \<Rightarrow> Vec3 list \<Rightarrow> Bot \<Rightarrow> Bot" where
  "placeAgainst env rw blockPos [] b = b"
| "placeAgainst env rw blockPos (adjOffset # rest) b =
     (case blockAt b (plus_vec blockPos adjOffset) of
        None \<Rightarrow> placeAgainst env rw blockPos rest b
      | Some referenceBlock \<Rightarrow>
          if b_boundingBox referenceBlock = ''block'' then
            (case placeBlock env rw referenceBlock (scaled adjOffset (-1)) b of
               (Returned, b1) \<Rightarrow> b1
             | (Threw e, b1) \<Rightarrow> placeAgainst env rw blockPos rest b1)
          else placeAgainst env rw blockPos rest b)"

text \<open>The body of the outer loop, for one offset of the trap.\<close>

definition placeOffset :: "workerEnv \<Rightarrow> remote \<Rightarrow> Vec3 \<Rightarrow> Bot \<Rightarrow> Vec3 \<Rightarrow> Bot" where
  "placeOffset env rw playerPos b off =
     (let blockPos = plus_vec playerPos off in
      case blockAt b blockPos of
        None \<Rightarrow> b
      | Some blk \<Rightarrow>
          if b_boundingBox blk = ''empty''
          then placeAgainst env rw blockPos adjacentOffsets b
          else b)"

text \<open>
  \<open>trapLogic\<close> of depster.js. One run is one step here: its awaits span several ticks,
  during which the guard \<open>isTrapping\<close> turns every other tick of the mode away.
\<close>

definition trapLogic :: "workerEnv \<Rightarrow> remote \<Rightarrow> Entity \<Rightarrow> Bot \<Rightarrow> outcome \<times> Bot" where
  "trapLogic env rw targetEntity b =
     (if isTrapping (state b) then (Returned, b)
      else
        (let distance = distanceTo (e_position (entity b)) (e_position targetEntity) in
         if distance > 4.5
         then (Returned, setGoal (GoalFollow targetEntity 3.5) True b)
         else
           (let b1 = pathfinder_stop b;
                b2 = b1\<lparr>state := (state b1)\<lparr>isTrapping := True\<rparr>\<rparr>
            in case getBlockInHand env rw (trapBlock (cfg env)) b2 of
                 (None, b3) \<Rightarrow>
                   (let b4 = log_line env (''Cannot find or get '' @ trapBlock (cfg env)
                                           @ '' to trap with. Aborting.'') b3;
                        b5 = b4\<lparr>state := (state b4)\<lparr>isTrapping := False, mode := None\<rparr>\<rparr>
                    in (Returned, updateStatus env ''Idle'' b5))
               | (Some trapBlockItem, b3) \<Rightarrow>
                   (let b4 = act (Equip trapBlockItem) b3 in
                    case equip_error rw trapBlockItem of
                      Some e \<Rightarrow> (Threw e, b4)
                    | None \<Rightarrow>
                        (let playerPos = floored (e_position targetEntity);
                             b5 = foldl (placeOffset env rw playerPos) b4 (map fst trapOffsets);
                             b6 = log_line env (''Trap for '' @ show_null (target (state b5))
                                                @ '' should be complete.'') b5;
                             b7 = b6\<lparr>state := (state b6)\<lparr>mode := Some follow\<rparr>\<rparr>;
                             b8 = updateStatus env
                                    (''Following '' @ show_null (target (state b7))) b7
                         in (Returned, b8\<lparr>state := (state b8)\<lparr>isTrapping := False\<rparr>\<rparr>))))))"

subsection \<open>The tick handler\<close>

text \<open>
  \<open>try { ... } catch (e) { handler }\<close>: what the body did before it threw stays done.
\<close>

definition try_catch :: "outcome \<times> Bot \<Rightarrow> (js_error \<Rightarrow> Bot \<Rightarrow> outcome \<times> Bot) \<Rightarrow> outcome \<times> Bot" where
  "try_catch r handler = (case r of (Returned, b) \<Rightarrow> (Returned, b) | (Threw e, b) \<Rightarrow> handler e b)"

definition goIdle :: "workerEnv \<Rightarrow> Bot \<Rightarrow> Bot" where
  "goIdle env b = updateStatus env ''Idle'' (b\<lparr>state := (state b)\<lparr>mode := None\<rparr>\<rparr>)"

text \<open>
  The body of the \<open>try\<close> in the \<open>physicsTick\<close> handler of depster.js. A run of a handler
  is one step here: what other handlers of the worker do while this one awaits a remote
  answer is not part of the model.
\<close>

definition tickBody :: "workerEnv \<Rightarrow> remote \<Rightarrow> Bot \<Rightarrow> outcome \<times> Bot" where
  "tickBody env rw b =
     (case mode (state b) of
        None \<Rightarrow> (Returned, b)
      | Some m \<Rightarrow>
          (let player = targetPlayer b in
           case m of
             follow \<Rightarrow>
               (case playerEntity player of
                  None \<Rightarrow> (Returned, goIdle env b)
                | Some e \<Rightarrow> (Returned, setGoal (GoalFollow e 1) True (b\<lparr>sprint := True\<rparr>)))
           | grief \<Rightarrow>
               (case playerEntity player of
                  None \<Rightarrow> (Returned, goIdle env b)
                | Some e \<Rightarrow>
                    griefLogic env rw workerGlobals (e_position e) (b\<lparr>sprint := True\<rparr>))
           | trap \<Rightarrow>
               (case playerEntity player of
                  None \<Rightarrow> (Returned, goIdle env b)
                | Some e \<Rightarrow> trapLogic env rw e b)
           | clearmap \<Rightarrow>
               (let b1 = b\<lparr>sprint := True\<rparr> in
                if \<not> moving b1 then
                  (let angle = clearMapAngle (state b1);
                       newX = map_option (\<lambda>a. vx (e_position (entity b1)) + 10000 * cos a) angle;
                       newZ = map_option (\<lambda>a. vz (e_position (entity b1)) + 10000 * sin a) angle
                   in (Returned,
                       log_line env ''Set new distant goal in my assigned direction.''
                         (setGoal (GoalXZ newX newZ) False b1)))
                else (Returned, b1))))"

definition physicsTick :: "workerEnv \<Rightarrow> remote \<Rightarrow> Bot \<Rightarrow> outcome \<times> Bot" where
  "physicsTick env rw b =
     try_catch (tickBody env rw b) (\<lambda>e b'. (Returned, err env e b'))"

subsection \<open>The worker of the earlier revision\<close>

text \<open>
  The earlier revision differs in the places below: \<open>resetState\<close> leaves the sprint
  alone; \<open>getBlockInHand\<close> looks the item up before it knows the name is in the table;
  an accepted \<open>trap\<close> command ends with a call of \<open>getBlockInHand\<close>, a function declared
  inside \<open>createBot\<close> and so not in scope in the handler of the parent's messages: the
  handler throws a \<open>ReferenceError\<close> there, after it has set the target and the mode and
  sent its two messages, and nothing catches it; the planner tests for air by name, takes
  the first loaded neighbour of five as its reference and swallows every placement error;
  the tick sets other goals and never sprints.
\<close>

definition resetState_v1 :: "workerEnv \<Rightarrow> Bot \<Rightarrow> Bot" where
  "resetState_v1 env b =
     updateStatus env ''Idle''
       (pathfinder_stop
          (b\<lparr>state := (state b)\<lparr>target := None, mode := None, isTrapping := False\<rparr>\<rparr>))"

definition getBlockInHand_v1 ::
  "workerEnv \<Rightarrow> remote \<Rightarrow> string \<Rightarrow> Bot \<Rightarrow> Item option \<times> Bot" where
  "getBlockInHand_v1 env rw itemName b =
     (case (case itemsByName env itemName of
              None \<Rightarrow> None
            | Some itemId \<Rightarrow> findInventoryItem b itemId) of
        Some item \<Rightarrow> (Some item, b)
      | None \<Rightarrow>
          if creative b then
            (case itemsByName env itemName of
               None \<Rightarrow>
                 (None,
                  err env (TypeError (''Cannot read properties of undefined (reading '' @ quote
                                      @ ''id'' @ quote @ '')'')) b)
             | Some itemId \<Rightarrow>
                 (let b1 = act (SetInventorySlot 36 (Item itemId 64)) b in
                  case setInventorySlot_error rw of
                    Some e \<Rightarrow> (None, err env e b1)
                  | None \<Rightarrow>
                      (let b2 = log_line env (''Gave myself a stack of '' @ itemName @ ''.'')
                                  (b1\<lparr>inventory := Item itemId 64 # inventory b1\<rparr>)
                       in (findInventoryItem b2 itemId, b2))))
          else (None, b))"

definition onCommand_v1 :: "workerEnv \<Rightarrow> command_data \<Rightarrow> Bot \<Rightarrow> outcome \<times> Bot" where
  "onCommand_v1 env msg b =
     (case m_command msg of
        None \<Rightarrow> (Returned, b)
      | Some c \<Rightarrow>
          if c = ''follow'' \<or> c = ''grief'' \<or> c = ''trap'' then
            (case m_target msg of
               None \<Rightarrow> (Returned, log_line env ''Target player name is required.'' b)
             | Some targetName \<Rightarrow>
                 if targetName = []
                 then (Returned, log_line env ''Target player name is required.'' b)
                 else
                   (case players b targetName of
                      None \<Rightarrow>
                        (Returned,
                         log_line env (''Can'' @ quote @ ''t see target player ''
                                       @ targetName @ ''.'') b)
                    | Some targetPlayer' \<Rightarrow>
                        (let b1 = resetState_v1 env b;
                             b2 = b1\<lparr>state := (state b1)\<lparr>target := Some targetName,
                                                          mode := mode_of_command c\<rparr>\<rparr>;
                             b3 = log_line env (''Executing '' @ quote @ c @ quote @ '' on ''
                                                @ targetName @ ''.'') b2;
                             b4 = updateStatus env (capitalized c @ ''ing '' @ targetName) b3
                         in if c = ''trap''
                            then (Threw (ReferenceError ''getBlockInHand''), b4)
                            else (Returned, b4))))
          else if c = ''clearmap'' then
            (let b1 = resetState_v1 env b;
                 b2 = b1\<lparr>state := (state b1)\<lparr>mode := Some clearmap,
                                              clearMapAngle := m_angle msg\<rparr>\<rparr>
             in case m_angle msg of
                  None \<Rightarrow>
                    (Threw (TypeError (''Cannot read properties of undefined (reading '' @ quote
                                       @ ''toFixed'' @ quote @ '')'')),
                     b2)
                | Some a \<Rightarrow>
                    (Returned,
                     updateStatus env ''Clearing Map''
                       (log_line env (''Initializing clearmap protocol at angle ''
                                      @ toFixed2 env a @ ''.'') b2)))
          else if c = ''stop'' then
            (Returned, resetState_v1 env (log_line env ''Stopping current action.'' b))
          else if c = ''chat'' then (Returned, act (Chat (m_message msg)) b)
          else (Returned, b))"

definition onParentMessage_v1 ::
  "workerEnv \<Rightarrow> command_data \<Rightarrow> Bot option \<Rightarrow> outcome \<times> Bot option" where
  "onParentMessage_v1 env msg live =
     (case live of
        None \<Rightarrow> (Returned, None)
      | Some b \<Rightarrow>
          if m_type msg \<noteq> Some ''command'' then (Returned, Some b)
          else (case onCommand_v1 env msg b of (r, b') \<Rightarrow> (r, Some b')))"

text \<open>\<open>a || b || ...\<close> on blocks: the first that is not null.\<close>

fun firstPresent :: "'a option list \<Rightarrow> 'a option" where
  "firstPresent [] = None"
| "firstPresent (None # xs) = firstPresent xs"
| "firstPresent (Some x # xs) = Some x"

definition placeOffset_v1 :: "workerEnv \<Rightarrow> remote \<Rightarrow> Vec3 \<Rightarrow> Bot \<Rightarrow> Vec3 \<Rightarrow> Bot" where
  "placeOffset_v1 env rw playerPos b off =
     (let blockPos = plus_vec playerPos off in
      case blockAt b blockPos of
        None \<Rightarrow> b
      | Some blk \<Rightarrow>
          if b_name blk = ''air'' then
            (case firstPresent
                    [blockAt b (offset blockPos 0 (-1) 0), blockAt b (offset blockPos 1 0 0),
                     blockAt b (offset blockPos (-1) 0 0), blockAt b (offset blockPos 0 0 1),
                     blockAt b (offset blockPos 0 0 (-1))] of
               None \<Rightarrow> b
             | Some placeAgainst' \<Rightarrow>
                 if b_name placeAgainst' \<noteq> ''air''
                 then snd (placeBlock env rw placeAgainst'
                             (scaled (minus_vec off (minus_vec (b_position placeAgainst') playerPos))
                                (-1)) b)
                 else b)
          else b)"

definition trapLogic_v1 :: "workerEnv \<Rightarrow> remote \<Rightarrow> Entity \<Rightarrow> Bot \<Rightarrow> outcome \<times> Bot" where
  "trapLogic_v1 env rw targetEntity b =
     (if isTrapping (state b) then (Returned, b)
      else
        (let distance = distanceTo (e_position (entity b)) (e_position targetEntity) in
         if distance > 4.5
         then (Returned, setGoal (GoalFollow targetEntity 3.5) True b)
         else
           (let b1 = pathfinder_stop b;
                b2 = b1\<lparr>state := (state b1)\<lparr>isTrapping := True\<rparr>\<rparr>
            in case getBlockInHand_v1 env rw (trapBlock (cfg env)) b2 of
                 (None, b3) \<Rightarrow>
                   (let b4 = log_line env (''Cannot find '' @ trapBlock (cfg env)
                                           @ '' to trap with.'') b3;
                        b5 = b4\<lparr>state := (state b4)\<lparr>isTrapping := False, mode := None\<rparr>\<rparr>
                    in (Returned, updateStatus env ''Idle'' b5))
               | (Some trapBlockItem, b3) \<Rightarrow>
                   (let b4 = act (Equip trapBlockItem) b3 in
                    case equip_error rw trapBlockItem of
                      Some e \<Rightarrow> (Threw e, b4)
                    | None \<Rightarrow>
                        (let playerPos = floored (e_position targetEntity);
                             b5 = foldl (placeOffset_v1 env rw playerPos) b4 (map fst trapOffsets);
                             b6 = log_line env (''Trap for '' @ show_null (target (state b5))
                                                @ '' should be complete.'') b5;
                             b7 = b6\<lparr>state := (state b6)\<lparr>mode := Some follow\<rparr>\<rparr>;
                             b8 = updateStatus env
                                    (''Following '' @ show_null (target (state b7))) b7
                         in (Returned, b8\<lparr>state := (state b8)\<lparr>isTrapping := False\<rparr>\<rparr>))))))"

definition tickBody_v1 :: "workerEnv \<Rightarrow> remote \<Rightarrow> Bot \<Rightarrow> outcome \<times> Bot" where
  "tickBody_v1 env rw b =
     (case mode (state b) of
        None \<Rightarrow> (Returned, b)
      | Some m \<Rightarrow>
          (let player = targetPlayer b in
           case m of
             follow \<Rightarrow>
               (case playerEntity player of
                  None \<Rightarrow> (Returned, goIdle env b)
                | Some e \<Rightarrow> (Returned, setGoal (GoalFollow e 2) True b))
           | grief \<Rightarrow>
               (case playerEntity player of
                  None \<Rightarrow> (Returned, goIdle env b)
                | Some e \<Rightarrow>
                    griefLogic_v1 env rw (e_position e)
                      (setGoal (GoalFollow e (maxDig (cfg env) - 1)) True b))
           | trap \<Rightarrow>
               (case playerEntity player of
                  None \<Rightarrow> (Returned, goIdle env b)
                | Some e \<Rightarrow> trapLogic_v1 env rw e b)
           | clearmap \<Rightarrow>
               (if \<not> moving b then
                  (let angle = clearMapAngle (state b);
                       newX = map_option (\<lambda>a. vx (e_position (entity b)) + 10000 * cos a) angle;
                       newZ = map_option (\<lambda>a. vz (e_position (entity b)) + 10000 * sin a) angle
                   in (Returned,
                       log_line env ''Set new distant goal in my assigned direction.''
                         (setGoal (GoalXZ newX newZ) False b)))
                else (Returned, b))))"

definition physicsTick_v1 :: "workerEnv \<Rightarrow> remote \<Rightarrow> Bot \<Rightarrow> outcome \<times> Bot" where
  "physicsTick_v1 env rw b =
     try_catch (tickBody_v1 env rw b) (\<lambda>e b'. (Returned, err env e b'))"

section \<open>What a run shows\<close>

text \<open>
  The theorems below speak about what a handler posted to workers, emitted to the
  dashboard with \<open>io.emit\<close> (the console lines that the hook on the output stream
  forwards stay \<open>ConsoleLog\<close> effects) and scheduled, the workers it started (with the handle and whether
  the worker runs the authentication flow), and about the blocks a bot dug and
  the cells it filled.
\<close>

definition posted :: "effect list \<Rightarrow> (Worker \<times> command_data) list" where
  "posted effs =
     List.map_filter (\<lambda>f. case f of PostMessage w m \<Rightarrow> Some (w, m) | _ \<Rightarrow> None) effs"

definition emitted :: "effect list \<Rightarrow> dashboard_event list" where
  "emitted effs = List.map_filter (\<lambda>f. case f of Emit ev \<Rightarrow> Some ev | _ \<Rightarrow> None) effs"

definition timers :: "effect list \<Rightarrow> (timer_task \<times> nat) list" where
  "timers effs =
     List.map_filter (\<lambda>f. case f of SetTimeout t ms \<Rightarrow> Some (t, ms) | _ \<Rightarrow> None) effs"

definition started :: "effect list \<Rightarrow> (Worker \<times> string \<times> bool) list" where
  "started effs =
     List.map_filter (\<lambda>f. case f of StartWorker w n a \<Rightarrow> Some (w, n, a) | _ \<Rightarrow> None) effs"

definition dug :: "Bot \<Rightarrow> Block list" where
  "dug b = List.map_filter (\<lambda>a. case a of Dig blk \<Rightarrow> Some blk | _ \<Rightarrow> None) (acted b)"

definition isEmpty :: "Bot \<Rightarrow> Vec3 \<Rightarrow> bool" where
  "isEmpty b p = (case blockAt b p of None \<Rightarrow> False | Some blk \<Rightarrow> b_boundingBox blk = ''empty'')"

definition isSolid :: "Bot \<Rightarrow> Vec3 \<Rightarrow> bool" where
  "isSolid b p = (case blockAt b p of None \<Rightarrow> False | Some blk \<Rightarrow> b_boundingBox blk = ''block'')"

section \<open>A small scene\<close>

text \<open>
  A concrete worker and world on which the theorems are instantiated: solid stone in
  every cell below height 0 and air above; the bot Alice at the origin with a stack of
  dirt; the player Bob two cells away. \<open>exampleEnv\<close> scans a cube of radius 1 so that
  a scan can be evaluated by rewriting; apart from that it carries the configuration of
  the earlier revision. Its runtime records no frames, so that the stack of an error is
  its first line.
\<close>

definition exampleWorld :: world where
  "exampleWorld c =
     (if fst (snd c) < 0 then Some (BlockData ''stone'' 1 ''block'')
      else Some (BlockData ''air'' 0 ''empty''))"

definition exampleEnv :: workerEnv where
  "exampleEnv =
     \<lparr>initialUsername = ''Alice'', isAuthWorker = False,
      cfg = sharedConfig_v1\<lparr>scanRadius := 1\<rparr>,
      blocksByName = (\<lambda>n. if n = ''bedrock'' then Some 7
                           else if n = ''dirt'' then Some 9
                           else if n = ''stone'' then Some 1 else None),
      itemsByName = (\<lambda>n. if n = ''dirt'' then Some 9 else None),
      toFixed2 = (\<lambda>a. if a = 0 then ''0.00'' else ''?''),
      stackFrames = (\<lambda>e. [])\<rparr>"

definition exampleBot :: Bot where
  "exampleBot =
     \<lparr>username = ''Alice'', entity = Entity 1 (Vec3 0 0 0),
      players = (\<lambda>n. if n = ''Bob'' then Some (Player (Some (Entity 2 (Vec3 2 0 0))))
                      else None),
      state = initialState,
      sprint = False, pathGoal = None, moving = False, blocks = exampleWorld,
      inventory = [Item 9 64], creative = False, sent = [], acted = []\<rparr>"

text \<open>
  A remote world that accepts every action, and one that lets the bot equip an item but
  rejects every look, dig, placement and grant.
\<close>

definition acceptingRemote :: remote where
  "acceptingRemote =
     \<lparr>lookAt_error = (\<lambda>p. None), dig_error = (\<lambda>blk. None), equip_error = (\<lambda>i. None),
      placeBlock_error = (\<lambda>w blk f. None), setInventorySlot_error = None,
      now = 1000, now_again = 1000\<rparr>"

definition rejectingRemote :: remote where
  "rejectingRemote =
     \<lparr>lookAt_error = (\<lambda>p. Some (ActionError ''rejected'')),
      dig_error = (\<lambda>blk. Some (ActionError ''rejected'')),
      equip_error = (\<lambda>i. None),
      placeBlock_error = (\<lambda>w blk f. Some (ActionError ''rejected'')),
      setInventorySlot_error = Some (ActionError ''rejected''),
      now = 1000, now_again = 1000\<rparr>"

text \<open>The bot of the scene while it sweeps, and while it griefs around Bob.\<close>

definition sweepingBot :: Bot where
  "sweepingBot = exampleBot\<lparr>state := (state exampleBot)\<lparr>mode := Some clearmap\<rparr>, moving := True\<rparr>"

definition griefingBot :: Bot where
  "griefingBot =
     exampleBot\<lparr>state := (state exampleBot)\<lparr>target := Some ''Bob'', mode := Some grief\<rparr>\<rparr>"


text \<open>
  The bot of the scene while it follows Bob, after a tick: it sprints and the pathfinder
  holds the goal of following Bob. A second player, Dave, is in the list of players but
  out of view: his entry has no entity.
\<close>

definition followingBot :: Bot where
  "followingBot =
     exampleBot
       \<lparr>players := (\<lambda>n. if n = ''Bob'' then Some (Player (Some (Entity 2 (Vec3 2 0 0))))
                        else if n = ''Dave'' then Some (Player None) else None),
        state := (state exampleBot)\<lparr>target := Some ''Bob'', mode := Some follow\<rparr>,
        sprint := True,
        pathGoal := Some (GoalFollow (Entity 2 (Vec3 2 0 0)) 1, True)\<rparr>"

text \<open>
  A run of the supervisor of depster.js from the empty map: a worker (number 0) is
  spawned for the account Steve; an authentication-flow worker (number 1) is spawned
  under the temporary handle AuthBot-7 and authenticates as Steve too. Its entry takes
  the place of the entry of worker 0, which is in no entry of the map from then on.
\<close>

definition overwrittenMap :: "(string \<times> workerEntry) list" where
  "overwrittenMap =
     (let sv1 = fst (spawnWorkerFor ''Steve'' False \<lparr>activeWorkers = [], nextWorker = 0\<rparr>);
          sv2 = fst (spawnAuthBot 7 sv1)
      in fst (onMessage ''AuthBot-7'' True
                \<lparr>msg_bot = ''Steve'',
                 msg_payload = authenticated ''Steve'' (Some ''AuthBot-7'')\<rparr>
                (activeWorkers sv2)))"
text \<open>The bot of the scene while it traps Bob.\<close>

definition trappingBot :: Bot where
  "trappingBot =
     exampleBot\<lparr>state := (state exampleBot)\<lparr>target := Some ''Bob'', mode := Some trap\<rparr>\<rparr>"

text \<open>
  The bot as it is when the planner, started on \<open>bot\<close>, reaches the offset with index \<open>k\<close>:
  the offsets before it have had their turn.
\<close>

definition atTurn :: "workerEnv \<Rightarrow> remote \<Rightarrow> Vec3 \<Rightarrow> Bot \<Rightarrow> nat \<Rightarrow> Bot" where
  "atTurn env rw playerPos b k =
     foldl (placeOffset env rw playerPos) b (take k (map fst trapOffsets))"

section \<open>Facts about the trap offsets\<close>

lemma upto_m1_1: "[-1..1] = [-1, 0, 1::int]"
  by (simp add: upto.simps)

lemma upto_0_1: "[0..1] = [0, 1::int]"
  by (simp add: upto.simps)

lemma floorOffsets_eval:
  "floorOffsets =
     [(Vec3 (-1) (-1) (-1), ''floor''), (Vec3 (-1) (-1) 0, ''floor''),
      (Vec3 (-1) (-1) 1, ''floor''), (Vec3 0 (-1) (-1), ''floor''),
      (Vec3 0 (-1) 1, ''floor''), (Vec3 1 (-1) (-1), ''floor''),
      (Vec3 1 (-1) 0, ''floor''), (Vec3 1 (-1) 1, ''floor'')]"
  by (simp add: floorOffsets_def upto_m1_1)

lemma wallOffsets_eval:
  "wallOffsets =
     [(Vec3 (-1) 0 (-1), ''wall''), (Vec3 (-1) 0 1, ''wall''),
      (Vec3 1 0 (-1), ''wall''), (Vec3 1 0 1, ''wall''),
      (Vec3 0 0 (-1), ''wall''), (Vec3 0 0 1, ''wall''),
      (Vec3 (-1) 0 0, ''wall''), (Vec3 1 0 0, ''wall''),
      (Vec3 (-1) 1 (-1), ''wall''), (Vec3 (-1) 1 1, ''wall''),
      (Vec3 1 1 (-1), ''wall''), (Vec3 1 1 1, ''wall''),
      (Vec3 0 1 (-1), ''wall''), (Vec3 0 1 1, ''wall''),
      (Vec3 (-1) 1 0, ''wall''), (Vec3 1 1 0, ''wall'')]"
  by (simp add: wallOffsets_def upto_0_1)

lemma roofOffsets_eval:
  "roofOffsets =
     [(Vec3 (-1) 2 (-1), ''roof''), (Vec3 (-1) 2 0, ''roof''), (Vec3 (-1) 2 1, ''roof''),
      (Vec3 0 2 (-1), ''roof''), (Vec3 0 2 0, ''roof''), (Vec3 0 2 1, ''roof''),
      (Vec3 1 2 (-1), ''roof''), (Vec3 1 2 0, ''roof''), (Vec3 1 2 1, ''roof'')]"
  by (simp add: roofOffsets_def upto_m1_1)










section \<open>Facts about the identity map\<close>

lemma Map_get_set: "Map_get (Map_set m k v) k' = (if k' = k then Some v else Map_get m k')"
  by (induction m) (auto simp: Map_get_def)

lemma Map_get_delete: "Map_get (Map_delete m k) k' = (if k' = k then None else Map_get m k')"
  by (induction m) (auto simp: Map_get_def Map_delete_def)

lemma keys_Map_set: "set (map fst (Map_set m k v)) = insert k (set (map fst m))"
  by (induction m) auto

lemma distinct_Map_set: "distinct (map fst m) \<Longrightarrow> distinct (map fst (Map_set m k v))"
proof (induction m)
  case Nil
  then show ?case by simp
next
  case (Cons e m)
  have "fst e \<notin> set (map fst (Map_set m k v))" if "fst e \<noteq> k"
    using Cons.prems that by (simp add: keys_Map_set del: set_map)
  with Cons show ?case by auto
qed

lemma distinct_Map_delete: "distinct (map fst m) \<Longrightarrow> distinct (map fst (Map_delete m k))"
  by (simp add: Map_delete_def distinct_map_filter)

lemma keysWhere_delete:
  "keysWhere P (Map_delete m k) = filter (\<lambda>k'. k' \<noteq> k) (keysWhere P m)"
  by (induction m) (auto simp: keysWhere_def Map_delete_def)

lemma set_keysWhere: "set (keysWhere P m) \<subseteq> set (map fst m)"
  by (auto simp: keysWhere_def)

text \<open>
  Storing a value that does not satisfy the predicate drops the key from the list.
\<close>

lemma keysWhere_set_other:
  assumes "distinct (map fst m)" and "\<not> P v"
  shows "keysWhere P (Map_set m k v) = filter (\<lambda>k'. k' \<noteq> k) (keysWhere P m)"
  using assms
proof (induction m)
  case Nil
  then show ?case by (simp add: keysWhere_def)
next
  case (Cons e m)
  have notin: "fst e \<notin> set (keysWhere P m)"
    using Cons.prems(1) set_keysWhere[of P m] by auto
  show ?case
  proof (cases "fst e = k")
    case True
    then have "filter (\<lambda>k'. k' \<noteq> k) (keysWhere P m) = keysWhere P m"
      using notin by (auto simp: filter_id_conv)
    with True Cons.prems show ?thesis by (simp add: keysWhere_def)
  next
    case False
    with Cons show ?thesis by (simp add: keysWhere_def)
  qed
qed

lemma keysWhere_empty_iff: "keysWhere P m = [] \<longleftrightarrow> (\<forall>e \<in> set m. \<not> P (snd e))"
  by (simp add: keysWhere_def filter_empty_conv)

lemma keysWhere_set_new:
  assumes "keysWhere P m = []" and "P v"
  shows "keysWhere P (Map_set m k v) = [k]"
  using assms
proof (induction m)
  case Nil
  then show ?case by (simp add: keysWhere_def)
next
  case (Cons e m)
  from Cons.prems(1) have e: "\<not> P (snd e)" and m: "keysWhere P m = []"
    by (auto simp: keysWhere_def split: if_splits)
  show ?case
  proof (cases "fst e = k")
    case True
    with m Cons.prems(2) show ?thesis by (simp add: keysWhere_def)
  next
    case False
    with e Cons.IH[OF m Cons.prems(2)] show ?thesis by (simp add: keysWhere_def)
  qed
qed

lemma keysWhere_single_delete:
  "keysWhere P m = [k] \<Longrightarrow> keysWhere P (Map_delete m k) = []"
  by (simp add: keysWhere_delete)

lemma keysWhere_set_same:
  assumes "distinct (map fst m)" and "Map_get m k = Some v" and "P v' = P v"
  shows "keysWhere P (Map_set m k v') = keysWhere P m"
  using assms
proof (induction m)
  case Nil
  then show ?case by (simp add: Map_get_def)
next
  case (Cons e m)
  show ?case
  proof (cases "fst e = k")
    case True
    with Cons.prems have "snd e = v" by (simp add: Map_get_def)
    with True Cons.prems(3) show ?thesis by (simp add: keysWhere_def)
  next
    case False
    with Cons.prems have "Map_get m k = Some v" by (simp add: Map_get_def)
    with False Cons show ?thesis by (simp add: keysWhere_def)
  qed
qed

lemma keys_Map_set_present:
  "Map_get m k = Some v \<Longrightarrow> map fst (Map_set m k v') = map fst m"
  by (induction m) (auto simp: Map_get_def)

lemma find_Some_keysWhere:
  assumes "distinct (map fst m)" and "keysWhere P m = [k]" and "Map_get m k = Some v"
  shows "find (\<lambda>e. P (snd e)) m = Some (k, v)"
  using assms
proof (induction m)
  case Nil
  then show ?case by (simp add: keysWhere_def)
next
  case (Cons e m)
  show ?case
  proof (cases "P (snd e)")
    case True
    with Cons.prems(2) have "fst e = k" by (simp add: keysWhere_def)
    with True Cons.prems(3) show ?thesis by (cases e) (simp add: Map_get_def)
  next
    case False
    with Cons.prems(2) have kw: "keysWhere P m = [k]" by (simp add: keysWhere_def)
    then have "k \<in> set (map fst m)"
      using set_keysWhere[of P m] by auto
    with Cons.prems(1) have "fst e \<noteq> k" by auto
    with Cons.prems(3) have "Map_get m k = Some v" by (simp add: Map_get_def)
    with Cons.IH kw Cons.prems(1) False show ?thesis by simp
  qed
qed

section \<open>Identity reconciliation\<close>

lemma Map_delete_set_same: "Map_delete (Map_set m k v) k = Map_delete m k"
  by (induction m) (auto simp: Map_delete_def)

text \<open>
  Spawning registers the new worker under the handle, with no final name, as the only
  entry of that worker: the workers of the map are older than the next one.
\<close>

lemma spawnWorkerFor_registers:
  assumes "distinct (map fst (activeWorkers sv))"
      and "\<not> Map_has (activeWorkers sv) H"
      and "\<forall>e \<in> set (activeWorkers sv). worker (snd e) < nextWorker sv"
  shows "Map_get (activeWorkers (fst (spawnWorkerFor H isAuth sv))) H
           = Some \<lparr>worker = nextWorker sv, finalUsername = None\<rparr>
         \<and> keysWhere (\<lambda>v. worker v = nextWorker sv)
              (activeWorkers (fst (spawnWorkerFor H isAuth sv))) = [H]
         \<and> distinct (map fst (activeWorkers (fst (spawnWorkerFor H isAuth sv))))"
proof -
  have none: "keysWhere (\<lambda>v. worker v = nextWorker sv) (activeWorkers sv) = []"
    using assms(3) by (fastforce simp: keysWhere_empty_iff)
  show ?thesis
    using assms(1,2) keysWhere_set_new[OF none, of "\<lparr>worker = nextWorker sv, finalUsername = None\<rparr>" H]
    by (simp add: spawnWorkerFor_def Let_def Map_get_set distinct_Map_set)
qed

text \<open>
  The message a worker of depster.js sends when its bot has spawned names the final
  handle and the handle the worker was started with.
\<close>

lemma onSpawn_sends_handles:
  "map msg_payload (sent (onSpawn env b))
     = map msg_payload (sent b)
       @ [authenticated (username b) (Some (initialUsername env)), log_text ''Bot online.'',
          status_update ''Idle'']"
  by (simp add: onSpawn_def updateStatus_def log_line_def send_def)

lemma spawnAuthBot_spawns:
  "fst (spawnAuthBot n sv) = fst (spawnWorkerFor (''AuthBot-'' @ show_nat n) True sv)"
  by (simp add: spawnAuthBot_def Let_def)

text \<open>
  Claim C2. An authentication-flow unit is registered under its initial handle \<open>H\<close>, as
  the only entry of its worker. When the main thread receives its \<open>authenticated\<close>
  message with final handle \<open>F\<close> (the two handles differ), the map afterwards holds the
  same worker under \<open>F\<close>, with \<open>F\<close> recorded as its final name, and holds nothing under
  \<open>H\<close>. The handler runs to completion, so the maps that can be observed are the one
  before and the one after: each holds exactly one entry of the worker.
\<close>

theorem authenticated_rekeys_identity_map:
  assumes "distinct (map fst aw)"
      and "Map_get aw H = Some e"
      and "keysWhere (\<lambda>v. worker v = worker e) aw = [H]"
      and "F \<noteq> H"
  shows "Map_get (fst (onMessage H True \<lparr>msg_bot = n, msg_payload = authenticated F (Some H)\<rparr> aw)) F
           = Some \<lparr>worker = worker e, finalUsername = Some F\<rparr>
         \<and> Map_get (fst (onMessage H True \<lparr>msg_bot = n, msg_payload = authenticated F (Some H)\<rparr> aw)) H
           = None
         \<and> keysWhere (\<lambda>v. worker v = worker e)
              (fst (onMessage H True \<lparr>msg_bot = n, msg_payload = authenticated F (Some H)\<rparr> aw))
           = [F]
         \<and> distinct (map fst
              (fst (onMessage H True \<lparr>msg_bot = n, msg_payload = authenticated F (Some H)\<rparr> aw)))
         \<and> Emit (ev_bot_authenticated (Some H) F)
              \<in> set (snd (onMessage H True \<lparr>msg_bot = n, msg_payload = authenticated F (Some H)\<rparr> aw))"
proof -
  define e' where "e' = e\<lparr>finalUsername := Some F\<rparr>"
  define aw' where "aw' = Map_set (Map_delete aw H) F e'"
  have run: "onMessage H True \<lparr>msg_bot = n, msg_payload = authenticated F (Some H)\<rparr> aw
               = (aw', [Emit (ev_bot_authenticated (Some H) F),
                        ConsoleLog (''[main] Authed usrname: '' @ F),
                        ConsoleLog (''[main] txtfileusername: '' @ H)])"
    using assms(2)
    by (simp add: onMessage_def Let_def aw'_def e'_def Map_delete_set_same show_opt_def)
  have e'_eq: "e' = \<lparr>worker = worker e, finalUsername = Some F\<rparr>"
    by (simp add: e'_def)
  have gone: "keysWhere (\<lambda>v. worker v = worker e) (Map_delete aw H) = []"
    using assms(3) by (rule keysWhere_single_delete)
  have one: "keysWhere (\<lambda>v. worker v = worker e) aw' = [F]"
    unfolding aw'_def by (rule keysWhere_set_new[OF gone]) (simp add: e'_def)
  have lookF: "Map_get aw' F = Some e'"
    by (simp add: aw'_def Map_get_set)
  have lookH: "Map_get aw' H = None"
    using assms(4) by (simp add: aw'_def Map_get_set Map_get_delete)
  have keys: "distinct (map fst aw')"
    unfolding aw'_def by (intro distinct_Map_set distinct_Map_delete assms(1))
  show ?thesis
    using one lookF lookH keys by (simp add: run e'_eq)
qed

theorem authenticated_rekeys_identity_map_witness:
  "distinct (map fst [(''Steve'', \<lparr>worker = 0, finalUsername = Some ''Steve''\<rparr>),
                      (''AuthBot-7'', \<lparr>worker = 1, finalUsername = None\<rparr>)])
   \<and> Map_get [(''Steve'', \<lparr>worker = 0, finalUsername = Some ''Steve''\<rparr>),
               (''AuthBot-7'', \<lparr>worker = 1, finalUsername = None\<rparr>)] ''AuthBot-7''
       = Some \<lparr>worker = 1, finalUsername = None\<rparr>
   \<and> keysWhere (\<lambda>v. worker v = 1)
        [(''Steve'', \<lparr>worker = 0, finalUsername = Some ''Steve''\<rparr>),
         (''AuthBot-7'', \<lparr>worker = 1, finalUsername = None\<rparr>)] = [''AuthBot-7'']
   \<and> ''Alex'' \<noteq> ''AuthBot-7''
   \<and> fst (onMessage ''AuthBot-7'' True
             \<lparr>msg_bot = ''Alex'', msg_payload = authenticated ''Alex'' (Some ''AuthBot-7'')\<rparr>
             [(''Steve'', \<lparr>worker = 0, finalUsername = Some ''Steve''\<rparr>),
              (''AuthBot-7'', \<lparr>worker = 1, finalUsername = None\<rparr>)])
       = [(''Steve'', \<lparr>worker = 0, finalUsername = Some ''Steve''\<rparr>),
          (''Alex'', \<lparr>worker = 1, finalUsername = Some ''Alex''\<rparr>)]
   \<and> Map_get (fst (onMessage ''AuthBot-7'' True
             \<lparr>msg_bot = ''Alex'', msg_payload = authenticated ''Alex'' (Some ''AuthBot-7'')\<rparr>
             [(''Steve'', \<lparr>worker = 0, finalUsername = Some ''Steve''\<rparr>),
              (''AuthBot-7'', \<lparr>worker = 1, finalUsername = None\<rparr>)])) ''AuthBot-7'' = None"
proof -
  let ?aw = "[(''Steve'', \<lparr>worker = 0, finalUsername = Some ''Steve''\<rparr>),
              (''AuthBot-7'', \<lparr>worker = 1::nat, finalUsername = None\<rparr>)]"
  have h1: "distinct (map fst ?aw)" by simp
  have h2: "Map_get ?aw ''AuthBot-7'' = Some \<lparr>worker = 1, finalUsername = None\<rparr>"
    by (simp add: Map_get_def)
  have h3: "keysWhere (\<lambda>v. worker v = worker \<lparr>worker = 1::nat, finalUsername = None\<rparr>) ?aw
              = [''AuthBot-7'']"
    by (simp add: keysWhere_def)
  have h4: "''Alex'' \<noteq> ''AuthBot-7''" by simp
  have run: "fst (onMessage ''AuthBot-7'' True
             \<lparr>msg_bot = ''Alex'', msg_payload = authenticated ''Alex'' (Some ''AuthBot-7'')\<rparr> ?aw)
       = [(''Steve'', \<lparr>worker = 0, finalUsername = Some ''Steve''\<rparr>),
          (''Alex'', \<lparr>worker = 1, finalUsername = Some ''Alex''\<rparr>)]"
    by (simp add: onMessage_def Map_get_def Map_delete_def Let_def)
  from authenticated_rekeys_identity_map[OF h1 h2 h3 h4, of "''Alex''"] h1 h2 h3 h4 run
  show ?thesis by (simp add: keysWhere_def)
qed

text \<open>
  The earlier revision re-keys on every \<open>authenticated\<close> message whose final handle differs
  from the handle the worker was spawned with (only authentication-flow workers send one).
\<close>

lemma authenticated_rekeys_identity_map_v1:
  assumes "distinct (map fst aw)"
      and "Map_get aw H = Some w"
      and "keysWhere (\<lambda>v. v = w) aw = [H]"
      and "F \<noteq> H"
  shows "Map_get (fst (onMessage_v1 H isAuth \<lparr>msg_bot = n, msg_payload = authenticated F ini\<rparr> aw)) F
           = Some w
         \<and> Map_get (fst (onMessage_v1 H isAuth \<lparr>msg_bot = n, msg_payload = authenticated F ini\<rparr> aw)) H
           = None
         \<and> keysWhere (\<lambda>v. v = w)
              (fst (onMessage_v1 H isAuth \<lparr>msg_bot = n, msg_payload = authenticated F ini\<rparr> aw))
           = [F]
         \<and> distinct (map fst
              (fst (onMessage_v1 H isAuth \<lparr>msg_bot = n, msg_payload = authenticated F ini\<rparr> aw)))"
proof -
  define aw' where "aw' = Map_set (Map_delete aw H) F w"
  have run: "fst (onMessage_v1 H isAuth \<lparr>msg_bot = n, msg_payload = authenticated F ini\<rparr> aw) = aw'"
    using assms(2,4) by (simp add: onMessage_v1_def Let_def aw'_def Map_has_def Map_get_def)
  have gone: "keysWhere (\<lambda>v. v = w) (Map_delete aw H) = []"
    using assms(3) by (rule keysWhere_single_delete)
  have one: "keysWhere (\<lambda>v. v = w) aw' = [F]"
    unfolding aw'_def by (rule keysWhere_set_new[OF gone]) simp
  have keys: "distinct (map fst aw')"
    unfolding aw'_def by (intro distinct_Map_set distinct_Map_delete assms(1))
  show ?thesis
    using one keys assms(4) by (simp add: run) (simp add: aw'_def Map_get_set Map_get_delete)
qed

text \<open>
  When the final handle equals the initial one, the entry stays under that key in either
  revision (depster.js deletes it and sets it again, the earlier revision leaves the map
  alone), and in depster.js a worker that is not an authentication-flow worker keeps
  its key on every message.
\<close>

lemma authenticated_same_handle:
  assumes "Map_get aw H = Some e"
  shows "Map_get (fst (onMessage H True \<lparr>msg_bot = n, msg_payload = authenticated H (Some H)\<rparr> aw)) H
           = Some \<lparr>worker = worker e, finalUsername = Some H\<rparr>"
    and "fst (onMessage_v1 H isAuth \<lparr>msg_bot = n, msg_payload = authenticated H ini\<rparr> aw1) = aw1"
  using assms by (simp_all add: onMessage_def onMessage_v1_def Let_def Map_get_set)

lemma onMessage_keeps_keys:
  "map fst (fst (onMessage u False msg aw)) = map fst aw"
proof (cases "msg_payload msg")
  case (authenticated F ini)
  then show ?thesis
    by (auto simp: onMessage_def Let_def keys_Map_set_present split: option.splits)
qed (simp_all add: onMessage_def Let_def split: option.splits)

section \<open>Broadcast of commands\<close>

lemma posted_Cons_ConsoleLog: "posted (ConsoleLog s # effs) = posted effs"
  by (simp add: posted_def List.map_filter_simps)

lemma posted_map_PostMessage: "posted (map (\<lambda>x. PostMessage (f x) (g x)) xs) = map (\<lambda>x. (f x, g x)) xs"
  by (induction xs) (simp_all add: posted_def List.map_filter_simps)

lemma sweepAngle_eq: "sweepAngle i n = 2 * pi * real i / real n"
  by (simp add: sweepAngle_def)

lemma map_enumerate_nth:
  "map (\<lambda>(i, x). f i x) (enumerate 0 xs) = map (\<lambda>i. f i (xs ! i)) [0..<length xs]"
  by (rule nth_equalityI) (simp_all add: nth_enumerate_eq)

lemma sweep_angles_inj: "inj_on (\<lambda>i. 2 * pi * real i / real n) {0..<n}"
proof (rule inj_onI)
  fix i j
  assume i: "i \<in> {0..<n}" and "2 * pi * real i / real n = 2 * pi * real j / real n"
  moreover from i have "real n \<noteq> 0" by auto
  ultimately show "i = j" by simp
qed

lemma sendCommand_clearmap:
  assumes "m_command d = Some ''clearmap''"
  shows "posted (sendCommand (Some d) aw)
           = map (\<lambda>i. (worker (snd (aw ! i)),
                        clearmapMessage (2 * pi * real i / real (length aw)))) [0..<length aw]"
proof -
  have "posted (sendCommand (Some d) aw)
          = map (\<lambda>(i, w). (w, clearmapMessage (sweepAngle i (length aw))))
              (enumerate 0 (map worker (Map_values aw)))"
    using assms posted_map_PostMessage[of fst "\<lambda>p. clearmapMessage (sweepAngle (snd p) (length aw))"
        "map (\<lambda>(i, w). (w, i)) (enumerate 0 (map worker (Map_values aw)))"]
    by (simp add: sendCommand_def sendCommandTo_def posted_Cons_ConsoleLog Map_values_def
        case_prod_unfold comp_def)
  also have "\<dots> = map (\<lambda>i. (map worker (Map_values aw) ! i,
                               clearmapMessage (sweepAngle i (length aw))))
                      [0..<length (map worker (Map_values aw))]"
    by (rule map_enumerate_nth)
  also have "\<dots> = map (\<lambda>i. (worker (snd (aw ! i)),
                               clearmapMessage (2 * pi * real i / real (length aw)))) [0..<length aw]"
    by (simp add: Map_values_def sweepAngle_eq)
  finally show ?thesis .
qed

lemma sendCommand_other:
  assumes "m_command d = Some c" and "c \<noteq> []" and "c \<noteq> ''clearmap''"
  shows "posted (sendCommand (Some d) aw) = map (\<lambda>e. (worker (snd e), spreadCommand d)) aw"
  using assms posted_map_PostMessage[of "\<lambda>e. worker (snd e)" "\<lambda>e. spreadCommand d" aw]
  by (simp add: sendCommand_def sendCommandTo_def posted_Cons_ConsoleLog Map_values_def comp_def)

lemma filter_map_upt_single:
  assumes "i < n" and "inj_on f {0..<n}"
  shows "filter (\<lambda>p. fst p = f i) (map (\<lambda>j. (f j, g j)) [0..<n]) = [(f i, g i)]"
proof -
  have "filter (\<lambda>p. fst p = f i) (map (\<lambda>j. (f j, g j)) [0..<n])
          = map (\<lambda>j. (f j, g j)) (filter (\<lambda>j. j = i) [0..<n])"
    using assms by (auto simp: filter_map comp_def inj_on_def intro!: arg_cong[where f="map _"] filter_cong)
  also have "filter (\<lambda>j. j = i) [0..<n] = [i]"
    using assms(1) by (induction n) auto
  finally show ?thesis by simp
qed

text \<open>
  Claim C3. A sweep command over the \<open>N\<close> live units posts to unit \<open>i\<close> (in the order of
  the map) the message \<open>{ type: 'command', command: 'clearmap', angle: 2\<pi>i/N }\<close>, and
  nothing else to anyone: the angles carried by the messages posted are, in order,
  \<open>2\<pi>i/N\<close> for \<open>i = 0..N-1\<close>, they are pairwise distinct, and as a set they are
  \<open>{2\<pi>i/N : i = 0..N-1}\<close>; when the workers of the map are distinct, the messages to
  unit \<open>i\<close> are that one message. Every other command that has a name posts to every
  unit the data it came with, with the type \<open>command\<close> unless the data has a type of
  its own.
\<close>

theorem sweep_assigns_each_unit_its_angle:
  "(m_command d = Some ''clearmap'' \<longrightarrow>
      posted (sendCommand (Some d) aw)
        = map (\<lambda>i. (worker (snd (aw ! i)),
                     \<lparr>m_type = Some ''command'', m_command = Some ''clearmap'',
                      m_target = None,
                      m_angle = Some (2 * pi * real i / real (length aw)),
                      m_message = None\<rparr>)) [0..<length aw]
      \<and> map (\<lambda>p. m_angle (snd p)) (posted (sendCommand (Some d) aw))
        = map (\<lambda>i. Some (2 * pi * real i / real (length aw))) [0..<length aw]
      \<and> distinct (map (\<lambda>p. m_angle (snd p)) (posted (sendCommand (Some d) aw)))
      \<and> set (map (\<lambda>p. m_angle (snd p)) (posted (sendCommand (Some d) aw)))
        = (\<lambda>i. Some (2 * pi * real i / real (length aw))) ` {0..<length aw})
   \<and> (m_command d = Some ''clearmap'' \<and> distinct (map (\<lambda>e. worker (snd e)) aw)
        \<and> i < length aw \<longrightarrow>
      filter (\<lambda>p. fst p = worker (snd (aw ! i))) (posted (sendCommand (Some d) aw))
        = [(worker (snd (aw ! i)),
            \<lparr>m_type = Some ''command'', m_command = Some ''clearmap'', m_target = None,
             m_angle = Some (2 * pi * real i / real (length aw)), m_message = None\<rparr>)])
   \<and> (m_command d = Some c \<and> c \<noteq> [] \<and> c \<noteq> ''clearmap'' \<longrightarrow>
      posted (sendCommand (Some d) aw)
        = map (\<lambda>e. (worker (snd e),
                     d\<lparr>m_type := (case m_type d of None \<Rightarrow> Some ''command''
                                               | Some t \<Rightarrow> Some t)\<rparr>)) aw)"
proof (intro conjI impI)
  assume sweep: "m_command d = Some ''clearmap''"
  show all: "posted (sendCommand (Some d) aw)
        = map (\<lambda>i. (worker (snd (aw ! i)),
                     \<lparr>m_type = Some ''command'', m_command = Some ''clearmap'',
                      m_target = None,
                      m_angle = Some (2 * pi * real i / real (length aw)),
                      m_message = None\<rparr>)) [0..<length aw]"
    using sendCommand_clearmap[OF sweep, of aw] by (simp add: clearmapMessage_def)
  show angles: "map (\<lambda>p. m_angle (snd p)) (posted (sendCommand (Some d) aw))
        = map (\<lambda>i. Some (2 * pi * real i / real (length aw))) [0..<length aw]"
    unfolding all by (simp add: comp_def)
  have inj: "inj_on (\<lambda>i. Some (2 * pi * real i / real (length aw))) {0..<length aw}"
    using sweep_angles_inj[of "length aw"] by (simp add: inj_on_def)
  show "distinct (map (\<lambda>p. m_angle (snd p)) (posted (sendCommand (Some d) aw)))"
    unfolding angles using inj by (simp add: distinct_map)
  show "set (map (\<lambda>p. m_angle (snd p)) (posted (sendCommand (Some d) aw)))
        = (\<lambda>i. Some (2 * pi * real i / real (length aw))) ` {0..<length aw}"
    unfolding angles by simp
next
  assume a: "m_command d = Some ''clearmap'' \<and> distinct (map (\<lambda>e. worker (snd e)) aw)
             \<and> i < length aw"
  have inj: "inj_on (\<lambda>j. worker (snd (aw ! j))) {0..<length aw}"
  proof (rule inj_onI)
    fix x y
    assume "x \<in> {0..<length aw}" and "y \<in> {0..<length aw}"
      and "worker (snd (aw ! x)) = worker (snd (aw ! y))"
    with a show "x = y"
      using nth_eq_iff_index_eq[of "map (\<lambda>e. worker (snd e)) aw" x y] by simp
  qed
  from a show "filter (\<lambda>p. fst p = worker (snd (aw ! i))) (posted (sendCommand (Some d) aw))
        = [(worker (snd (aw ! i)),
            \<lparr>m_type = Some ''command'', m_command = Some ''clearmap'', m_target = None,
             m_angle = Some (2 * pi * real i / real (length aw)), m_message = None\<rparr>)]"
    using filter_map_upt_single[OF _ inj, of i
        "\<lambda>j. clearmapMessage (2 * pi * real j / real (length aw))"]
    by (simp add: sendCommand_clearmap clearmapMessage_def)
next
  assume "m_command d = Some c \<and> c \<noteq> [] \<and> c \<noteq> ''clearmap''"
  then show "posted (sendCommand (Some d) aw)
        = map (\<lambda>e. (worker (snd e),
                     d\<lparr>m_type := (case m_type d of None \<Rightarrow> Some ''command''
                                               | Some t \<Rightarrow> Some t)\<rparr>)) aw"
    by (simp add: sendCommand_other spreadCommand_def)
qed
theorem sweep_assigns_each_unit_its_angle_witness:
  "m_command \<lparr>m_type = None, m_command = Some ''clearmap'', m_target = None,
              m_angle = None, m_message = None\<rparr> = Some ''clearmap''
   \<and> distinct (map (\<lambda>e. worker (snd e))
        [(''Alice'', \<lparr>worker = 0, finalUsername = None\<rparr>),
         (''Carol'', \<lparr>worker = 1, finalUsername = None\<rparr>)])
   \<and> (1::nat) < length [(''Alice'', \<lparr>worker = 0, finalUsername = None\<rparr>),
                         (''Carol'', \<lparr>worker = 1, finalUsername = None\<rparr>)]
   \<and> posted (sendCommand
        (Some \<lparr>m_type = None, m_command = Some ''clearmap'', m_target = None,
               m_angle = None, m_message = None\<rparr>)
        [(''Alice'', \<lparr>worker = 0, finalUsername = None\<rparr>),
         (''Carol'', \<lparr>worker = 1, finalUsername = None\<rparr>)])
       = [(0, \<lparr>m_type = Some ''command'', m_command = Some ''clearmap'', m_target = None,
                m_angle = Some 0, m_message = None\<rparr>),
          (1, \<lparr>m_type = Some ''command'', m_command = Some ''clearmap'', m_target = None,
                m_angle = Some pi, m_message = None\<rparr>)]
   \<and> map (\<lambda>p. m_angle (snd p)) (posted (sendCommand
        (Some \<lparr>m_type = None, m_command = Some ''clearmap'', m_target = None,
               m_angle = None, m_message = None\<rparr>)
        [(''Alice'', \<lparr>worker = 0, finalUsername = None\<rparr>),
         (''Carol'', \<lparr>worker = 1, finalUsername = None\<rparr>)]))
       = [Some 0, Some pi]
   \<and> filter (\<lambda>p. fst p = 1) (posted (sendCommand
        (Some \<lparr>m_type = None, m_command = Some ''clearmap'', m_target = None,
               m_angle = None, m_message = None\<rparr>)
        [(''Alice'', \<lparr>worker = 0, finalUsername = None\<rparr>),
         (''Carol'', \<lparr>worker = 1, finalUsername = None\<rparr>)]))
       = [(1, \<lparr>m_type = Some ''command'', m_command = Some ''clearmap'', m_target = None,
                m_angle = Some pi, m_message = None\<rparr>)]
   \<and> m_command \<lparr>m_type = None, m_command = Some ''follow'', m_target = Some ''Bob'',
                m_angle = None, m_message = None\<rparr> = Some ''follow''
   \<and> ''follow'' \<noteq> [] \<and> ''follow'' \<noteq> ''clearmap''
   \<and> posted (sendCommand
        (Some \<lparr>m_type = None, m_command = Some ''follow'', m_target = Some ''Bob'',
               m_angle = None, m_message = None\<rparr>)
        [(''Alice'', \<lparr>worker = 0, finalUsername = None\<rparr>),
         (''Carol'', \<lparr>worker = 1, finalUsername = None\<rparr>)])
       = [(0, \<lparr>m_type = Some ''command'', m_command = Some ''follow'', m_target = Some ''Bob'',
                m_angle = None, m_message = None\<rparr>),
          (1, \<lparr>m_type = Some ''command'', m_command = Some ''follow'', m_target = Some ''Bob'',
                m_angle = None, m_message = None\<rparr>)]"
proof -
  let ?aw = "[(''Alice'', \<lparr>worker = 0::nat, finalUsername = None\<rparr>),
              (''Carol'', \<lparr>worker = 1, finalUsername = None\<rparr>)]"
  let ?sweep = "\<lparr>m_type = None, m_command = Some ''clearmap'', m_target = None,
                 m_angle = None, m_message = None\<rparr>"
  let ?follow = "\<lparr>m_type = None, m_command = Some ''follow'', m_target = Some ''Bob'',
                  m_angle = None, m_message = None\<rparr>"
  let ?at = "\<lambda>a. \<lparr>m_type = Some ''command'', m_command = Some ''clearmap'', m_target = None,
                   m_angle = Some a, m_message = None\<rparr>"
  have upt2: "[0..<2] = [0, Suc 0]" by (simp add: upt_rec)
  have sweep: "m_command ?sweep = Some ''clearmap''" by simp
  have workers: "distinct (map (\<lambda>e. worker (snd e)) ?aw)" by simp
  have follow: "m_command ?follow = Some ''follow'' \<and> ''follow'' \<noteq> [] \<and> ''follow'' \<noteq> ''clearmap''"
    by simp
  from sweep_assigns_each_unit_its_angle[of ?sweep ?aw 1 "''x''"] sweep workers
  have s: "posted (sendCommand (Some ?sweep) ?aw) = [(0, ?at 0), (1, ?at pi)]"
    and g: "map (\<lambda>p. m_angle (snd p)) (posted (sendCommand (Some ?sweep) ?aw)) = [Some 0, Some pi]"
    and f: "filter (\<lambda>p. fst p = 1) (posted (sendCommand (Some ?sweep) ?aw)) = [(1, ?at pi)]"
    by (simp_all add: upt2)
  from sweep_assigns_each_unit_its_angle[of ?follow ?aw 0 "''follow''"] follow
  have o: "posted (sendCommand (Some ?follow) ?aw)
             = [(0, ?follow\<lparr>m_type := Some ''command''\<rparr>),
                (1, ?follow\<lparr>m_type := Some ''command''\<rparr>)]"
    by simp
  show ?thesis
    using s g f o by simp
qed

lemma sendCommand_v1_same: "sendCommand_v1 data (map (\<lambda>e. (fst e, worker (snd e))) aw) = sendCommand data aw"
  by (simp add: sendCommand_v1_def sendCommand_def Map_values_def comp_def)

lemma sendCommand_unnamed:
  "sendCommand None aw = []"
  "m_command d = None \<Longrightarrow> sendCommand (Some d) aw = []"
  "m_command d = Some [] \<Longrightarrow> sendCommand (Some d) aw = []"
  by (simp_all add: sendCommand_def sendCommandTo_def)

section \<open>Exit of a worker\<close>

lemma emitted_simps:
  "emitted [] = []"
  "emitted (Emit ev # effs) = ev # emitted effs"
  "emitted (ConsoleLog s # effs) = emitted effs"
  "emitted (SetTimeout t ms # effs) = emitted effs"
  by (simp_all add: emitted_def List.map_filter_simps)

lemma timers_simps:
  "timers [] = []"
  "timers (Emit ev # effs) = timers effs"
  "timers (ConsoleLog s # effs) = timers effs"
  "timers (SetTimeout t ms # effs) = (t, ms) # timers effs"
  by (simp_all add: timers_def List.map_filter_simps)

text \<open>A worker without an entry leaves no trace when it exits.\<close>

lemma exit_without_entry:
  "keysWhere (\<lambda>v. worker v = w) aw = [] \<Longrightarrow> onExit u isAuth w code aw = (aw, [])"
proof -
  assume "keysWhere (\<lambda>v. worker v = w) aw = []"
  then have "find (\<lambda>e. worker (snd e) = w) aw = None"
    by (auto simp: keysWhere_empty_iff find_None_iff)
  then show ?thesis by (simp add: onExit_def)
qed

lemma exit_without_entry_v1:
  "keysWhere (\<lambda>v. v = w) aw = [] \<Longrightarrow> onExit_v1 u isAuth w code aw = (aw, [])"
proof -
  assume "keysWhere (\<lambda>v. v = w) aw = []"
  then have "find (\<lambda>e. snd e = w) aw = None"
    by (auto simp: keysWhere_empty_iff find_None_iff)
  then show ?thesis by (simp add: onExit_v1_def)
qed

lemma started_simps:
  "started [] = []"
  "started (StartWorker w n a # effs) = (w, n, a) # started effs"
  "started (ConsoleLog s # effs) = started effs"
  "started (Emit ev # effs) = started effs"
  by (simp_all add: started_def List.map_filter_simps)

text \<open>
  The timer, when it fires, spawns a worker for the key that is not an
  authentication-flow worker, unless the key is taken again by then.
\<close>

lemma runTimer_respawns:
  "\<not> Map_has (activeWorkers sv) k \<Longrightarrow>
   StartWorker (nextWorker sv) k False \<in> set (snd (runTimer (Respawn k) sv))"
  by (simp add: runTimer_def spawnWorkerFor_def Let_def)

lemma runTimer_free:
  assumes "\<not> Map_has (activeWorkers sv) k"
  shows "started (snd (runTimer (Respawn k) sv)) = [(nextWorker sv, k, False)]"
    and "activeWorkers (fst (runTimer (Respawn k) sv))
           = Map_set (activeWorkers sv) k \<lparr>worker = nextWorker sv, finalUsername = None\<rparr>"
    and "nextWorker (fst (runTimer (Respawn k) sv)) = Suc (nextWorker sv)"
  using assms by (simp_all add: runTimer_def spawnWorkerFor_def Let_def started_simps)

lemma runTimer_taken:
  assumes "Map_has (activeWorkers sv) k"
  shows "started (snd (runTimer (Respawn k) sv)) = []"
    and "fst (runTimer (Respawn k) sv) = sv"
  using assms by (simp_all add: runTimer_def spawnWorkerFor_def Let_def started_simps)

text \<open>
  Claim C8. When a worker that has an entry in the map (under a key that is not empty, as
  the only entry of that worker) exits, the handler removes the entry, emits
  \<open>bot-offline\<close> with the final name when one is recorded and with the key otherwise, and
  schedules one respawn of the key after 5000 milliseconds exactly when the exit code
  is not 0 and the worker is not an authentication-flow worker; otherwise it schedules
  nothing. When the timer fires, the task starts one worker under that key, not an
  authentication-flow worker, and gives it a fresh entry without final name, unless the
  key is taken again by then: then it starts nothing and the map stays as it is. A
  worker that is in no entry of the map exits without any effect: the map is unchanged,
  nothing is emitted and nothing is scheduled. For a worker that is not an
  authentication-flow worker the key is the handle it was spawned with
  (\<open>onMessage_keeps_keys\<close>).
\<close>

theorem exit_removes_entry_and_respawns:
  assumes "distinct (map fst aw)"
  shows "(Map_get aw key = Some info \<and> keysWhere (\<lambda>v. worker v = w) aw = [key] \<and> key \<noteq> [] \<longrightarrow>
            Map_get (fst (onExit u isAuth w code aw)) key = None
          \<and> keysWhere (\<lambda>v. worker v = w) (fst (onExit u isAuth w code aw)) = []
          \<and> fst (onExit u isAuth w code aw) = Map_delete aw key
          \<and> emitted (snd (onExit u isAuth w code aw))
              = [ev_bot_offline (case finalUsername info of
                                   None \<Rightarrow> key
                                 | Some f \<Rightarrow> if f = [] then key else f)]
          \<and> timers (snd (onExit u isAuth w code aw))
              = (if code \<noteq> 0 \<and> \<not> isAuth then [(Respawn key, 5000)] else [])
          \<and> started (snd (onExit u isAuth w code aw)) = [])
         \<and> (\<not> Map_has (activeWorkers sv) key \<longrightarrow>
              started (snd (runTimer (Respawn key) sv)) = [(nextWorker sv, key, False)]
            \<and> activeWorkers (fst (runTimer (Respawn key) sv))
                = Map_set (activeWorkers sv) key
                    \<lparr>worker = nextWorker sv, finalUsername = None\<rparr>
            \<and> nextWorker (fst (runTimer (Respawn key) sv)) = Suc (nextWorker sv))
         \<and> (Map_has (activeWorkers sv) key \<longrightarrow>
              started (snd (runTimer (Respawn key) sv)) = []
            \<and> fst (runTimer (Respawn key) sv) = sv)
         \<and> (keysWhere (\<lambda>v. worker v = w) aw = [] \<longrightarrow>
              onExit u isAuth w code aw = (aw, []))"
proof (intro conjI impI)
  assume h: "Map_get aw key = Some info \<and> keysWhere (\<lambda>v. worker v = w) aw = [key] \<and> key \<noteq> []"
  then have got: "Map_get aw key = Some info"
    and only: "keysWhere (\<lambda>v. worker v = w) aw = [key]" and named: "key \<noteq> []"
    by simp_all
  have found: "find (\<lambda>e. worker (snd e) = w) aw = Some (key, info)"
    using find_Some_keysWhere[OF assms only got] .
  have gone: "keysWhere (\<lambda>v. worker v = w) (Map_delete aw key) = []"
    using only by (rule keysWhere_single_delete)
  have run: "onExit u isAuth w code aw
      = (Map_delete aw key,
         [Emit (ev_bot_offline (or_else (finalUsername info) key)),
          ConsoleLog (''[main] Worker for '' @ or_else (finalUsername info) key @ '' (initial: ''
                      @ key @ '') exited with code '' @ show_int code @ ''.'')]
         @ (if code \<noteq> 0 \<and> \<not> isAuth then [SetTimeout (Respawn key) 5000] else []))"
    using named by (simp add: onExit_def found Let_def)
  show "Map_get (fst (onExit u isAuth w code aw)) key = None"
    by (simp add: run Map_get_delete)
  show "keysWhere (\<lambda>v. worker v = w) (fst (onExit u isAuth w code aw)) = []"
    by (simp add: run gone)
  show "fst (onExit u isAuth w code aw) = Map_delete aw key"
    by (simp add: run)
  show "emitted (snd (onExit u isAuth w code aw))
              = [ev_bot_offline (case finalUsername info of
                                   None \<Rightarrow> key
                                 | Some f \<Rightarrow> if f = [] then key else f)]"
    by (simp add: run emitted_simps or_else_def)
  show "timers (snd (onExit u isAuth w code aw))
              = (if code \<noteq> 0 \<and> \<not> isAuth then [(Respawn key, 5000)] else [])"
    by (simp add: run timers_simps)
  show "started (snd (onExit u isAuth w code aw)) = []"
    by (simp add: run started_def List.map_filter_simps)
next
  assume free: "\<not> Map_has (activeWorkers sv) key"
  show "started (snd (runTimer (Respawn key) sv)) = [(nextWorker sv, key, False)]"
    using free by (rule runTimer_free)
  show "activeWorkers (fst (runTimer (Respawn key) sv))
          = Map_set (activeWorkers sv) key \<lparr>worker = nextWorker sv, finalUsername = None\<rparr>"
    using free by (rule runTimer_free)
  show "nextWorker (fst (runTimer (Respawn key) sv)) = Suc (nextWorker sv)"
    using free by (rule runTimer_free)
next
  assume taken: "Map_has (activeWorkers sv) key"
  show "started (snd (runTimer (Respawn key) sv)) = []"
    using taken by (rule runTimer_taken)
  show "fst (runTimer (Respawn key) sv) = sv"
    using taken by (rule runTimer_taken)
next
  assume "keysWhere (\<lambda>v. worker v = w) aw = []"
  then show "onExit u isAuth w code aw = (aw, [])"
    by (rule exit_without_entry)
qed

theorem exit_removes_entry_and_respawns_witness:
  "distinct (map fst [(''Steve'', \<lparr>worker = 0, finalUsername = Some ''Steve''\<rparr>),
                      (''Alex'', \<lparr>worker = 1, finalUsername = Some ''Alex''\<rparr>)])
   \<and> Map_get [(''Steve'', \<lparr>worker = 0, finalUsername = Some ''Steve''\<rparr>),
               (''Alex'', \<lparr>worker = 1, finalUsername = Some ''Alex''\<rparr>)] ''Steve''
       = Some \<lparr>worker = 0, finalUsername = Some ''Steve''\<rparr>
   \<and> keysWhere (\<lambda>v. worker v = 0)
        [(''Steve'', \<lparr>worker = 0, finalUsername = Some ''Steve''\<rparr>),
         (''Alex'', \<lparr>worker = 1, finalUsername = Some ''Alex''\<rparr>)] = [''Steve'']
   \<and> ''Steve'' \<noteq> []
   \<and> fst (onExit ''Steve'' False 0 1
        [(''Steve'', \<lparr>worker = 0, finalUsername = Some ''Steve''\<rparr>),
         (''Alex'', \<lparr>worker = 1, finalUsername = Some ''Alex''\<rparr>)])
       = [(''Alex'', \<lparr>worker = 1, finalUsername = Some ''Alex''\<rparr>)]
   \<and> emitted (snd (onExit ''Steve'' False 0 1
        [(''Steve'', \<lparr>worker = 0, finalUsername = Some ''Steve''\<rparr>),
         (''Alex'', \<lparr>worker = 1, finalUsername = Some ''Alex''\<rparr>)]))
       = [ev_bot_offline ''Steve'']
   \<and> timers (snd (onExit ''Steve'' False 0 1
        [(''Steve'', \<lparr>worker = 0, finalUsername = Some ''Steve''\<rparr>),
         (''Alex'', \<lparr>worker = 1, finalUsername = Some ''Alex''\<rparr>)]))
       = [(Respawn ''Steve'', 5000)]
   \<and> \<not> Map_has [(''Alex'', \<lparr>worker = 1, finalUsername = Some ''Alex''\<rparr>)] ''Steve''
   \<and> started (snd (runTimer (Respawn ''Steve'')
        \<lparr>activeWorkers = [(''Alex'', \<lparr>worker = 1, finalUsername = Some ''Alex''\<rparr>)],
         nextWorker = 2\<rparr>))
       = [(2, ''Steve'', False)]
   \<and> activeWorkers (fst (runTimer (Respawn ''Steve'')
        \<lparr>activeWorkers = [(''Alex'', \<lparr>worker = 1, finalUsername = Some ''Alex''\<rparr>)],
         nextWorker = 2\<rparr>))
       = [(''Alex'', \<lparr>worker = 1, finalUsername = Some ''Alex''\<rparr>),
          (''Steve'', \<lparr>worker = 2, finalUsername = None\<rparr>)]
   \<and> Map_has [(''Alex'', \<lparr>worker = 1, finalUsername = Some ''Alex''\<rparr>)] ''Alex''
   \<and> started (snd (runTimer (Respawn ''Alex'')
        \<lparr>activeWorkers = [(''Alex'', \<lparr>worker = 1, finalUsername = Some ''Alex''\<rparr>)],
         nextWorker = 2\<rparr>))
       = []
   \<and> keysWhere (\<lambda>v. worker v = 5)
        [(''Steve'', \<lparr>worker = 0, finalUsername = Some ''Steve''\<rparr>),
         (''Alex'', \<lparr>worker = 1, finalUsername = Some ''Alex''\<rparr>)] = []
   \<and> onExit ''Eve'' False 5 1
        [(''Steve'', \<lparr>worker = 0, finalUsername = Some ''Steve''\<rparr>),
         (''Alex'', \<lparr>worker = 1, finalUsername = Some ''Alex''\<rparr>)]
       = ([(''Steve'', \<lparr>worker = 0, finalUsername = Some ''Steve''\<rparr>),
           (''Alex'', \<lparr>worker = 1, finalUsername = Some ''Alex''\<rparr>)], [])"
proof -
  let ?aw = "[(''Steve'', \<lparr>worker = 0::nat, finalUsername = Some ''Steve''\<rparr>),
              (''Alex'', \<lparr>worker = 1, finalUsername = Some ''Alex''\<rparr>)]"
  let ?sv = "\<lparr>activeWorkers = [(''Alex'', \<lparr>worker = 1::nat, finalUsername = Some ''Alex''\<rparr>)],
              nextWorker = 2\<rparr>"
  have h1: "distinct (map fst ?aw)" by simp
  have h2: "Map_get ?aw ''Steve'' = Some \<lparr>worker = 0, finalUsername = Some ''Steve''\<rparr>"
    by (simp add: Map_get_def)
  have h3: "keysWhere (\<lambda>v. worker v = 0) ?aw = [''Steve'']"
    by (simp add: keysWhere_def)
  have h4: "''Steve'' \<noteq> []" by simp
  have h5: "\<not> Map_has (activeWorkers ?sv) ''Steve''" by (simp add: Map_has_def)
  have h6: "Map_has (activeWorkers ?sv) ''Alex''" by (simp add: Map_has_def)
  have h7: "keysWhere (\<lambda>v. worker v = 5) ?aw = []" by (simp add: keysWhere_def)
  from exit_removes_entry_and_respawns[OF h1,
      where key = "''Steve''" and info = "\<lparr>worker = 0, finalUsername = Some ''Steve''\<rparr>"
        and w = 0 and u = "''Steve''" and isAuth = False and code = 1 and sv = ?sv]
    h2 h3 h4 h5
  have a: "fst (onExit ''Steve'' False 0 1 ?aw)
             = [(''Alex'', \<lparr>worker = 1, finalUsername = Some ''Alex''\<rparr>)]"
    and b: "emitted (snd (onExit ''Steve'' False 0 1 ?aw)) = [ev_bot_offline ''Steve'']"
    and c: "timers (snd (onExit ''Steve'' False 0 1 ?aw)) = [(Respawn ''Steve'', 5000)]"
    and d: "started (snd (runTimer (Respawn ''Steve'') ?sv)) = [(2, ''Steve'', False)]"
    and e: "activeWorkers (fst (runTimer (Respawn ''Steve'') ?sv))
              = [(''Alex'', \<lparr>worker = 1, finalUsername = Some ''Alex''\<rparr>),
                 (''Steve'', \<lparr>worker = 2, finalUsername = None\<rparr>)]"
    by (simp_all add: Map_delete_def)
  from exit_removes_entry_and_respawns[OF h1,
      where key = "''Alex''" and info = "\<lparr>worker = 1, finalUsername = Some ''Alex''\<rparr>"
        and w = 5 and u = "''Eve''" and isAuth = False and code = 1 and sv = ?sv]
    h6 h7
  have f: "started (snd (runTimer (Respawn ''Alex'') ?sv)) = []"
    and g: "onExit ''Eve'' False 5 1 ?aw = (?aw, [])"
    by simp_all
  from h1 h2 h3 h4 h5 h6 h7 a b c d e f g show ?thesis by simp
qed

text \<open>
  A worker whose entry was overwritten: in the run of \<open>overwrittenMap\<close> the map ends
  with the one entry of worker 1 under the key Steve. When worker 0, spawned for Steve
  and not an authentication-flow worker, exits with code 1, the handler finds no entry
  of it: the map is unchanged, no \<open>bot-offline\<close> is emitted and no respawn is scheduled.
\<close>

theorem exit_of_overwritten_worker_leaves_no_trace:
  "overwrittenMap = [(''Steve'', \<lparr>worker = 1, finalUsername = Some ''Steve''\<rparr>)]
   \<and> onExit ''Steve'' False 0 1 overwrittenMap = (overwrittenMap, [])
   \<and> emitted (snd (onExit ''Steve'' False 0 1 overwrittenMap)) = []
   \<and> timers (snd (onExit ''Steve'' False 0 1 overwrittenMap)) = []"
proof -
  have seven: "char_of (55::nat) = CHR ''7''" by code_simp
  have m: "overwrittenMap = [(''Steve'', \<lparr>worker = 1, finalUsername = Some ''Steve''\<rparr>)]"
    by (simp add: overwrittenMap_def spawnWorkerFor_def spawnAuthBot_def onMessage_def
        Map_has_def Map_get_def Map_delete_def or_else_def Let_def seven)
  have x: "onExit ''Steve'' False 0 1 overwrittenMap = (overwrittenMap, [])"
    unfolding m by (simp add: onExit_def)
  show ?thesis
    unfolding x using m by (simp add: emitted_simps timers_simps)
qed

text \<open>The earlier revision records no final name: the key itself is reported.\<close>

lemma exit_removes_entry_and_respawns_v1:
  assumes "distinct (map fst aw)"
      and "Map_get aw key = Some w"
      and "keysWhere (\<lambda>v. v = w) aw = [key]"
      and "key \<noteq> []"
  shows "fst (onExit_v1 u isAuth w code aw) = Map_delete aw key
         \<and> keysWhere (\<lambda>v. v = w) (fst (onExit_v1 u isAuth w code aw)) = []
         \<and> emitted (snd (onExit_v1 u isAuth w code aw)) = [ev_bot_offline key]
         \<and> timers (snd (onExit_v1 u isAuth w code aw))
             = (if code \<noteq> 0 \<and> \<not> isAuth then [(Respawn key, 5000)] else [])"
proof -
  have found: "find (\<lambda>e. snd e = w) aw = Some (key, w)"
    using find_Some_keysWhere[OF assms(1) assms(3) assms(2)] .
  have gone: "keysWhere (\<lambda>v. v = w) (Map_delete aw key) = []"
    using assms(3) by (rule keysWhere_single_delete)
  show ?thesis
    using assms(4) gone
    by (simp add: onExit_v1_def found emitted_simps timers_simps)
qed

section \<open>Commands that are rejected\<close>

lemmas worker_defs =
  send_def log_line_def err_def updateStatus_def setGoal_def pathfinder_stop_def act_def

lemma onCommand_rejects:
  assumes "m_command msg = Some c"
      and "c = ''follow'' \<or> c = ''grief'' \<or> c = ''trap''"
      and "m_target msg = None \<or> m_target msg = Some []
           \<or> (\<exists>n. m_target msg = Some n \<and> players b n = None)"
  shows "onCommand env msg b
           = (Returned,
              log_line env
                (case m_target msg of
                   None \<Rightarrow> ''Target player name is required.''
                 | Some n \<Rightarrow> if n = [] then ''Target player name is required.''
                             else ''Can'' @ quote @ ''t see target player '' @ n @ ''.'') b)"
proof -
  have c: "(c = ''follow'' \<or> c = ''grief'' \<or> c = ''trap'') = True"
    using assms(2) by simp
  from assms(3) show ?thesis
  proof (elim disjE exE conjE)
    assume "m_target msg = None"
    then show ?thesis by (simp add: onCommand_def assms(1) c)
  next
    assume "m_target msg = Some []"
    then show ?thesis by (simp add: onCommand_def assms(1) c)
  next
    fix n
    assume "m_target msg = Some n" and "players b n = None"
    then show ?thesis by (simp add: onCommand_def assms(1) c)
  qed
qed

lemma onCommand_v1_rejects:
  assumes "m_command msg = Some c"
      and "c = ''follow'' \<or> c = ''grief'' \<or> c = ''trap''"
      and "m_target msg = None \<or> m_target msg = Some []
           \<or> (\<exists>n. m_target msg = Some n \<and> players b n = None)"
  shows "onCommand_v1 env msg b
           = (Returned,
              log_line env
                (case m_target msg of
                   None \<Rightarrow> ''Target player name is required.''
                 | Some n \<Rightarrow> if n = [] then ''Target player name is required.''
                             else ''Can'' @ quote @ ''t see target player '' @ n @ ''.'') b)"
proof -
  have c: "(c = ''follow'' \<or> c = ''grief'' \<or> c = ''trap'') = True"
    using assms(2) by simp
  from assms(3) show ?thesis
  proof (elim disjE exE conjE)
    assume "m_target msg = None"
    then show ?thesis by (simp add: onCommand_v1_def assms(1) c)
  next
    assume "m_target msg = Some []"
    then show ?thesis by (simp add: onCommand_v1_def assms(1) c)
  next
    fix n
    assume "m_target msg = Some n" and "players b n = None"
    then show ?thesis by (simp add: onCommand_v1_def assms(1) c)
  qed
qed

lemma capitalized_commands:
  "capitalized ''follow'' = ''Follow''"
  "capitalized ''grief'' = ''Grief''"
  "capitalized ''trap'' = ''Trap''"
  by code_simp+

text \<open>
  Claim C7. A \<open>follow\<close>, \<open>grief\<close> or \<open>trap\<close> command whose target is missing (absent or the
  empty string) or has no entry in \<open>bot.players\<close> (what the handler tests before it logs
  that it cannot see the player) returns after one log line, which says that a target
  is required or that the bot cannot see the player named: the bot afterwards is the bot
  before with that one message added to what it has sent, so the mode, the target, the
  building guard, the goal of the pathfinder, the sprint and the remote actions are as
  they were. A worker whose bot is not live yet drops the command without a log line.
\<close>

theorem rejected_command_leaves_state_unchanged:
  assumes "m_type msg = Some ''command''"
      and "m_command msg = Some c"
      and "c = ''follow'' \<or> c = ''grief'' \<or> c = ''trap''"
      and "m_target msg = None \<or> m_target msg = Some []
           \<or> (\<exists>n. m_target msg = Some n \<and> players b n = None)"
  shows "onParentMessage env msg (Some b)
            = (Returned,
               Some (b\<lparr>sent := sent b
                          @ [\<lparr>msg_bot = or_else (Some (username b)) (initialUsername env),
                              msg_payload =
                                log_text
                                  (case m_target msg of
                                     None \<Rightarrow> ''Target player name is required.''
                                   | Some n \<Rightarrow>
                                       if n = [] then ''Target player name is required.''
                                       else ''Can'' @ quote @ ''t see target player '' @ n
                                            @ ''.'')\<rparr>]\<rparr>))
         \<and> (\<exists>b'. onParentMessage env msg (Some b) = (Returned, Some b')
               \<and> mode (state b') = mode (state b) \<and> target (state b') = target (state b)
               \<and> isTrapping (state b') = isTrapping (state b) \<and> state b' = state b
               \<and> pathGoal b' = pathGoal b \<and> sprint b' = sprint b \<and> acted b' = acted b
               \<and> length (sent b') = Suc (length (sent b)))
         \<and> onParentMessage env msg None = (Returned, None)"
proof -
  let ?ln = "case m_target msg of
               None \<Rightarrow> ''Target player name is required.''
             | Some n \<Rightarrow> if n = [] then ''Target player name is required.''
                         else ''Can'' @ quote @ ''t see target player '' @ n @ ''.''"
  have run: "onCommand env msg b = (Returned, log_line env ?ln b)"
    using onCommand_rejects[OF assms(2,3,4)] .
  have whole: "onParentMessage env msg (Some b) = (Returned, Some (log_line env ?ln b))"
    using assms(1) run by (simp add: onParentMessage_def)
  have first: "onParentMessage env msg (Some b)
            = (Returned,
               Some (b\<lparr>sent := sent b
                          @ [\<lparr>msg_bot = or_else (Some (username b)) (initialUsername env),
                              msg_payload = log_text ?ln\<rparr>]\<rparr>))"
    by (simp add: whole worker_defs)
  have second: "\<exists>b'. onParentMessage env msg (Some b) = (Returned, Some b')
               \<and> mode (state b') = mode (state b) \<and> target (state b') = target (state b)
               \<and> isTrapping (state b') = isTrapping (state b) \<and> state b' = state b
               \<and> pathGoal b' = pathGoal b \<and> sprint b' = sprint b \<and> acted b' = acted b
               \<and> length (sent b') = Suc (length (sent b))"
    by (rule exI[of _ "log_line env ?ln b"]) (simp add: whole worker_defs)
  have third: "onParentMessage env msg None = (Returned, None)"
    by (simp add: onParentMessage_def)
  from first second third show ?thesis by (intro conjI)
qed

lemma exampleBot_fields:
  "username exampleBot = ''Alice''"
  "entity exampleBot = Entity 1 (Vec3 0 0 0)"
  "players exampleBot = (\<lambda>n. if n = ''Bob'' then Some (Player (Some (Entity 2 (Vec3 2 0 0))))
                                else None)"
  "state exampleBot = \<lparr>target = None, mode = None, lastDig = 0, clearMapAngle = Some 0,
                         isTrapping = False\<rparr>"
  "sprint exampleBot = False" "pathGoal exampleBot = None" "moving exampleBot = False"
  "blocks exampleBot = exampleWorld" "inventory exampleBot = [Item 9 64]"
  "creative exampleBot = False" "sent exampleBot = []" "acted exampleBot = []"
  by (simp_all add: exampleBot_def initialState_def)

lemma exampleEnv_fields:
  "initialUsername exampleEnv = ''Alice''" "isAuthWorker exampleEnv = False"
  "cfg exampleEnv = sharedConfig_v1\<lparr>scanRadius := 1\<rparr>"
  "blocksByName exampleEnv = (\<lambda>n. if n = ''bedrock'' then Some 7
                                     else if n = ''dirt'' then Some 9
                                     else if n = ''stone'' then Some 1 else None)"
  "itemsByName exampleEnv = (\<lambda>n. if n = ''dirt'' then Some 9 else None)"
  "stackFrames exampleEnv = (\<lambda>e. [])"
  by (simp_all add: exampleEnv_def)

theorem rejected_command_leaves_state_unchanged_witness:
  "m_type \<lparr>m_type = Some ''command'', m_command = Some ''follow'', m_target = Some ''Carol'',
           m_angle = None, m_message = None\<rparr> = Some ''command''
   \<and> m_command \<lparr>m_type = Some ''command'', m_command = Some ''follow'',
                m_target = Some ''Carol'', m_angle = None, m_message = None\<rparr> = Some ''follow''
   \<and> players exampleBot ''Carol'' = None
   \<and> onParentMessage exampleEnv
        \<lparr>m_type = Some ''command'', m_command = Some ''follow'', m_target = Some ''Carol'',
         m_angle = None, m_message = None\<rparr> (Some exampleBot)
       = (Returned,
          Some (exampleBot\<lparr>sent :=
                  [\<lparr>msg_bot = ''Alice'',
                    msg_payload = log_text (''Can'' @ quote @ ''t see target player Carol.'')\<rparr>]\<rparr>))
   \<and> (\<exists>b'. onParentMessage exampleEnv
              \<lparr>m_type = Some ''command'', m_command = Some ''follow'', m_target = Some ''Carol'',
               m_angle = None, m_message = None\<rparr> (Some exampleBot) = (Returned, Some b')
          \<and> mode (state b') = mode (state exampleBot)
          \<and> target (state b') = target (state exampleBot)
          \<and> isTrapping (state b') = isTrapping (state exampleBot)
          \<and> state b' = state exampleBot
          \<and> pathGoal b' = pathGoal exampleBot \<and> sprint b' = sprint exampleBot
          \<and> acted b' = acted exampleBot
          \<and> length (sent b') = Suc (length (sent exampleBot)))"
proof -
  let ?msg = "\<lparr>m_type = Some ''command'', m_command = Some ''follow'', m_target = Some ''Carol'',
               m_angle = None, m_message = None\<rparr>"
  have h1: "m_type ?msg = Some ''command''" by simp
  have h2: "m_command ?msg = Some ''follow''" by simp
  have h3: "''follow'' = ''follow'' \<or> ''follow'' = ''grief'' \<or> ''follow'' = ''trap''" by simp
  have unseen: "players exampleBot ''Carol'' = None" by (simp add: exampleBot_fields)
  then have h4: "m_target ?msg = None \<or> m_target ?msg = Some []
                 \<or> (\<exists>n. m_target ?msg = Some n \<and> players exampleBot n = None)"
    by simp
  have run: "onParentMessage exampleEnv ?msg (Some exampleBot)
       = (Returned,
          Some (exampleBot\<lparr>sent :=
                  [\<lparr>msg_bot = ''Alice'',
                    msg_payload = log_text (''Can'' @ quote @ ''t see target player Carol.'')\<rparr>]\<rparr>))"
    by (simp add: onParentMessage_def onCommand_def unseen worker_defs or_else_def
        exampleBot_fields(1,11))
  note inst = rejected_command_leaves_state_unchanged[OF h1 h2 h3 h4, of exampleEnv]
  from inst have kept: "\<exists>b'. onParentMessage exampleEnv ?msg (Some exampleBot) = (Returned, Some b')
          \<and> mode (state b') = mode (state exampleBot)
          \<and> target (state b') = target (state exampleBot)
          \<and> isTrapping (state b') = isTrapping (state exampleBot)
          \<and> state b' = state exampleBot
          \<and> pathGoal b' = pathGoal exampleBot \<and> sprint b' = sprint exampleBot
          \<and> acted b' = acted exampleBot
          \<and> length (sent b') = Suc (length (sent exampleBot))"
    by (rule conjunct1[OF conjunct2])
  from h1 h2 unseen run kept show ?thesis by (intro conjI)
qed

lemma followingBot_fields:
  "username followingBot = ''Alice''"
  "players followingBot
     = (\<lambda>n. if n = ''Bob'' then Some (Player (Some (Entity 2 (Vec3 2 0 0))))
             else if n = ''Dave'' then Some (Player None) else None)"
  "state followingBot = \<lparr>target = Some ''Bob'', mode = Some follow, lastDig = 0,
                           clearMapAngle = Some 0, isTrapping = False\<rparr>"
  "sprint followingBot = True"
  "pathGoal followingBot = Some (GoalFollow (Entity 2 (Vec3 2 0 0)) 1, True)"
  "sent followingBot = []" "acted followingBot = []"
  by (simp_all add: followingBot_def exampleBot_fields)

text \<open>
  The handler tests the entry of \<open>bot.players\<close>, not its entity. In the scene Dave is
  listed but has no entity in view. The bot follows Bob when it is told to grief Dave:
  the command is accepted, the goal of the pathfinder and the sprint are dropped, the
  target is Dave and the mode \<open>grief\<close>, and three messages are sent. It is the next tick
  that sends the bot idle (\<open>physicsTick_unresolved\<close> below).
\<close>

theorem command_on_listed_player_out_of_view_is_accepted:
  "playerEntity (players followingBot ''Dave'') = None
   \<and> mode (state followingBot) = Some follow
   \<and> target (state followingBot) = Some ''Bob''
   \<and> pathGoal followingBot = Some (GoalFollow (Entity 2 (Vec3 2 0 0)) 1, True)
   \<and> sprint followingBot = True
   \<and> fst (onParentMessage exampleEnv
        \<lparr>m_type = Some ''command'', m_command = Some ''grief'', m_target = Some ''Dave'',
         m_angle = None, m_message = None\<rparr> (Some followingBot)) = Returned
   \<and> state (the (snd (onParentMessage exampleEnv
        \<lparr>m_type = Some ''command'', m_command = Some ''grief'', m_target = Some ''Dave'',
         m_angle = None, m_message = None\<rparr> (Some followingBot))))
       = \<lparr>target = Some ''Dave'', mode = Some grief, lastDig = 0, clearMapAngle = Some 0,
          isTrapping = False\<rparr>
   \<and> pathGoal (the (snd (onParentMessage exampleEnv
        \<lparr>m_type = Some ''command'', m_command = Some ''grief'', m_target = Some ''Dave'',
         m_angle = None, m_message = None\<rparr> (Some followingBot)))) = None
   \<and> sprint (the (snd (onParentMessage exampleEnv
        \<lparr>m_type = Some ''command'', m_command = Some ''grief'', m_target = Some ''Dave'',
         m_angle = None, m_message = None\<rparr> (Some followingBot)))) = False
   \<and> map msg_payload (sent (the (snd (onParentMessage exampleEnv
        \<lparr>m_type = Some ''command'', m_command = Some ''grief'', m_target = Some ''Dave'',
         m_angle = None, m_message = None\<rparr> (Some followingBot)))))
       = [status_update ''Idle'',
          log_text (''Executing '' @ quote @ ''grief'' @ quote @ '' on Dave.''),
          status_update ''Griefing Dave'']"
  by (simp add: onParentMessage_def onCommand_def resetState_def worker_defs
      followingBot_fields mode_of_command_def capitalized_commands Let_def or_else_def
      playerEntity_def)

text \<open>
  The earlier revision rejects the same commands in the same way, and accepts a listed
  player without entity too. Its accepted \<open>trap\<close> command does not return: it throws on
  the name \<open>getBlockInHand\<close>, with the target and the mode already set.
\<close>

lemma rejected_command_leaves_state_unchanged_v1:
  assumes "m_type msg = Some ''command''"
      and "m_command msg = Some c"
      and "c = ''follow'' \<or> c = ''grief'' \<or> c = ''trap''"
      and "m_target msg = None \<or> m_target msg = Some []
           \<or> (\<exists>n. m_target msg = Some n \<and> players b n = None)"
  shows "onParentMessage_v1 env msg (Some b)
            = (Returned,
               Some (b\<lparr>sent := sent b
                          @ [\<lparr>msg_bot = or_else (Some (username b)) (initialUsername env),
                              msg_payload =
                                log_text
                                  (case m_target msg of
                                     None \<Rightarrow> ''Target player name is required.''
                                   | Some n \<Rightarrow>
                                       if n = [] then ''Target player name is required.''
                                       else ''Can'' @ quote @ ''t see target player '' @ n
                                            @ ''.'')\<rparr>]\<rparr>))"
  using assms(1) onCommand_v1_rejects[OF assms(2,3,4), of env]
  by (simp add: onParentMessage_v1_def worker_defs)

lemma command_on_listed_player_out_of_view_is_accepted_v1:
  "fst (onParentMessage_v1 exampleEnv
        \<lparr>m_type = Some ''command'', m_command = Some ''grief'', m_target = Some ''Dave'',
         m_angle = None, m_message = None\<rparr> (Some followingBot)) = Returned
   \<and> state (the (snd (onParentMessage_v1 exampleEnv
        \<lparr>m_type = Some ''command'', m_command = Some ''grief'', m_target = Some ''Dave'',
         m_angle = None, m_message = None\<rparr> (Some followingBot))))
       = \<lparr>target = Some ''Dave'', mode = Some grief, lastDig = 0, clearMapAngle = Some 0,
          isTrapping = False\<rparr>
   \<and> pathGoal (the (snd (onParentMessage_v1 exampleEnv
        \<lparr>m_type = Some ''command'', m_command = Some ''grief'', m_target = Some ''Dave'',
         m_angle = None, m_message = None\<rparr> (Some followingBot)))) = None"
  by (simp add: onParentMessage_v1_def onCommand_v1_def resetState_v1_def worker_defs
      followingBot_fields mode_of_command_def capitalized_commands Let_def or_else_def)

lemma accepted_trap_command_throws_v1:
  assumes "m_type msg = Some ''command''" and "m_command msg = Some ''trap''"
      and "m_target msg = Some n" and "n \<noteq> []" and "players b n = Some p"
  shows "fst (onParentMessage_v1 env msg (Some b)) = Threw (ReferenceError ''getBlockInHand'')"
    and "\<exists>b'. snd (onParentMessage_v1 env msg (Some b)) = Some b'
              \<and> target (state b') = Some n \<and> mode (state b') = Some trap
              \<and> acted b' = acted b \<and> inventory b' = inventory b"
  using assms
  by (simp_all add: onParentMessage_v1_def onCommand_v1_def resetState_v1_def worker_defs
      mode_of_command_def Let_def)

lemma listed_player_without_entity_is_accepted:
  assumes "m_command msg = Some ''follow''" and "m_target msg = Some n" and "n \<noteq> []"
      and "players b n = Some (Player None)"
  shows "fst (onCommand env msg b) = Returned"
    and "target (state (snd (onCommand env msg b))) = Some n"
    and "mode (state (snd (onCommand env msg b))) = Some follow"
    and "playerEntity (targetPlayer (snd (onCommand env msg b))) = None"
  using assms
  by (simp_all add: onCommand_def Let_def resetState_def worker_defs mode_of_command_def
      targetPlayer_def playerEntity_def)

text \<open>An accepted command, for contrast: the scenario of the specification.\<close>

lemma follow_command_accepted:
  "state (the (snd (onParentMessage exampleEnv
        \<lparr>m_type = Some ''command'', m_command = Some ''follow'', m_target = Some ''Bob'',
         m_angle = None, m_message = None\<rparr> (Some exampleBot))))
     = \<lparr>target = Some ''Bob'', mode = Some follow, lastDig = 0, clearMapAngle = Some 0,
        isTrapping = False\<rparr>
   \<and> map msg_payload (sent (the (snd (onParentMessage exampleEnv
        \<lparr>m_type = Some ''command'', m_command = Some ''follow'', m_target = Some ''Bob'',
         m_angle = None, m_message = None\<rparr> (Some exampleBot)))))
     = [status_update ''Idle'',
        log_text (''Executing '' @ quote @ ''follow'' @ quote @ '' on Bob.''),
        status_update ''Following Bob'']"
  by (simp add: onParentMessage_def onCommand_def resetState_def worker_defs exampleBot_fields
      mode_of_command_def capitalized_commands Let_def or_else_def)

section \<open>The tick handler\<close>

lemma physicsTick_idle: "mode (state b) = None \<Longrightarrow> physicsTick env rw b = (Returned, b)"
  by (simp add: physicsTick_def tickBody_def try_catch_def)

lemma physicsTick_unresolved:
  assumes "mode (state b) = Some m" and "m \<noteq> clearmap"
      and "playerEntity (targetPlayer b) = None"
  shows "physicsTick env rw b = (Returned, goIdle env b)"
  using assms by (cases m) (simp_all add: physicsTick_def tickBody_def try_catch_def Let_def)

lemma physicsTick_follow:
  assumes "mode (state b) = Some follow" and "playerEntity (targetPlayer b) = Some e"
  shows "physicsTick env rw b = (Returned, setGoal (GoalFollow e 1) True (b\<lparr>sprint := True\<rparr>))"
  using assms by (simp add: physicsTick_def tickBody_def try_catch_def Let_def)

lemma physicsTick_clearmap:
  assumes "mode (state b) = Some clearmap"
  shows "state (snd (physicsTick env rw b)) = state b"
    and "\<forall>m \<in> set (sent (snd (physicsTick env rw b))).
           m \<in> set (sent b) \<or> (\<exists>s. msg_payload m = log_text s)"
  using assms by (simp_all add: physicsTick_def tickBody_def try_catch_def Let_def worker_defs)

text \<open>
  Claim C6, as the code has it. With mode none the tick changes nothing. In the modes
  \<open>follow\<close>, \<open>grief\<close> and \<open>trap\<close> the handler looks the stored target up in \<open>bot.players\<close>
  and takes its entity; when there is none, the bot is left with mode none and has
  reported the status \<open>Idle\<close> (in \<open>follow\<close>, when there is one, the goal follows that
  entity). In the mode \<open>clearmap\<close> the target is not consulted: the behaviour state
  stays as it is and no status is reported.
\<close>

theorem tick_idles_when_target_unresolved:
  "(mode (state b) = None \<longrightarrow> physicsTick env rw b = (Returned, b))
   \<and> (mode (state b) = Some m \<and> m \<noteq> clearmap \<and> playerEntity (targetPlayer b) = None \<longrightarrow>
        physicsTick env rw b
          = (Returned,
             b\<lparr>state := (state b)\<lparr>mode := None\<rparr>,
               sent := sent b
                 @ [\<lparr>msg_bot = or_else (Some (username b)) (initialUsername env),
                     msg_payload = status_update ''Idle''\<rparr>]\<rparr>))
   \<and> (mode (state b) = Some follow \<and> playerEntity (targetPlayer b) = Some e \<longrightarrow>
        pathGoal (snd (physicsTick env rw b)) = Some (GoalFollow e 1, True)
        \<and> state (snd (physicsTick env rw b)) = state b)
   \<and> (mode (state b) = Some clearmap \<longrightarrow>
        state (snd (physicsTick env rw b)) = state b
        \<and> (\<forall>m \<in> set (sent (snd (physicsTick env rw b))).
              m \<in> set (sent b) \<or> (\<exists>s. msg_payload m = log_text s)))"
proof (intro conjI impI)
  assume "mode (state b) = None"
  then show "physicsTick env rw b = (Returned, b)" by (rule physicsTick_idle)
next
  assume "mode (state b) = Some m \<and> m \<noteq> clearmap \<and> playerEntity (targetPlayer b) = None"
  then have "physicsTick env rw b = (Returned, goIdle env b)"
    by (simp add: physicsTick_unresolved)
  then show "physicsTick env rw b
          = (Returned,
             b\<lparr>state := (state b)\<lparr>mode := None\<rparr>,
               sent := sent b
                 @ [\<lparr>msg_bot = or_else (Some (username b)) (initialUsername env),
                     msg_payload = status_update ''Idle''\<rparr>]\<rparr>)"
    by (simp add: goIdle_def worker_defs)
next
  assume a: "mode (state b) = Some follow \<and> playerEntity (targetPlayer b) = Some e"
  then show "pathGoal (snd (physicsTick env rw b)) = Some (GoalFollow e 1, True)"
    by (simp add: physicsTick_follow worker_defs)
  from a show "state (snd (physicsTick env rw b)) = state b"
    by (simp add: physicsTick_follow worker_defs)
next
  assume a: "mode (state b) = Some clearmap"
  then show "state (snd (physicsTick env rw b)) = state b"
    by (rule physicsTick_clearmap(1))
  from a show "\<forall>m \<in> set (sent (snd (physicsTick env rw b))).
              m \<in> set (sent b) \<or> (\<exists>s. msg_payload m = log_text s)"
    by (rule physicsTick_clearmap(2))
qed

lemma sweepingBot_fields:
  "mode (state sweepingBot) = Some clearmap" "target (state sweepingBot) = None"
  "sent sweepingBot = []" "moving sweepingBot = True"
  by (simp_all add: sweepingBot_def exampleBot_fields)

lemma followingBot_unresolved:
  "playerEntity (targetPlayer (exampleBot\<lparr>state := (state exampleBot)
       \<lparr>target := Some ''Carol'', mode := Some follow\<rparr>\<rparr>)) = None"
  by (simp add: playerEntity_def targetPlayer_def exampleBot_fields)

theorem tick_idles_when_target_unresolved_witness:
  "mode (state exampleBot) = None
   \<and> physicsTick exampleEnv acceptingRemote exampleBot = (Returned, exampleBot)
   \<and> mode (state (exampleBot\<lparr>state := (state exampleBot)
         \<lparr>target := Some ''Carol'', mode := Some follow\<rparr>\<rparr>)) = Some follow
   \<and> follow \<noteq> clearmap
   \<and> playerEntity (targetPlayer (exampleBot\<lparr>state := (state exampleBot)
         \<lparr>target := Some ''Carol'', mode := Some follow\<rparr>\<rparr>)) = None
   \<and> state (snd (physicsTick exampleEnv acceptingRemote
         (exampleBot\<lparr>state := (state exampleBot)
            \<lparr>target := Some ''Carol'', mode := Some follow\<rparr>\<rparr>)))
       = \<lparr>target = Some ''Carol'', mode = None, lastDig = 0, clearMapAngle = Some 0,
          isTrapping = False\<rparr>
   \<and> map msg_payload (sent (snd (physicsTick exampleEnv acceptingRemote
         (exampleBot\<lparr>state := (state exampleBot)
            \<lparr>target := Some ''Carol'', mode := Some follow\<rparr>\<rparr>))))
       = [status_update ''Idle'']
   \<and> mode (state (exampleBot\<lparr>state := (state exampleBot)
         \<lparr>target := Some ''Bob'', mode := Some follow\<rparr>\<rparr>)) = Some follow
   \<and> playerEntity (targetPlayer (exampleBot\<lparr>state := (state exampleBot)
         \<lparr>target := Some ''Bob'', mode := Some follow\<rparr>\<rparr>)) = Some (Entity 2 (Vec3 2 0 0))
   \<and> pathGoal (snd (physicsTick exampleEnv acceptingRemote
         (exampleBot\<lparr>state := (state exampleBot)
            \<lparr>target := Some ''Bob'', mode := Some follow\<rparr>\<rparr>)))
       = Some (GoalFollow (Entity 2 (Vec3 2 0 0)) 1, True)
   \<and> mode (state sweepingBot) = Some clearmap
   \<and> state (snd (physicsTick exampleEnv acceptingRemote sweepingBot)) = state sweepingBot"
proof -
  let ?lost = "exampleBot\<lparr>state := (state exampleBot)
                 \<lparr>target := Some ''Carol'', mode := Some follow\<rparr>\<rparr>"
  let ?seen = "exampleBot\<lparr>state := (state exampleBot)
                 \<lparr>target := Some ''Bob'', mode := Some follow\<rparr>\<rparr>"
  have i1: "mode (state exampleBot) = None" by (simp add: exampleBot_fields)
  have l1: "mode (state ?lost) = Some follow" by simp
  have l2: "follow \<noteq> clearmap" by simp
  have l3: "playerEntity (targetPlayer ?lost) = None" by (rule followingBot_unresolved)
  have s1: "mode (state ?seen) = Some follow" by simp
  have s2: "playerEntity (targetPlayer ?seen) = Some (Entity 2 (Vec3 2 0 0))"
    by (simp add: playerEntity_def targetPlayer_def exampleBot_fields)
  have c1: "mode (state sweepingBot) = Some clearmap" by (rule sweepingBot_fields)
  from tick_idles_when_target_unresolved[of exampleBot exampleEnv acceptingRemote follow
      "Entity 2 (Vec3 2 0 0)"] i1
  have r1: "physicsTick exampleEnv acceptingRemote exampleBot = (Returned, exampleBot)"
    by simp
  from tick_idles_when_target_unresolved[of ?lost exampleEnv acceptingRemote follow
      "Entity 2 (Vec3 2 0 0)"] l1 l2 l3
  have r2: "physicsTick exampleEnv acceptingRemote ?lost
          = (Returned,
             ?lost\<lparr>state := (state ?lost)\<lparr>mode := None\<rparr>,
               sent := sent ?lost
                 @ [\<lparr>msg_bot = or_else (Some (username ?lost)) (initialUsername exampleEnv),
                     msg_payload = status_update ''Idle''\<rparr>]\<rparr>)"
    by blast
  from tick_idles_when_target_unresolved[of ?seen exampleEnv acceptingRemote follow
      "Entity 2 (Vec3 2 0 0)"] s1 s2
  have r3: "pathGoal (snd (physicsTick exampleEnv acceptingRemote ?seen))
              = Some (GoalFollow (Entity 2 (Vec3 2 0 0)) 1, True)"
    by blast
  from tick_idles_when_target_unresolved[of sweepingBot exampleEnv acceptingRemote follow
      "Entity 2 (Vec3 2 0 0)"] c1
  have r4: "state (snd (physicsTick exampleEnv acceptingRemote sweepingBot)) = state sweepingBot"
    by blast
  have r2a: "state (snd (physicsTick exampleEnv acceptingRemote ?lost))
       = \<lparr>target = Some ''Carol'', mode = None, lastDig = 0, clearMapAngle = Some 0,
          isTrapping = False\<rparr>"
    using r2 by (simp add: exampleBot_fields)
  have r2b: "map msg_payload (sent (snd (physicsTick exampleEnv acceptingRemote ?lost)))
       = [status_update ''Idle'']"
    using r2 by (simp add: exampleBot_fields)
  from i1 r1 l1 l2 l3 r2a r2b s1 s2 r3 c1 r4 show ?thesis by (intro conjI)
qed

text \<open>
  The claim as it is written fails in the mode \<open>clearmap\<close>: the sweeping bot has no
  target that could be resolved, and after its tick it still sweeps and has reported
  nothing.
\<close>

theorem tick_clearmap_keeps_sweeping:
  "mode (state sweepingBot) \<noteq> None
   \<and> playerEntity (targetPlayer sweepingBot) = None
   \<and> mode (state (snd (physicsTick exampleEnv acceptingRemote sweepingBot))) = Some clearmap
   \<and> sent (snd (physicsTick exampleEnv acceptingRemote sweepingBot)) = []"
  by (simp add: physicsTick_def tickBody_def try_catch_def sweepingBot_fields
      playerEntity_def targetPlayer_def)

lemma physicsTick_v1_idle:
  "mode (state b) = None \<Longrightarrow> physicsTick_v1 env rw b = (Returned, b)"
  by (simp add: physicsTick_v1_def tickBody_v1_def try_catch_def)

lemma physicsTick_v1_unresolved:
  assumes "mode (state b) = Some m" and "m \<noteq> clearmap"
      and "playerEntity (targetPlayer b) = None"
  shows "physicsTick_v1 env rw b = (Returned, goIdle env b)"
  using assms by (cases m) (simp_all add: physicsTick_v1_def tickBody_v1_def try_catch_def Let_def)

lemma physicsTick_v1_clearmap:
  assumes "mode (state b) = Some clearmap"
  shows "state (snd (physicsTick_v1 env rw b)) = state b"
  using assms by (simp add: physicsTick_v1_def tickBody_v1_def try_catch_def Let_def worker_defs)

section \<open>Errors stop at the tick boundary\<close>

lemma try_catch_returns:
  "fst (try_catch r (\<lambda>e b'. (Returned, h e b'))) = Returned"
  by (cases r; cases "fst r") (simp_all add: try_catch_def)

lemma griefLogic_workerGlobals:
  "griefLogic env rw workerGlobals targetPos b
     = (Threw (ReferenceError ''scanRadius''),
        setGoal (GoalBlock (vx targetPos) (vy targetPos) (vz targetPos)) True b)"
  by (simp add: griefLogic_def workerGlobals_def)

lemma griefingBot_fields:
  "mode (state griefingBot) = Some grief" "target (state griefingBot) = Some ''Bob''"
  "lastDig (state griefingBot) = 0"
  "players griefingBot ''Bob'' = Some (Player (Some (Entity 2 (Vec3 2 0 0))))"
  "sent griefingBot = []" "acted griefingBot = []" "username griefingBot = ''Alice''"
  "entity griefingBot = Entity 1 (Vec3 0 0 0)" "blocks griefingBot = exampleWorld"
  by (simp_all add: griefingBot_def exampleBot_fields)

lemma griefingBot_tickBody:
  "tickBody exampleEnv rw griefingBot
     = (Threw (ReferenceError ''scanRadius''),
        griefingBot\<lparr>sprint := True, pathGoal := Some (GoalBlock 2 0 0, True)\<rparr>)"
  by (simp add: tickBody_def griefingBot_fields targetPlayer_def playerEntity_def
      griefLogic_workerGlobals setGoal_def)

text \<open>
  Claim C9. The tick handler returns normally whatever the body does and whatever the
  remote world answers. When the body throws, what it had done stays, and the handler
  adds one \<open>error\<close> message with the stack of the error (its name and message, then the
  frames the runtime recorded) to what the worker has sent; when the body returns, the
  handler adds nothing.
\<close>

theorem tick_catches_every_error:
  "fst (physicsTick env rw b) = Returned
   \<and> (tickBody env rw b = (Threw e, b') \<longrightarrow>
        physicsTick env rw b
          = (Returned,
             b'\<lparr>sent := sent b'
                   @ [\<lparr>msg_bot = or_else (Some (username b')) (initialUsername env),
                       msg_payload = error_text (error_string e @ stackFrames env e)\<rparr>]\<rparr>))
   \<and> (tickBody env rw b = (Returned, b') \<longrightarrow> physicsTick env rw b = (Returned, b'))"
proof (intro conjI impI)
  show "fst (physicsTick env rw b) = Returned"
    unfolding physicsTick_def by (rule try_catch_returns)
next
  assume "tickBody env rw b = (Threw e, b')"
  then have "physicsTick env rw b = (Returned, err env e b')"
    by (simp add: physicsTick_def try_catch_def)
  then show "physicsTick env rw b
          = (Returned,
             b'\<lparr>sent := sent b'
                   @ [\<lparr>msg_bot = or_else (Some (username b')) (initialUsername env),
                       msg_payload = error_text (error_string e @ stackFrames env e)\<rparr>]\<rparr>)"
    by (simp add: err_def send_def)
next
  assume "tickBody env rw b = (Returned, b')"
  then show "physicsTick env rw b = (Returned, b')"
    by (simp add: physicsTick_def try_catch_def)
qed

theorem tick_catches_every_error_witness:
  "tickBody exampleEnv acceptingRemote griefingBot
     = (Threw (ReferenceError ''scanRadius''),
        griefingBot\<lparr>sprint := True, pathGoal := Some (GoalBlock 2 0 0, True)\<rparr>)
   \<and> physicsTick exampleEnv acceptingRemote griefingBot
     = (Returned,
        griefingBot\<lparr>sprint := True, pathGoal := Some (GoalBlock 2 0 0, True),
                    sent := [\<lparr>msg_bot = ''Alice'',
                              msg_payload = error_text ''ReferenceError: scanRadius is not defined''\<rparr>]\<rparr>)
   \<and> tickBody exampleEnv acceptingRemote exampleBot = (Returned, exampleBot)
   \<and> physicsTick exampleEnv acceptingRemote exampleBot = (Returned, exampleBot)"
proof -
  let ?b' = "griefingBot\<lparr>sprint := True, pathGoal := Some (GoalBlock 2 0 0, True)\<rparr>"
  have body: "tickBody exampleEnv acceptingRemote griefingBot
                = (Threw (ReferenceError ''scanRadius''), ?b')"
    by (rule griefingBot_tickBody)
  have quiet: "tickBody exampleEnv acceptingRemote exampleBot = (Returned, exampleBot)"
    by (simp add: tickBody_def exampleBot_fields)
  from tick_catches_every_error[of exampleEnv acceptingRemote griefingBot
      "ReferenceError ''scanRadius''" ?b'] body
  have "physicsTick exampleEnv acceptingRemote griefingBot
          = (Returned,
             ?b'\<lparr>sent := sent ?b'
                   @ [\<lparr>msg_bot = or_else (Some (username ?b')) (initialUsername exampleEnv),
                       msg_payload =
                         error_text (error_string (ReferenceError ''scanRadius'')
                                     @ stackFrames exampleEnv (ReferenceError ''scanRadius''))\<rparr>]\<rparr>)"
    by blast
  then have caught: "physicsTick exampleEnv acceptingRemote griefingBot
     = (Returned,
        griefingBot\<lparr>sprint := True, pathGoal := Some (GoalBlock 2 0 0, True),
                    sent := [\<lparr>msg_bot = ''Alice'',
                              msg_payload = error_text ''ReferenceError: scanRadius is not defined''\<rparr>]\<rparr>)"
    by (simp add: griefingBot_fields or_else_def error_string_def exampleEnv_fields)
  from tick_catches_every_error[of exampleEnv acceptingRemote exampleBot
      "ReferenceError ''scanRadius''" exampleBot] quiet
  have calm: "physicsTick exampleEnv acceptingRemote exampleBot = (Returned, exampleBot)"
    by blast
  from body caught quiet calm show ?thesis by (intro conjI)
qed

lemma tick_catches_every_error_v1:
  "fst (physicsTick_v1 env rw b) = Returned
   \<and> (tickBody_v1 env rw b = (Threw e, b') \<longrightarrow>
        physicsTick_v1 env rw b = (Returned, err env e b'))
   \<and> (tickBody_v1 env rw b = (Returned, b') \<longrightarrow> physicsTick_v1 env rw b = (Returned, b'))"
  by (simp add: physicsTick_v1_def try_catch_returns) (simp add: try_catch_def)

text \<open>
  An error of a single remote action inside the body: a rejected grant is reported by
  \<open>getBlockInHand\<close> itself, which then returns null.
\<close>

lemma getBlockInHand_rejected_grant:
  assumes "itemsByName env n = Some i" and "findInventoryItem b i = None" and "creative b"
      and "setInventorySlot_error rw = Some e"
  shows "getBlockInHand env rw n b = (None, err env e (act (SetInventorySlot 36 (Item i 64)) b))"
  using assms by (simp add: getBlockInHand_def)

section \<open>Target acquisition\<close>

lemma distanceTo_gt_iff: "0 \<le> m \<Longrightarrow> (m < distanceTo p q) = (m\<^sup>2 < distanceSquared p q)"
proof -
  assume m: "0 \<le> m"
  have "(m < distanceTo p q) = (sqrt (m\<^sup>2) < sqrt (distanceSquared p q))"
    using m by (simp add: distanceTo_def)
  also have "\<dots> = (m\<^sup>2 < distanceSquared p q)"
    by (rule real_sqrt_less_iff)
  finally show ?thesis .
qed

lemma distanceTo_le_iff:
  "(distanceTo p q \<le> distanceTo p r) = (distanceSquared p q \<le> distanceSquared p r)"
  by (simp add: distanceTo_def)

lemma cube_member:
  "(dx, dy, dz) \<in> set (cube r)
     \<longleftrightarrow> (- r \<le> dx \<and> dx \<le> r) \<and> (- r \<le> dy \<and> dy \<le> r) \<and> (- r \<le> dz \<and> dz \<le> r)"
  by (force simp: cube_def)

lemma length_cube: "0 \<le> r \<Longrightarrow> length (cube r) = nat (2 * r + 1) ^ 3"
  by (simp add: cube_def length_concat comp_def sum_list_triv power3_eq_cube)

lemma set_map_filter_iff: "y \<in> set (List.map_filter f xs) \<longleftrightarrow> (\<exists>x \<in> set xs. f x = Some y)"
  by (induction xs) (auto split: option.splits)

lemma candidateAt_Some:
  "candidateAt md P b t (dx, dy, dz) = Some blk
     \<longleftrightarrow> distanceTo (e_position (entity b)) (offset t (of_int dx) (of_int dy) (of_int dz)) \<le> md
         \<and> blockAt b (offset t (of_int dx) (of_int dy) (of_int dz)) = Some blk
         \<and> b_name blk \<noteq> ''air'' \<and> b_type blk \<notin> P"
  by (auto simp: candidateAt_def Let_def split: option.splits)

text \<open>
  The scan: a block is a candidate exactly when some position of the cube is within
  \<open>maxDig\<close> of the bot and holds that block, and the block is neither air nor protected.
\<close>

lemma scanBlocks_member:
  "blk \<in> set (scanBlocks r md P b t)
     \<longleftrightarrow> (\<exists>dx dy dz. (- r \<le> dx \<and> dx \<le> r) \<and> (- r \<le> dy \<and> dy \<le> r) \<and> (- r \<le> dz \<and> dz \<le> r)
            \<and> distanceTo (e_position (entity b)) (offset t (of_int dx) (of_int dy) (of_int dz)) \<le> md
            \<and> blockAt b (offset t (of_int dx) (of_int dy) (of_int dz)) = Some blk
            \<and> b_name blk \<noteq> ''air'' \<and> b_type blk \<notin> P)"
proof -
  have "blk \<in> set (scanBlocks r md P b t)
          \<longleftrightarrow> (\<exists>d \<in> set (cube r). candidateAt md P b t d = Some blk)"
    by (simp add: scanBlocks_def set_map_filter_iff)
  also have "\<dots> \<longleftrightarrow> (\<exists>dx dy dz. (dx, dy, dz) \<in> set (cube r)
                         \<and> candidateAt md P b t (dx, dy, dz) = Some blk)"
    by auto
  finally show ?thesis
    by (simp add: cube_member candidateAt_Some)
qed

lemma scanBlocks_unprotected:
  "blk \<in> set (scanBlocks r md P b t) \<Longrightarrow> b_type blk \<notin> P \<and> b_name blk \<noteq> ''air''"
  by (auto simp: scanBlocks_member)

text \<open>The head of the sorted candidates is a candidate, and no candidate is nearer.\<close>

lemma hd_nearestFirst:
  assumes "blks \<noteq> []"
  shows "hd (nearestFirst b blks) \<in> set blks"
    and "\<forall>c \<in> set blks. distanceTo (e_position (entity b)) (b_position (hd (nearestFirst b blks)))
                          \<le> distanceTo (e_position (entity b)) (b_position c)"
proof -
  let ?f = "\<lambda>blk. distanceTo (e_position (entity b)) (b_position blk)"
  let ?s = "sort_key ?f blks"
  from assms have ne: "?s \<noteq> []"
    by (metis length_0_conv length_sort)
  then obtain x xs where s: "?s = x # xs" by (cases ?s) auto
  have hd_eq: "hd (nearestFirst b blks) = x"
    by (simp add: nearestFirst_def s)
  have same: "set ?s = set blks" by (rule set_sort)
  have "x \<in> set ?s" unfolding s by simp
  with same show "hd (nearestFirst b blks) \<in> set blks"
    unfolding hd_eq by simp
  have "sorted (map ?f ?s)" by (rule sorted_sort_key)
  then have "\<forall>c \<in> set ?s. ?f x \<le> ?f c"
    unfolding s by auto
  with same show "\<forall>c \<in> set blks. ?f (hd (nearestFirst b blks)) \<le> ?f c"
    unfolding hd_eq by simp
qed

text \<open>Among candidates at the same distance the sort keeps the order of the scan.\<close>

lemma nearestFirst_stable:
  "filter (\<lambda>blk. distanceTo (e_position (entity b)) (b_position blk) = k) (nearestFirst b blks)
     = filter (\<lambda>blk. distanceTo (e_position (entity b)) (b_position blk) = k) blks"
  by (simp add: nearestFirst_def sort_key_stable)

lemma dug_simps:
  "dug (act (Dig blk) b) = dug b @ [blk]"
  "dug (act (LookAt p) b) = dug b"
  "dug (act (Equip i) b) = dug b"
  "dug (act (PlaceBlock blk p) b) = dug b"
  "dug (act (SetInventorySlot n i) b) = dug b"
  "dug (b\<lparr>state := s\<rparr>) = dug b"
  "dug (b\<lparr>sprint := sp\<rparr>) = dug b"
  "dug (setGoal g dyn b) = dug b"
  "dug (send env m b) = dug b"
  by (simp_all add: dug_def act_def setGoal_def send_def List.map_filter_def)

text \<open>
  The earlier revision does what claim C1 says: when a tick digs, it digs one block,
  which is a candidate of the scan (so neither air nor protected, and within \<open>maxDig\<close>)
  and is nearest to the bot among the candidates.
\<close>

lemma griefLogic_v1_digs_nearest:
  "fst (griefLogic_v1 env rw t b) = Returned
   \<and> (dug (snd (griefLogic_v1 env rw t b)) = dug b
      \<or> (\<exists>blk. dug (snd (griefLogic_v1 env rw t b)) = dug b @ [blk]
            \<and> blk \<in> set (scanBlocks (scanRadius (cfg env)) (maxDig (cfg env))
                              (protectedIds env) b t)
            \<and> b_type blk \<notin> protectedIds env \<and> b_name blk \<noteq> ''air''
            \<and> (\<forall>c \<in> set (scanBlocks (scanRadius (cfg env)) (maxDig (cfg env))
                                (protectedIds env) b t).
                  distanceTo (e_position (entity b)) (b_position blk)
                    \<le> distanceTo (e_position (entity b)) (b_position c))))"
proof -
  let ?blks = "scanBlocks (scanRadius (cfg env)) (maxDig (cfg env)) (protectedIds env) b t"
  show ?thesis
  proof (cases "?blks = []")
    case True
    then show ?thesis by (simp add: griefLogic_v1_def)
  next
    case False
    note h = hd_nearestFirst[OF False, of b]
    from h(1) have un: "b_type (hd (nearestFirst b ?blks)) \<notin> protectedIds env
                        \<and> b_name (hd (nearestFirst b ?blks)) \<noteq> ''air''"
      by (rule scanBlocks_unprotected)
    show ?thesis
    proof (cases "now rw - lastDig (state b) < clickDelay (cfg env)")
      case True
      with False show ?thesis by (simp add: griefLogic_v1_def Let_def)
    next
      case slow: False
      show ?thesis
      proof (cases "lookAt_error rw (offset (b_position (hd (nearestFirst b ?blks))) 0.5 0.5 0.5)")
        case None
        with False slow h un show ?thesis
          by (simp add: griefLogic_v1_def Let_def dug_simps)
      next
        case (Some e)
        with False slow show ?thesis
          by (simp add: griefLogic_v1_def Let_def dug_simps)
      qed
    qed
  qed
qed

lemma griefLogic_v1_acts:
  assumes "scanBlocks (scanRadius (cfg env)) (maxDig (cfg env)) (protectedIds env) b t = blks"
      and "blks \<noteq> []"
      and "clickDelay (cfg env) \<le> now rw - lastDig (state b)"
      and "lookAt_error rw (offset (b_position (hd (nearestFirst b blks))) 0.5 0.5 0.5) = None"
  shows "dug (snd (griefLogic_v1 env rw t b)) = dug b @ [hd (nearestFirst b blks)]"
  using assms by (simp add: griefLogic_v1_def Let_def dug_simps)

text \<open>
  The body of \<open>griefLogic\<close> in depster.js would do the same if the three names were bound.
\<close>

lemma griefLogic_bound_digs_nearest:
  "dug (snd (griefLogic env rw (Some g) t b)) = dug b
   \<or> (\<exists>blk. dug (snd (griefLogic env rw (Some g) t b)) = dug b @ [blk]
         \<and> blk \<in> set (scanBlocks (g_scanRadius g) (g_maxDig g) (protectedIds env)
                           (setGoal (GoalBlock (vx t) (vy t) (vz t)) True b) t)
         \<and> b_type blk \<notin> protectedIds env \<and> b_name blk \<noteq> ''air'')"
proof -
  let ?b0 = "setGoal (GoalBlock (vx t) (vy t) (vz t)) True b"
  let ?blks = "scanBlocks (g_scanRadius g) (g_maxDig g) (protectedIds env) ?b0 t"
  show ?thesis
  proof (cases "?blks = []")
    case True
    then show ?thesis by (simp add: griefLogic_def dug_simps)
  next
    case False
    note h = hd_nearestFirst(1)[OF False, of ?b0]
    from h have un: "b_type (hd (nearestFirst ?b0 ?blks)) \<notin> protectedIds env
                     \<and> b_name (hd (nearestFirst ?b0 ?blks)) \<noteq> ''air''"
      by (rule scanBlocks_unprotected)
    show ?thesis
    proof (cases "now rw - lastDig (state ?b0) < g_clickDelay g")
      case True
      with False show ?thesis by (simp add: griefLogic_def Let_def dug_simps)
    next
      case slow: False
      show ?thesis
      proof (cases "lookAt_error rw (offset (b_position (hd (nearestFirst ?b0 ?blks))) 0.5 0.5 0.5)")
        case None
        with False slow h un show ?thesis
          by (simp add: griefLogic_def Let_def dug_simps)
      next
        case (Some e)
        with False slow show ?thesis
          by (simp add: griefLogic_def Let_def dug_simps)
      qed
    qed
  qed
qed

subsection \<open>The scene, scanned\<close>

lemma cube_1: "cube 1 = [(dx, dy, dz). dx \<leftarrow> [-1, 0, 1], dy \<leftarrow> [-1, 0, 1], dz \<leftarrow> [-1, 0, 1]]"
  by (simp add: cube_def upto_m1_1)

lemma protectedIds_example: "protectedIds exampleEnv = {7}"
  by (simp add: protectedIds_def exampleEnv_fields sharedConfig_v1_def sharedConfig_def
      List.map_filter_simps)

lemma cfg_example:
  "scanRadius (cfg exampleEnv) = 1" "maxDig (cfg exampleEnv) = 8"
  "clickDelay (cfg exampleEnv) = 1000 / 13" "trapBlock (cfg exampleEnv) = ''dirt''"
  by (simp_all add: exampleEnv_fields sharedConfig_v1_def sharedConfig_def)

lemma scan_example:
  "scanBlocks 1 8 {7} griefingBot (Vec3 2 0 0)
     = [Block (Vec3 1 (-1) (-1)) ''stone'' 1 ''block'', Block (Vec3 1 (-1) 0) ''stone'' 1 ''block'',
        Block (Vec3 1 (-1) 1) ''stone'' 1 ''block'', Block (Vec3 2 (-1) (-1)) ''stone'' 1 ''block'',
        Block (Vec3 2 (-1) 0) ''stone'' 1 ''block'', Block (Vec3 2 (-1) 1) ''stone'' 1 ''block'',
        Block (Vec3 3 (-1) (-1)) ''stone'' 1 ''block'', Block (Vec3 3 (-1) 0) ''stone'' 1 ''block'',
        Block (Vec3 3 (-1) 1) ''stone'' 1 ''block'']"
  by (simp add: scanBlocks_def cube_1 List.map_filter_simps candidateAt_def griefingBot_fields
      offset_def distanceTo_gt_iff distanceSquared_def blockAt_def world_blockAt_def cell_def
      exampleWorld_def floored_def power2_eq_square)

lemma nearest_example:
  "hd (nearestFirst griefingBot (scanBlocks 1 8 {7} griefingBot (Vec3 2 0 0)))
     = Block (Vec3 1 (-1) 0) ''stone'' 1 ''block''"
  by (simp add: scan_example nearestFirst_def griefingBot_fields distanceTo_le_iff
      distanceSquared_def power2_eq_square)

lemma grief_v1_example:
  "griefLogic_v1 exampleEnv acceptingRemote (Vec3 2 0 0) griefingBot
     = (Returned,
        griefingBot\<lparr>state := (state griefingBot)\<lparr>lastDig := 1000\<rparr>,
                    acted := [LookAt (Vec3 1.5 (-0.5) 0.5),
                              Dig (Block (Vec3 1 (-1) 0) ''stone'' 1 ''block'')]\<rparr>)"
proof -
  have nonempty: "scanBlocks 1 8 {7} griefingBot (Vec3 2 0 0) \<noteq> []"
    by (simp add: scan_example)
  show ?thesis
    by (simp add: griefLogic_v1_def cfg_example protectedIds_example nonempty nearest_example
        Let_def griefingBot_fields acceptingRemote_def act_def offset_def)
qed

text \<open>
  Claim C1, at a failing input of depster.js. Around Bob the scan has nine candidates
  (the stone under him and around), the nearest being the block at (1,-1,0). The tick of
  depster.js in mode \<open>grief\<close> sets the goal, throws the ReferenceError on \<open>scanRadius\<close>
  before it scans, reports the error and digs nothing: no target is selected. The
  body of \<open>griefLogic\<close> of the earlier revision, on the same bot, looks at the nearest
  candidate and digs it.
\<close>

theorem grief_tick_throws_before_scanning:
  "length (scanBlocks (scanRadius (cfg exampleEnv)) (maxDig (cfg exampleEnv))
             (protectedIds exampleEnv) griefingBot (Vec3 2 0 0)) = 9
   \<and> hd (nearestFirst griefingBot
            (scanBlocks (scanRadius (cfg exampleEnv)) (maxDig (cfg exampleEnv))
               (protectedIds exampleEnv) griefingBot (Vec3 2 0 0)))
       = Block (Vec3 1 (-1) 0) ''stone'' 1 ''block''
   \<and> physicsTick exampleEnv acceptingRemote griefingBot
       = (Returned,
          griefingBot\<lparr>sprint := True, pathGoal := Some (GoalBlock 2 0 0, True),
                      sent := [\<lparr>msg_bot = ''Alice'',
                                msg_payload = error_text ''ReferenceError: scanRadius is not defined''\<rparr>]\<rparr>)
   \<and> dug (snd (physicsTick exampleEnv acceptingRemote griefingBot)) = []
   \<and> dug (snd (griefLogic_v1 exampleEnv acceptingRemote (Vec3 2 0 0) griefingBot))
       = [Block (Vec3 1 (-1) 0) ''stone'' 1 ''block'']"
proof -
  have tick: "physicsTick exampleEnv acceptingRemote griefingBot
       = (Returned,
          griefingBot\<lparr>sprint := True, pathGoal := Some (GoalBlock 2 0 0, True),
                      sent := [\<lparr>msg_bot = ''Alice'',
                                msg_payload = error_text ''ReferenceError: scanRadius is not defined''\<rparr>]\<rparr>)"
    by (simp add: physicsTick_def griefingBot_tickBody try_catch_def worker_defs
        griefingBot_fields or_else_def error_string_def exampleEnv_fields)
  have none: "dug (snd (physicsTick exampleEnv acceptingRemote griefingBot)) = []"
    by (simp add: tick dug_def griefingBot_fields List.map_filter_simps)
  have v1: "dug (snd (griefLogic_v1 exampleEnv acceptingRemote (Vec3 2 0 0) griefingBot))
       = [Block (Vec3 1 (-1) 0) ''stone'' 1 ''block'']"
    by (simp add: grief_v1_example dug_def List.map_filter_simps)
  have nine: "length (scanBlocks (scanRadius (cfg exampleEnv)) (maxDig (cfg exampleEnv))
             (protectedIds exampleEnv) griefingBot (Vec3 2 0 0)) = 9"
    by (simp add: cfg_example protectedIds_example scan_example)
  have near: "hd (nearestFirst griefingBot
            (scanBlocks (scanRadius (cfg exampleEnv)) (maxDig (cfg exampleEnv))
               (protectedIds exampleEnv) griefingBot (Vec3 2 0 0)))
       = Block (Vec3 1 (-1) 0) ''stone'' 1 ''block''"
    by (simp add: cfg_example protectedIds_example nearest_example)
  from nine near tick none v1 show ?thesis by (intro conjI)
qed

text \<open>In depster.js this holds for every bot, target and remote world.\<close>

lemma grief_tick_never_digs:
  assumes "mode (state b) = Some grief"
  shows "dug (snd (physicsTick env rw b)) = dug b"
proof (cases "playerEntity (targetPlayer b)")
  case None
  with assms show ?thesis
    by (simp add: physicsTick_unresolved goIdle_def updateStatus_def dug_simps)
next
  case (Some e)
  with assms show ?thesis
    by (simp add: physicsTick_def tickBody_def griefLogic_workerGlobals try_catch_def
        err_def dug_simps)
qed

section \<open>The rate limit\<close>

lemma dug_cong: "acted b2 = acted b1 \<Longrightarrow> dug b2 = dug b1"
  by (simp add: dug_def)

lemma griefLogic_v1_limited:
  "now rw - lastDig (state b) < clickDelay (cfg env) \<Longrightarrow> griefLogic_v1 env rw t b = (Returned, b)"
  by (simp add: griefLogic_v1_def Let_def)

lemma griefLogic_v1_at_most_one:
  "length (dug (snd (griefLogic_v1 env rw t b))) \<le> Suc (length (dug b))"
  using griefLogic_v1_digs_nearest[of env rw t b] by auto

text \<open>A run of the earlier \<open>griefLogic\<close> either leaves the bot as it is or records the second
  reading of the clock as the time of the last dig.\<close>

lemma griefLogic_v1_stamp:
  "griefLogic_v1 env rw t b = (Returned, b)
   \<or> lastDig (state (snd (griefLogic_v1 env rw t b))) = now_again rw"
  by (simp add: griefLogic_v1_def Let_def act_def split: option.splits)

lemma griefLogic_v1_pair:
  assumes "now rw \<le> now_again rw"
      and "now rw2 - now rw < clickDelay (cfg env)"
      and "lastDig (state b2) = lastDig (state (snd (griefLogic_v1 env rw t b)))"
      and "acted b2 = acted (snd (griefLogic_v1 env rw t b))"
  shows "length (dug (snd (griefLogic_v1 env rw2 t2 b2))) \<le> Suc (length (dug b))"
proof -
  let ?b1 = "snd (griefLogic_v1 env rw t b)"
  have same: "dug b2 = dug ?b1" using assms(4) by (rule dug_cong)
  from griefLogic_v1_stamp[of env rw t b] show ?thesis
  proof
    assume "griefLogic_v1 env rw t b = (Returned, b)"
    then have "dug b2 = dug b" using same by simp
    with griefLogic_v1_at_most_one[of env rw2 t2 b2] show ?thesis by simp
  next
    assume "lastDig (state ?b1) = now_again rw"
    with assms(1,2,3) have "now rw2 - lastDig (state b2) < clickDelay (cfg env)" by simp
    then have "griefLogic_v1 env rw2 t2 b2 = (Returned, b2)" by (rule griefLogic_v1_limited)
    with same griefLogic_v1_at_most_one[of env rw t b] show ?thesis by simp
  qed
qed

text \<open>
  Counted from the time the first run recorded, no assumption on the clock is needed.
\<close>

lemma griefLogic_v1_pair_from_stamp:
  assumes "now rw2 - now_again rw < clickDelay (cfg env)"
      and "lastDig (state b2) = lastDig (state (snd (griefLogic_v1 env rw t b)))"
      and "acted b2 = acted (snd (griefLogic_v1 env rw t b))"
  shows "length (dug (snd (griefLogic_v1 env rw2 t2 b2))) \<le> Suc (length (dug b))"
proof -
  let ?b1 = "snd (griefLogic_v1 env rw t b)"
  have same: "dug b2 = dug ?b1" using assms(3) by (rule dug_cong)
  from griefLogic_v1_stamp[of env rw t b] show ?thesis
  proof
    assume "griefLogic_v1 env rw t b = (Returned, b)"
    then have "dug b2 = dug b" using same by simp
    with griefLogic_v1_at_most_one[of env rw2 t2 b2] show ?thesis by simp
  next
    assume "lastDig (state ?b1) = now_again rw"
    with assms(1,2) have "now rw2 - lastDig (state b2) < clickDelay (cfg env)" by simp
    then have "griefLogic_v1 env rw2 t2 b2 = (Returned, b2)" by (rule griefLogic_v1_limited)
    with same griefLogic_v1_at_most_one[of env rw t b] show ?thesis by simp
  qed
qed

text \<open>
  Claim C4. In the earlier revision a run of \<open>griefLogic\<close> that finds the interval
  \<open>clickDelay\<close> not elapsed since \<open>lastDig\<close> returns with the bot unchanged. Two consecutive
  runs whose (first) clock readings are less than \<open>clickDelay\<close> apart dig at most one block
  between them, provided the clock does not run backwards between the two readings of the
  first run; the second run starts from any bot that has the \<open>lastDig\<close> and the actions
  the first run left. In depster.js a run of \<open>griefLogic\<close> never digs. In both
  configurations \<open>clickDelay\<close> is \<open>1000 / cps\<close>.
\<close>

theorem grief_rate_limit:
  "(now rw - lastDig (state b) < clickDelay (cfg env) \<longrightarrow>
      griefLogic_v1 env rw t b = (Returned, b))
   \<and> (now rw \<le> now_again rw \<and> now rw2 - now rw < clickDelay (cfg env)
       \<and> lastDig (state b2) = lastDig (state (snd (griefLogic_v1 env rw t b)))
       \<and> acted b2 = acted (snd (griefLogic_v1 env rw t b)) \<longrightarrow>
      length (dug (snd (griefLogic_v1 env rw2 t2 b2))) \<le> Suc (length (dug b)))
   \<and> dug (snd (griefLogic env rw workerGlobals t b)) = dug b
   \<and> clickDelay sharedConfig = 1000 / cps sharedConfig
   \<and> clickDelay sharedConfig_v1 = 1000 / cps sharedConfig_v1"
proof (intro conjI impI)
  assume "now rw - lastDig (state b) < clickDelay (cfg env)"
  then show "griefLogic_v1 env rw t b = (Returned, b)" by (rule griefLogic_v1_limited)
next
  assume "now rw \<le> now_again rw \<and> now rw2 - now rw < clickDelay (cfg env)
       \<and> lastDig (state b2) = lastDig (state (snd (griefLogic_v1 env rw t b)))
       \<and> acted b2 = acted (snd (griefLogic_v1 env rw t b))"
  then show "length (dug (snd (griefLogic_v1 env rw2 t2 b2))) \<le> Suc (length (dug b))"
    using griefLogic_v1_pair[of rw rw2 env b2 t b t2] by blast
next
  show "dug (snd (griefLogic env rw workerGlobals t b)) = dug b"
    by (simp add: griefLogic_workerGlobals dug_simps)
next
  show "clickDelay sharedConfig = 1000 / cps sharedConfig"
    by (simp add: sharedConfig_def)
next
  show "clickDelay sharedConfig_v1 = 1000 / cps sharedConfig_v1"
    by (simp add: sharedConfig_v1_def sharedConfig_def)
qed

theorem grief_rate_limit_witness:
  "now acceptingRemote \<le> now_again acceptingRemote
   \<and> now (acceptingRemote\<lparr>now := 1050, now_again := 1051\<rparr>) - now acceptingRemote
       < clickDelay (cfg exampleEnv)
   \<and> dug (snd (griefLogic_v1 exampleEnv acceptingRemote (Vec3 2 0 0) griefingBot))
       = [Block (Vec3 1 (-1) 0) ''stone'' 1 ''block'']
   \<and> lastDig (state (snd (griefLogic_v1 exampleEnv acceptingRemote (Vec3 2 0 0) griefingBot)))
       = 1000
   \<and> now (acceptingRemote\<lparr>now := 1050, now_again := 1051\<rparr>)
       - lastDig (state (snd (griefLogic_v1 exampleEnv acceptingRemote (Vec3 2 0 0) griefingBot)))
       < clickDelay (cfg exampleEnv)
   \<and> griefLogic_v1 exampleEnv (acceptingRemote\<lparr>now := 1050, now_again := 1051\<rparr>) (Vec3 2 0 0)
        (snd (griefLogic_v1 exampleEnv acceptingRemote (Vec3 2 0 0) griefingBot))
       = (Returned, snd (griefLogic_v1 exampleEnv acceptingRemote (Vec3 2 0 0) griefingBot))
   \<and> length (dug (snd (griefLogic_v1 exampleEnv (acceptingRemote\<lparr>now := 1050, now_again := 1051\<rparr>)
        (Vec3 2 0 0) (snd (griefLogic_v1 exampleEnv acceptingRemote (Vec3 2 0 0) griefingBot)))))
       \<le> Suc (length (dug griefingBot))"
proof -
  let ?rw2 = "acceptingRemote\<lparr>now := 1050, now_again := 1051\<rparr>"
  let ?b1 = "snd (griefLogic_v1 exampleEnv acceptingRemote (Vec3 2 0 0) griefingBot)"
  have h1: "now acceptingRemote \<le> now_again acceptingRemote"
    by (simp add: acceptingRemote_def)
  have h2: "now ?rw2 - now acceptingRemote < clickDelay (cfg exampleEnv)"
    by (simp add: acceptingRemote_def cfg_example)
  have d1: "dug ?b1 = [Block (Vec3 1 (-1) 0) ''stone'' 1 ''block'']"
    by (simp add: grief_v1_example dug_def List.map_filter_simps)
  have l1: "lastDig (state ?b1) = 1000"
    by (simp add: grief_v1_example)
  have h3: "now ?rw2 - lastDig (state ?b1) < clickDelay (cfg exampleEnv)"
    by (simp add: l1 cfg_example)
  from grief_rate_limit[of ?rw2 ?b1 exampleEnv "Vec3 2 0 0"] h3
  have second: "griefLogic_v1 exampleEnv ?rw2 (Vec3 2 0 0) ?b1 = (Returned, ?b1)"
    by blast
  from grief_rate_limit[of acceptingRemote griefingBot exampleEnv "Vec3 2 0 0" ?rw2 ?b1
      "Vec3 2 0 0"] h1 h2
  have pair: "length (dug (snd (griefLogic_v1 exampleEnv ?rw2 (Vec3 2 0 0) ?b1)))
                \<le> Suc (length (dug griefingBot))"
    by blast
  from h1 h2 d1 l1 h3 second pair show ?thesis by (intro conjI)
qed

text \<open>The body of \<open>griefLogic\<close> in depster.js, were the names bound, has the same limiter.\<close>

lemma griefLogic_bound_limited:
  assumes "now rw - lastDig (state b) < g_clickDelay g"
  shows "dug (snd (griefLogic env rw (Some g) t b)) = dug b"
  using assms by (simp add: griefLogic_def Let_def setGoal_def dug_def)

section \<open>The structure planner\<close>

lemma cell_back:
  assumes "adj \<in> set adjacentOffsets"
  shows "cell (plus_vec (floored (plus_vec p adj)) (scaled adj (-1))) = cell p"
proof -
  from assms consider "adj = Vec3 0 (-1) 0" | "adj = Vec3 0 1 0" | "adj = Vec3 (-1) 0 0"
    | "adj = Vec3 1 0 0" | "adj = Vec3 0 0 (-1)" | "adj = Vec3 0 0 1"
    by (auto simp: adjacentOffsets_def)
  then show ?thesis
    by cases (simp_all add: cell_def plus_vec_def floored_def scaled_def)
qed

lemma blockAt_Some:
  "blockAt b q = Some ref \<Longrightarrow>
     b_position ref = floored q \<and> (\<exists>d. blocks b (cell q) = Some d \<and> b_boundingBox ref = d_boundingBox d)"
  by (auto simp: blockAt_def world_blockAt_def split: option.splits)

lemma isSolid_iff: "isSolid b q \<longleftrightarrow> (\<exists>d. blocks b (cell q) = Some d \<and> d_boundingBox d = ''block'')"
  by (auto simp: isSolid_def blockAt_def world_blockAt_def split: option.splits)

lemma isEmpty_iff: "isEmpty b q \<longleftrightarrow> (\<exists>d. blocks b (cell q) = Some d \<and> d_boundingBox d = ''empty'')"
  by (auto simp: isEmpty_def blockAt_def world_blockAt_def split: option.splits)

lemma solid_not_empty: "isSolid b q \<Longrightarrow> \<not> isEmpty b q"
  by (auto simp: isSolid_iff isEmpty_iff)

lemma blockAt_blocks: "blocks b = blocks c \<Longrightarrow> blockAt b q = blockAt c q"
  by (simp add: blockAt_def)

lemma placeBlock_cases:
  "(placeBlock_error rw (blocks b) ref face = None
      \<and> placeBlock env rw ref face b
          = (Returned,
             (act (PlaceBlock ref face) b)
               \<lparr>blocks := (blocks b)(cell (plus_vec (b_position ref) face) := Some (placedBlock env))\<rparr>))
   \<or> (\<exists>e. placeBlock_error rw (blocks b) ref face = Some e
          \<and> placeBlock env rw ref face b = (Threw e, act (PlaceBlock ref face) b))"
  by (cases "placeBlock_error rw (blocks b) ref face") (simp_all add: placeBlock_def Let_def act_def)

lemma blocks_act: "blocks (act a b) = blocks b"
  by (simp add: act_def)

text \<open>The world after the inner loop depends on the world before it only.\<close>

lemma placeAgainst_world:
  "blocks b = blocks c \<Longrightarrow>
   blocks (placeAgainst env rw p adjs b) = blocks (placeAgainst env rw p adjs c)"
proof (induction adjs arbitrary: b c)
  case Nil
  then show ?case by simp
next
  case (Cons adj adjs)
  have same: "blockAt b (plus_vec p adj) = blockAt c (plus_vec p adj)"
    using Cons.prems by (rule blockAt_blocks)
  show ?case
  proof (cases "blockAt c (plus_vec p adj)")
    case None
    then have "placeAgainst env rw p (adj # adjs) b = placeAgainst env rw p adjs b"
      and "placeAgainst env rw p (adj # adjs) c = placeAgainst env rw p adjs c"
      using same by simp_all
    then show ?thesis using Cons.IH[OF Cons.prems] by simp
  next
    case (Some ref)
    show ?thesis
    proof (cases "b_boundingBox ref = ''block''")
      case False
      then have "placeAgainst env rw p (adj # adjs) b = placeAgainst env rw p adjs b"
        and "placeAgainst env rw p (adj # adjs) c = placeAgainst env rw p adjs c"
        using Some same by simp_all
      then show ?thesis using Cons.IH[OF Cons.prems] by simp
    next
      case True
      let ?face = "scaled adj (- 1)"
      show ?thesis
      proof (cases "placeBlock_error rw (blocks c) ref ?face")
        case None
        then have "blocks (placeAgainst env rw p (adj # adjs) b)
                     = (blocks c)(cell (plus_vec (b_position ref) ?face) := Some (placedBlock env))"
          and "blocks (placeAgainst env rw p (adj # adjs) c)
                     = (blocks c)(cell (plus_vec (b_position ref) ?face) := Some (placedBlock env))"
          using Some same True Cons.prems by (simp_all add: placeBlock_def Let_def act_def)
        then show ?thesis by simp
      next
        case (Some e)
        then have "placeAgainst env rw p (adj # adjs) b
                     = placeAgainst env rw p adjs (act (PlaceBlock ref ?face) b)"
          and "placeAgainst env rw p (adj # adjs) c
                     = placeAgainst env rw p adjs (act (PlaceBlock ref ?face) c)"
          using \<open>blockAt c (plus_vec p adj) = Some ref\<close> same True Cons.prems
          by (simp_all add: placeBlock_def Let_def)
        moreover have "blocks (act (PlaceBlock ref ?face) b) = blocks (act (PlaceBlock ref ?face) c)"
          using Cons.prems by (simp add: blocks_act)
        note Cons.IH[OF this]
        ultimately show ?thesis by simp
      qed
    qed
  qed
qed

lemma isSolid_blocks: "blocks b = blocks c \<Longrightarrow> isSolid b q = isSolid c q"
  by (simp add: isSolid_iff)

lemma isEmpty_blocks: "blocks b = blocks c \<Longrightarrow> isEmpty b q = isEmpty c q"
  by (simp add: isEmpty_iff)

lemma placeAgainst_step_skip:
  assumes "blockAt b (plus_vec p a) = None
           \<or> (\<exists>ref. blockAt b (plus_vec p a) = Some ref \<and> b_boundingBox ref \<noteq> ''block'')"
  shows "placeAgainst env rw p (a # adjs) b = placeAgainst env rw p adjs b"
  using assms by auto

lemma placeAgainst_step_placed:
  assumes "blockAt b (plus_vec p a) = Some ref" and "b_boundingBox ref = ''block''"
      and "placeBlock_error rw (blocks b) ref (scaled a (- 1)) = None"
  shows "blocks (placeAgainst env rw p (a # adjs) b)
           = (blocks b)(cell (plus_vec (b_position ref) (scaled a (- 1))) := Some (placedBlock env))"
  using assms by (simp add: placeBlock_def Let_def act_def)

lemma placeAgainst_step_rejected:
  assumes "blockAt b (plus_vec p a) = Some ref" and "b_boundingBox ref = ''block''"
      and "placeBlock_error rw (blocks b) ref (scaled a (- 1)) = Some e"
  shows "placeAgainst env rw p (a # adjs) b
           = placeAgainst env rw p adjs (act (PlaceBlock ref (scaled a (- 1))) b)"
  using assms by (simp add: placeBlock_def Let_def)

text \<open>
  The inner loop fills the cell of the position when one of the neighbours it goes
  through is solid and accepts the placement.
\<close>

lemma placeAgainst_fills:
  assumes "set adjs \<subseteq> set adjacentOffsets" and "adj \<in> set adjs"
      and "isSolid b (plus_vec p adj)"
      and "\<forall>ref. blockAt b (plus_vec p adj) = Some ref
             \<longrightarrow> placeBlock_error rw (blocks b) ref (scaled adj (- 1)) = None"
  shows "blocks (placeAgainst env rw p adjs b) = (blocks b)(cell p := Some (placedBlock env))"
  using assms
proof (induction adjs arbitrary: b)
  case Nil
  then show ?case by simp
next
  case (Cons a adjs)
  from Cons.prems(1) have a: "a \<in> set adjacentOffsets" and sub: "set adjs \<subseteq> set adjacentOffsets"
    by auto
  from Cons.prems(3) obtain r where r: "blockAt b (plus_vec p adj) = Some r"
    and rs: "b_boundingBox r = ''block''"
    by (auto simp: isSolid_def split: option.splits)
  show ?case
  proof (cases "blockAt b (plus_vec p a)")
    case None
    with r have "a \<noteq> adj" by auto
    with Cons.prems(2) have mem: "adj \<in> set adjs" by auto
    from None have "placeAgainst env rw p (a # adjs) b = placeAgainst env rw p adjs b"
      by (simp add: placeAgainst_step_skip)
    with Cons.IH[OF sub mem Cons.prems(3,4)] show ?thesis by simp
  next
    case (Some ref)
    show ?thesis
    proof (cases "b_boundingBox ref = ''block''")
      case False
      with Some r rs have "a \<noteq> adj" by auto
      with Cons.prems(2) have mem: "adj \<in> set adjs" by auto
      from Some False have "placeAgainst env rw p (a # adjs) b = placeAgainst env rw p adjs b"
        by (simp add: placeAgainst_step_skip)
      with Cons.IH[OF sub mem Cons.prems(3,4)] show ?thesis by simp
    next
      case True
      have pos: "b_position ref = floored (plus_vec p a)"
        using blockAt_Some[OF Some] by simp
      show ?thesis
      proof (cases "placeBlock_error rw (blocks b) ref (scaled a (- 1))")
        case None
        from placeAgainst_step_placed[OF Some True None, of env adjs]
        show ?thesis by (simp add: pos cell_back[OF a])
      next
        case (Some e)
        with \<open>blockAt b (plus_vec p a) = Some ref\<close> Cons.prems(4) have "a \<noteq> adj" by auto
        with Cons.prems(2) have mem: "adj \<in> set adjs" by auto
        let ?b1 = "act (PlaceBlock ref (scaled a (- 1))) b"
        have w: "blocks ?b1 = blocks b" by (rule blocks_act)
        have s1: "isSolid ?b1 (plus_vec p adj)"
          using Cons.prems(3) isSolid_blocks[OF w] by simp
        have s2: "\<forall>ref. blockAt ?b1 (plus_vec p adj) = Some ref
             \<longrightarrow> placeBlock_error rw (blocks ?b1) ref (scaled adj (- 1)) = None"
          using Cons.prems(4) blockAt_blocks[OF w] w by simp
        from placeAgainst_step_rejected[OF \<open>blockAt b (plus_vec p a) = Some ref\<close> True Some, of env adjs]
          Cons.IH[OF sub mem s1 s2] w
        show ?thesis by simp
      qed
    qed
  qed
qed

text \<open>Whatever the remote world answers, the inner loop changes at most that cell.\<close>

lemma placeAgainst_either:
  assumes "set adjs \<subseteq> set adjacentOffsets"
  shows "blocks (placeAgainst env rw p adjs b) = blocks b
         \<or> blocks (placeAgainst env rw p adjs b) = (blocks b)(cell p := Some (placedBlock env))"
  using assms
proof (induction adjs arbitrary: b)
  case Nil
  then show ?case by simp
next
  case (Cons a adjs)
  from Cons.prems have a: "a \<in> set adjacentOffsets" and sub: "set adjs \<subseteq> set adjacentOffsets"
    by auto
  show ?case
  proof (cases "blockAt b (plus_vec p a)")
    case None
    then have "placeAgainst env rw p (a # adjs) b = placeAgainst env rw p adjs b"
      by (simp add: placeAgainst_step_skip)
    with Cons.IH[OF sub, of b] show ?thesis by simp
  next
    case (Some ref)
    show ?thesis
    proof (cases "b_boundingBox ref = ''block''")
      case False
      with Some have "placeAgainst env rw p (a # adjs) b = placeAgainst env rw p adjs b"
        by (simp add: placeAgainst_step_skip)
      with Cons.IH[OF sub, of b] show ?thesis by simp
    next
      case True
      have pos: "b_position ref = floored (plus_vec p a)"
        using blockAt_Some[OF Some] by simp
      show ?thesis
      proof (cases "placeBlock_error rw (blocks b) ref (scaled a (- 1))")
        case None
        from placeAgainst_step_placed[OF Some True None, of env adjs]
        show ?thesis by (simp add: pos cell_back[OF a])
      next
        case (Some e)
        let ?b1 = "act (PlaceBlock ref (scaled a (- 1))) b"
        have w: "blocks ?b1 = blocks b" by (rule blocks_act)
        from placeAgainst_step_rejected[OF \<open>blockAt b (plus_vec p a) = Some ref\<close> True Some, of env adjs]
          Cons.IH[OF sub, of ?b1] w
        show ?thesis by simp
      qed
    qed
  qed
qed

text \<open>When every placement is rejected, the inner loop leaves the world as it is.\<close>

lemma placeAgainst_all_rejected:
  assumes "\<forall>w ref f. placeBlock_error rw w ref f \<noteq> None"
  shows "blocks (placeAgainst env rw p adjs b) = blocks b"
proof (induction adjs arbitrary: b)
  case Nil
  then show ?case by simp
next
  case (Cons a adjs)
  show ?case
  proof (cases "blockAt b (plus_vec p a)")
    case None
    then have "placeAgainst env rw p (a # adjs) b = placeAgainst env rw p adjs b"
      by (simp add: placeAgainst_step_skip)
    with Cons.IH[of b] show ?thesis by simp
  next
    case (Some ref)
    show ?thesis
    proof (cases "b_boundingBox ref = ''block''")
      case False
      with Some have "placeAgainst env rw p (a # adjs) b = placeAgainst env rw p adjs b"
        by (simp add: placeAgainst_step_skip)
      with Cons.IH[of b] show ?thesis by simp
    next
      case True
      from assms have "placeBlock_error rw (blocks b) ref (scaled a (- 1)) \<noteq> None"
        by blast
      then obtain e where e: "placeBlock_error rw (blocks b) ref (scaled a (- 1)) = Some e"
        by blast
      let ?b1 = "act (PlaceBlock ref (scaled a (- 1))) b"
      have w: "blocks ?b1 = blocks b" by (rule blocks_act)
      from placeAgainst_step_rejected[OF Some True e, of env adjs] Cons.IH[of ?b1] w
      show ?thesis by simp
    qed
  qed
qed

lemma placedBlock_solid: "d_boundingBox (placedBlock env) = ''block''"
  by (simp add: placedBlock_def)

lemma placeOffset_unfold:
  "placeOffset env rw P b off
     = (if isEmpty b (plus_vec P off)
        then placeAgainst env rw (plus_vec P off) adjacentOffsets b else b)"
  by (simp add: placeOffset_def isEmpty_def Let_def split: option.splits)

lemma placeOffset_either:
  "blocks (placeOffset env rw P b off) = blocks b
   \<or> blocks (placeOffset env rw P b off)
        = (blocks b)(cell (plus_vec P off) := Some (placedBlock env))"
  using placeAgainst_either[of adjacentOffsets env rw "plus_vec P off" b]
  by (simp add: placeOffset_unfold)

lemma placeOffset_world:
  assumes "blocks b = blocks c"
  shows "blocks (placeOffset env rw P b off) = blocks (placeOffset env rw P c off)"
  using assms isEmpty_blocks[OF assms, of "plus_vec P off"]
    placeAgainst_world[OF assms, of env rw "plus_vec P off" adjacentOffsets]
  by (simp add: placeOffset_unfold)

lemma placeOffset_keeps_solid:
  assumes "isSolid b q"
  shows "isSolid (placeOffset env rw P b off) q"
  using placeOffset_either[of env rw P b off] assms
  by (auto simp: isSolid_iff placedBlock_solid)

lemma placeOffset_fills:
  assumes "isEmpty b (plus_vec P off)" and "adj \<in> set adjacentOffsets"
      and "isSolid b (plus_vec (plus_vec P off) adj)"
      and "\<forall>ref. blockAt b (plus_vec (plus_vec P off) adj) = Some ref
             \<longrightarrow> placeBlock_error rw (blocks b) ref (scaled adj (- 1)) = None"
  shows "isSolid (placeOffset env rw P b off) (plus_vec P off)"
proof -
  have "blocks (placeOffset env rw P b off)
          = (blocks b)(cell (plus_vec P off) := Some (placedBlock env))"
    using assms(1) placeAgainst_fills[OF subset_refl assms(2,3,4), of env]
    by (simp add: placeOffset_unfold)
  then show ?thesis by (simp add: isSolid_iff placedBlock_solid)
qed

lemma foldl_placeOffset_keeps_solid:
  "isSolid b q \<Longrightarrow> isSolid (foldl (placeOffset env rw P) b offs) q"
proof (induction offs arbitrary: b)
  case Nil
  then show ?case by simp
next
  case (Cons off offs)
  from Cons.prems have "isSolid (placeOffset env rw P b off) q"
    by (rule placeOffset_keeps_solid)
  from Cons.IH[OF this] show ?case by simp
qed

lemma foldl_placeOffset_world:
  "blocks b = blocks c \<Longrightarrow>
   blocks (foldl (placeOffset env rw P) b offs) = blocks (foldl (placeOffset env rw P) c offs)"
proof (induction offs arbitrary: b c)
  case Nil
  then show ?case by simp
next
  case (Cons off offs)
  from Cons.prems have "blocks (placeOffset env rw P b off) = blocks (placeOffset env rw P c off)"
    by (rule placeOffset_world)
  from Cons.IH[OF this] show ?case by simp
qed

lemma foldl_placeOffset_all_rejected:
  assumes "\<forall>w ref f. placeBlock_error rw w ref f \<noteq> None"
  shows "blocks (foldl (placeOffset env rw P) b offs) = blocks b"
proof (induction offs arbitrary: b)
  case Nil
  then show ?case by simp
next
  case (Cons off offs)
  have "blocks (placeOffset env rw P b off) = blocks b"
    using placeAgainst_all_rejected[OF assms, of env "plus_vec P off" adjacentOffsets b]
    by (simp add: placeOffset_unfold)
  with Cons.IH[of "placeOffset env rw P b off"] show ?case by simp
qed

text \<open>
  The outer loop: an offset that is empty at its turn and has a solid neighbour that
  accepts the placement is solid when the loop has run through all offsets.
\<close>

lemma planner_loop_fills:
  assumes "k < length offs"
      and "bk = foldl (placeOffset env rw P) b (take k offs)"
      and "isEmpty bk (plus_vec P (offs ! k))" and "adj \<in> set adjacentOffsets"
      and "isSolid bk (plus_vec (plus_vec P (offs ! k)) adj)"
      and "\<forall>ref. blockAt bk (plus_vec (plus_vec P (offs ! k)) adj) = Some ref
             \<longrightarrow> placeBlock_error rw (blocks bk) ref (scaled adj (- 1)) = None"
  shows "isSolid (foldl (placeOffset env rw P) b offs) (plus_vec P (offs ! k))"
proof -
  have split: "offs = take k offs @ offs ! k # drop (Suc k) offs"
    using assms(1) by (rule id_take_nth_drop)
  have "foldl (placeOffset env rw P) b offs
          = foldl (placeOffset env rw P) b (take k offs @ offs ! k # drop (Suc k) offs)"
    using split by simp
  also have "\<dots> = foldl (placeOffset env rw P) (placeOffset env rw P bk (offs ! k))
                     (drop (Suc k) offs)"
    by (simp add: assms(2))
  finally have run: "foldl (placeOffset env rw P) b offs
          = foldl (placeOffset env rw P) (placeOffset env rw P bk (offs ! k)) (drop (Suc k) offs)" .
  have "isSolid (placeOffset env rw P bk (offs ! k)) (plus_vec P (offs ! k))"
    using assms(3,4,5,6) by (rule placeOffset_fills)
  then show ?thesis
    unfolding run by (rule foldl_placeOffset_keeps_solid)
qed

lemma getBlockInHand_blocks: "blocks (snd (getBlockInHand env rw n b)) = blocks b"
  by (simp add: getBlockInHand_def worker_defs Let_def split: option.splits)

lemma trapLogic_complete_run:
  assumes "mode (state b) = Some trap"
      and "trapLogic env rw e b = (Returned, b')"
      and "mode (state b') = Some follow"
  shows "blocks b' = blocks (foldl (placeOffset env rw (floored (e_position e))) b (map fst trapOffsets))"
proof -
  let ?b2 = "(pathfinder_stop b)\<lparr>state := (state (pathfinder_stop b))\<lparr>isTrapping := True\<rparr>\<rparr>"
  have nt: "\<not> isTrapping (state b)"
  proof
    assume "isTrapping (state b)"
    then have "trapLogic env rw e b = (Returned, b)" by (simp add: trapLogic_def)
    with assms show False by simp
  qed
  have near: "\<not> 4.5 < distanceTo (e_position (entity b)) (e_position e)"
  proof
    assume "4.5 < distanceTo (e_position (entity b)) (e_position e)"
    with nt have "trapLogic env rw e b = (Returned, setGoal (GoalFollow e 3.5) True b)"
      by (simp add: trapLogic_def Let_def)
    with assms(2) have "b' = setGoal (GoalFollow e 3.5) True b" by simp
    with assms(1,3) show False by (simp add: setGoal_def)
  qed
  obtain got b3 where g: "getBlockInHand env rw (trapBlock (cfg env)) ?b2 = (got, b3)"
    by (cases "getBlockInHand env rw (trapBlock (cfg env)) ?b2")
  have w3: "blocks b3 = blocks b"
    using getBlockInHand_blocks[of env rw "trapBlock (cfg env)" ?b2] g
    by (simp add: pathfinder_stop_def)
  have "got \<noteq> None"
  proof
    assume "got = None"
    with nt near g have "mode (state (snd (trapLogic env rw e b))) = None"
      by (simp add: trapLogic_def Let_def worker_defs)
    with assms show False by simp
  qed
  then obtain item where item: "got = Some item" by auto
  have eq: "equip_error rw item = None"
  proof (cases "equip_error rw item")
    case (Some err)
    with nt near g item have "fst (trapLogic env rw e b) = Threw err"
      by (simp add: trapLogic_def Let_def)
    with assms show ?thesis by simp
  qed simp
  from nt near g item eq have
    "blocks (snd (trapLogic env rw e b))
       = blocks (foldl (placeOffset env rw (floored (e_position e))) (act (Equip item) b3)
                   (map fst trapOffsets))"
    by (simp add: trapLogic_def Let_def worker_defs)
  moreover have "blocks (act (Equip item) b3) = blocks b"
    using w3 by (simp add: blocks_act)
  note foldl_placeOffset_world[OF this, of env rw "floored (e_position e)" "map fst trapOffsets"]
  ultimately show ?thesis using assms(2) by simp
qed

lemma trapLogic_from_inventory:
  assumes "\<not> isTrapping (state b)"
      and "\<not> 4.5 < distanceTo (e_position (entity b)) (e_position e)"
      and "itemsByName env (trapBlock (cfg env)) = Some i"
      and "findInventoryItem b i = Some item"
      and "equip_error rw item = None"
  shows "fst (trapLogic env rw e b) = Returned"
    and "mode (state (snd (trapLogic env rw e b))) = Some follow"
    and "isTrapping (state (snd (trapLogic env rw e b))) = False"
proof -
  let ?b2 = "(pathfinder_stop b)\<lparr>state := (state (pathfinder_stop b))\<lparr>isTrapping := True\<rparr>\<rparr>"
  have "findInventoryItem ?b2 i = Some item"
    using assms(4) by (simp add: findInventoryItem_def pathfinder_stop_def)
  then have g: "getBlockInHand env rw (trapBlock (cfg env)) ?b2 = (Some item, ?b2)"
    using assms(3) by (simp add: getBlockInHand_def)
  from assms(1,2,5) g show "fst (trapLogic env rw e b) = Returned"
    by (simp add: trapLogic_def Let_def)
  from assms(1,2,5) g show "mode (state (snd (trapLogic env rw e b))) = Some follow"
    by (simp add: trapLogic_def Let_def worker_defs)
  from assms(1,2,5) g show "isTrapping (state (snd (trapLogic env rw e b))) = False"
    by (simp add: trapLogic_def Let_def worker_defs)
qed

text \<open>
  Claim C5, as the code has it. Take a run of the planner that goes through (the bot in
  mode \<open>trap\<close>, the run returns and has switched to \<open>follow\<close>; so the bot was in range,
  had the material and could equip it). Every offset that was empty at its turn and
  had, at its turn, a solid axis-adjacent neighbour against which the placement was
  accepted, is solid after the run, hence no longer empty. A placement that is rejected
  is ignored and the planner goes on; an offset all of whose placements are rejected
  stays as it was (\<open>foldl_placeOffset_all_rejected\<close>).
\<close>

theorem planner_fills_offsets_where_placement_succeeds:
  assumes "mode (state b) = Some trap"
      and "trapLogic env rw e b = (Returned, b')"
      and "mode (state b') = Some follow"
      and "k < length trapOffsets"
      and "isEmpty (atTurn env rw (floored (e_position e)) b k)
             (plus_vec (floored (e_position e)) (fst (trapOffsets ! k)))"
      and "adj \<in> set adjacentOffsets"
      and "isSolid (atTurn env rw (floored (e_position e)) b k)
             (plus_vec (plus_vec (floored (e_position e)) (fst (trapOffsets ! k))) adj)"
      and "\<forall>ref. blockAt (atTurn env rw (floored (e_position e)) b k)
                   (plus_vec (plus_vec (floored (e_position e)) (fst (trapOffsets ! k))) adj)
                 = Some ref
             \<longrightarrow> placeBlock_error rw (blocks (atTurn env rw (floored (e_position e)) b k)) ref
                   (scaled adj (- 1)) = None"
  shows "isSolid b' (plus_vec (floored (e_position e)) (fst (trapOffsets ! k)))
         \<and> \<not> isEmpty b' (plus_vec (floored (e_position e)) (fst (trapOffsets ! k)))"
proof -
  let ?P = "floored (e_position e)"
  let ?offs = "map fst trapOffsets"
  have k: "k < length ?offs" using assms(4) by simp
  have nth: "?offs ! k = fst (trapOffsets ! k)" using assms(4) by simp
  have "isSolid (foldl (placeOffset env rw ?P) b ?offs) (plus_vec ?P (?offs ! k))"
    using assms(5,6,7,8)
    by (intro planner_loop_fills[OF k, where bk = "atTurn env rw ?P b k" and adj = adj])
       (simp_all add: atTurn_def nth)
  moreover have "blocks b' = blocks (foldl (placeOffset env rw ?P) b ?offs)"
    using assms(1,2,3) by (rule trapLogic_complete_run)
  ultimately have "isSolid b' (plus_vec ?P (fst (trapOffsets ! k)))"
    using isSolid_blocks[of b' "foldl (placeOffset env rw ?P) b ?offs"] by (simp add: nth)
  then show ?thesis by (simp add: solid_not_empty)
qed

lemma trappingBot_fields:
  "mode (state trappingBot) = Some trap" "isTrapping (state trappingBot) = False"
  "entity trappingBot = Entity 1 (Vec3 0 0 0)" "blocks trappingBot = exampleWorld"
  "inventory trappingBot = [Item 9 64]"
  by (simp_all add: trappingBot_def exampleBot_fields)

lemma near_Bob: "\<not> 4.5 < distanceTo (Vec3 0 0 0) (Vec3 2 0 0)"
proof -
  have "(4.5 < distanceTo (Vec3 0 0 0) (Vec3 2 0 0))
          = ((4.5)\<^sup>2 < distanceSquared (Vec3 0 0 0) (Vec3 2 0 0))"
    by (rule distanceTo_gt_iff) simp
  then show ?thesis by (simp add: distanceSquared_def power2_eq_square)
qed

lemma floored_Bob: "floored (Vec3 2 0 0) = Vec3 2 0 0"
  by (simp add: floored_def)

lemma trapping_scene:
  "\<not> 4.5 < distanceTo (e_position (entity trappingBot)) (e_position (Entity 2 (Vec3 2 0 0)))"
  "itemsByName exampleEnv (trapBlock (cfg exampleEnv)) = Some 9"
  "findInventoryItem trappingBot 9 = Some (Item 9 64)"
  "floored (e_position (Entity 2 (Vec3 2 0 0))) = Vec3 2 0 0"
proof -
  show "\<not> 4.5 < distanceTo (e_position (entity trappingBot)) (e_position (Entity 2 (Vec3 2 0 0)))"
    using near_Bob by (simp add: trappingBot_fields)
  show "itemsByName exampleEnv (trapBlock (cfg exampleEnv)) = Some 9"
    by (simp add: cfg_example) (simp add: exampleEnv_fields)
  show "findInventoryItem trappingBot 9 = Some (Item 9 64)"
    by (simp add: findInventoryItem_def trappingBot_fields)
  show "floored (e_position (Entity 2 (Vec3 2 0 0))) = Vec3 2 0 0"
    by (simp add: floored_Bob)
qed

lemma ninth_offset: "fst (trapOffsets ! 8) = Vec3 (-1) 0 (-1)" "(8::nat) < length trapOffsets"
  by (simp_all add: trapOffsets_def floorOffsets_eval wallOffsets_eval roofOffsets_eval)

lemma exampleWorld_cells:
  "isEmpty b (Vec3 x y z) = (\<exists>d. blocks b (\<lfloor>x\<rfloor>, \<lfloor>y\<rfloor>, \<lfloor>z\<rfloor>) = Some d \<and> d_boundingBox d = ''empty'')"
  "isSolid b (Vec3 x y z) = (\<exists>d. blocks b (\<lfloor>x\<rfloor>, \<lfloor>y\<rfloor>, \<lfloor>z\<rfloor>) = Some d \<and> d_boundingBox d = ''block'')"
  by (simp_all add: isEmpty_iff isSolid_iff cell_def)

lemma rejecting: "\<forall>w ref f. placeBlock_error rejectingRemote w ref f \<noteq> None"
  by (simp add: rejectingRemote_def)

lemma atTurn_rejecting: "blocks (atTurn env rejectingRemote P b k) = blocks b"
  unfolding atTurn_def by (rule foldl_placeOffset_all_rejected[OF rejecting])

text \<open>
  The claim as it is written fails when the remote world rejects the placements: under
  Bob the platform is solid, the planner runs through and switches to \<open>follow\<close>, the wall
  offset (-1,0,-1), the cell (1,0,-1), was empty at its turn with solid stone beneath
  it, and it is still empty after the run.
\<close>

theorem planner_leaves_offset_empty_when_rejected:
  "mode (state trappingBot) = Some trap
   \<and> list_all (isSolid trappingBot)
        [Vec3 1 (-1) (-1), Vec3 1 (-1) 0, Vec3 1 (-1) 1, Vec3 2 (-1) (-1), Vec3 2 (-1) 0,
         Vec3 2 (-1) 1, Vec3 3 (-1) (-1), Vec3 3 (-1) 0, Vec3 3 (-1) 1]
   \<and> fst (trapLogic exampleEnv rejectingRemote (Entity 2 (Vec3 2 0 0)) trappingBot) = Returned
   \<and> mode (state (snd (trapLogic exampleEnv rejectingRemote (Entity 2 (Vec3 2 0 0)) trappingBot)))
       = Some follow
   \<and> plus_vec (floored (e_position (Entity 2 (Vec3 2 0 0)))) (fst (trapOffsets ! 8))
       = Vec3 1 0 (-1)
   \<and> isEmpty (atTurn exampleEnv rejectingRemote (Vec3 2 0 0) trappingBot 8) (Vec3 1 0 (-1))
   \<and> Vec3 0 (-1) 0 \<in> set adjacentOffsets
   \<and> isSolid (atTurn exampleEnv rejectingRemote (Vec3 2 0 0) trappingBot 8)
        (plus_vec (Vec3 1 0 (-1)) (Vec3 0 (-1) 0))
   \<and> isEmpty (snd (trapLogic exampleEnv rejectingRemote (Entity 2 (Vec3 2 0 0)) trappingBot))
        (Vec3 1 0 (-1))"
proof -
  let ?e = "Entity 2 (Vec3 2 0 0)"
  let ?run = "trapLogic exampleEnv rejectingRemote ?e trappingBot"
  have eq: "equip_error rejectingRemote (Item 9 64) = None"
    by (simp add: rejectingRemote_def)
  note run = trapLogic_from_inventory[OF _ trapping_scene(1,2,3) eq, simplified trappingBot_fields]
  have m: "mode (state trappingBot) = Some trap" by (rule trappingBot_fields)
  have platform: "list_all (isSolid trappingBot)
        [Vec3 1 (-1) (-1), Vec3 1 (-1) 0, Vec3 1 (-1) 1, Vec3 2 (-1) (-1), Vec3 2 (-1) 0,
         Vec3 2 (-1) 1, Vec3 3 (-1) (-1), Vec3 3 (-1) 0, Vec3 3 (-1) 1]"
    by (simp add: exampleWorld_cells trappingBot_fields exampleWorld_def)
  have r1: "fst ?run = Returned" using run(1) by simp
  have r2: "mode (state (snd ?run)) = Some follow" using run(2) by simp
  have p: "plus_vec (floored (e_position ?e)) (fst (trapOffsets ! 8)) = Vec3 1 0 (-1)"
    by (simp add: floored_Bob ninth_offset plus_vec_def)
  have t1: "isEmpty (atTurn exampleEnv rejectingRemote (Vec3 2 0 0) trappingBot 8) (Vec3 1 0 (-1))"
    by (simp add: exampleWorld_cells atTurn_rejecting trappingBot_fields exampleWorld_def)
  have a: "Vec3 0 (-1) 0 \<in> set adjacentOffsets" by (simp add: adjacentOffsets_def)
  have t2: "isSolid (atTurn exampleEnv rejectingRemote (Vec3 2 0 0) trappingBot 8)
        (plus_vec (Vec3 1 0 (-1)) (Vec3 0 (-1) 0))"
    by (simp add: plus_vec_def exampleWorld_cells atTurn_rejecting trappingBot_fields
        exampleWorld_def)
  have "trapLogic exampleEnv rejectingRemote ?e trappingBot = (Returned, snd ?run)"
    using r1 by (cases ?run) simp
  from trapLogic_complete_run[OF m this r2]
  have "blocks (snd ?run) = blocks trappingBot"
    by (simp add: foldl_placeOffset_all_rejected[OF rejecting])
  then have still: "isEmpty (snd ?run) (Vec3 1 0 (-1))"
    by (simp add: exampleWorld_cells trappingBot_fields exampleWorld_def)
  from m platform r1 r2 p t1 a t2 still show ?thesis by (intro conjI)
qed

lemma placeOffset_not_empty: "\<not> isEmpty b (plus_vec P off) \<Longrightarrow> placeOffset env rw P b off = b"
  by (simp add: placeOffset_unfold)

lemma first_eight_offsets:
  "take 8 (map fst trapOffsets)
     = [Vec3 (-1) (-1) (-1), Vec3 (-1) (-1) 0, Vec3 (-1) (-1) 1, Vec3 0 (-1) (-1),
        Vec3 0 (-1) 1, Vec3 1 (-1) (-1), Vec3 1 (-1) 0, Vec3 1 (-1) 1]"
  by (simp add: trapOffsets_def floorOffsets_eval)

lemma floor_is_solid:
  "\<not> isEmpty trappingBot (plus_vec (Vec3 2 0 0) (Vec3 x (-1) z))"
  by (simp add: plus_vec_def exampleWorld_cells trappingBot_fields exampleWorld_def)

lemma atTurn_eight: "atTurn env rw (Vec3 2 0 0) trappingBot 8 = trappingBot"
  by (simp add: atTurn_def first_eight_offsets placeOffset_not_empty[OF floor_is_solid])

theorem planner_fills_offsets_where_placement_succeeds_witness:
  "mode (state trappingBot) = Some trap
   \<and> fst (trapLogic exampleEnv acceptingRemote (Entity 2 (Vec3 2 0 0)) trappingBot) = Returned
   \<and> mode (state (snd (trapLogic exampleEnv acceptingRemote (Entity 2 (Vec3 2 0 0)) trappingBot)))
       = Some follow
   \<and> (8::nat) < length trapOffsets
   \<and> plus_vec (floored (e_position (Entity 2 (Vec3 2 0 0)))) (fst (trapOffsets ! 8))
       = Vec3 1 0 (-1)
   \<and> isEmpty (atTurn exampleEnv acceptingRemote (Vec3 2 0 0) trappingBot 8) (Vec3 1 0 (-1))
   \<and> Vec3 0 (-1) 0 \<in> set adjacentOffsets
   \<and> isSolid (atTurn exampleEnv acceptingRemote (Vec3 2 0 0) trappingBot 8)
        (plus_vec (Vec3 1 0 (-1)) (Vec3 0 (-1) 0))
   \<and> placeBlock_error acceptingRemote = (\<lambda>w ref f. None)
   \<and> isSolid (snd (trapLogic exampleEnv acceptingRemote (Entity 2 (Vec3 2 0 0)) trappingBot))
        (Vec3 1 0 (-1))
   \<and> \<not> isEmpty (snd (trapLogic exampleEnv acceptingRemote (Entity 2 (Vec3 2 0 0)) trappingBot))
        (Vec3 1 0 (-1))"
proof -
  let ?e = "Entity 2 (Vec3 2 0 0)"
  let ?run = "trapLogic exampleEnv acceptingRemote ?e trappingBot"
  let ?P = "floored (e_position ?e)"
  have eq: "equip_error acceptingRemote (Item 9 64) = None"
    by (simp add: acceptingRemote_def)
  note run = trapLogic_from_inventory[OF _ trapping_scene(1,2,3) eq, simplified trappingBot_fields]
  have m: "mode (state trappingBot) = Some trap" by (rule trappingBot_fields)
  have r1: "fst ?run = Returned" using run(1) by simp
  have r2: "mode (state (snd ?run)) = Some follow" using run(2) by simp
  have whole: "trapLogic exampleEnv acceptingRemote ?e trappingBot = (Returned, snd ?run)"
    using r1 by (cases ?run) simp
  have P: "?P = Vec3 2 0 0" by (simp add: floored_Bob)
  have p: "plus_vec ?P (fst (trapOffsets ! 8)) = Vec3 1 0 (-1)"
    by (simp add: floored_Bob ninth_offset plus_vec_def)
  have p': "plus_vec (Vec3 2 0 0) (fst (trapOffsets ! 8)) = Vec3 1 0 (-1)"
    using p unfolding P .
  have t1: "isEmpty (atTurn exampleEnv acceptingRemote (Vec3 2 0 0) trappingBot 8) (Vec3 1 0 (-1))"
    by (simp add: atTurn_eight exampleWorld_cells trappingBot_fields exampleWorld_def)
  have a: "Vec3 0 (-1) 0 \<in> set adjacentOffsets" by (simp add: adjacentOffsets_def)
  have t2: "isSolid (atTurn exampleEnv acceptingRemote (Vec3 2 0 0) trappingBot 8)
        (plus_vec (Vec3 1 0 (-1)) (Vec3 0 (-1) 0))"
    by (simp add: atTurn_eight plus_vec_def exampleWorld_cells trappingBot_fields exampleWorld_def)
  have acc: "placeBlock_error acceptingRemote = (\<lambda>w ref f. None)"
    by (simp add: acceptingRemote_def)
  have h5: "isEmpty (atTurn exampleEnv acceptingRemote ?P trappingBot 8)
             (plus_vec ?P (fst (trapOffsets ! 8)))"
    using t1 unfolding P p' .
  have h7: "isSolid (atTurn exampleEnv acceptingRemote ?P trappingBot 8)
             (plus_vec (plus_vec ?P (fst (trapOffsets ! 8))) (Vec3 0 (-1) 0))"
    using t2 unfolding P p' .
  have h8: "\<forall>ref. blockAt (atTurn exampleEnv acceptingRemote ?P trappingBot 8)
                   (plus_vec (plus_vec ?P (fst (trapOffsets ! 8))) (Vec3 0 (-1) 0))
                 = Some ref
             \<longrightarrow> placeBlock_error acceptingRemote
                   (blocks (atTurn exampleEnv acceptingRemote ?P trappingBot 8)) ref
                   (scaled (Vec3 0 (-1) 0) (- 1)) = None"
    by (simp add: acc)
  from planner_fills_offsets_where_placement_succeeds[OF m whole r2 ninth_offset(2) h5 a h7 h8]
  have filled: "isSolid (snd ?run) (Vec3 1 0 (-1))" and not_empty: "\<not> isEmpty (snd ?run) (Vec3 1 0 (-1))"
    unfolding p by simp_all
  from m r1 r2 ninth_offset(2) p t1 a t2 acc filled not_empty show ?thesis by (intro conjI)
qed

text \<open>
  The planner of the earlier revision takes the block beneath as its reference and
  hands \<open>placeBlock\<close> a face vector that points away from the offset: even a placement
  that is accepted lands two cells below, and the offset stays empty.
\<close>

lemma earlier_planner_places_downwards:
  "isEmpty (placeOffset_v1 exampleEnv acceptingRemote (Vec3 2 0 0) trappingBot (Vec3 (-1) 0 (-1)))
     (Vec3 1 0 (-1))
   \<and> acted (placeOffset_v1 exampleEnv acceptingRemote (Vec3 2 0 0) trappingBot (Vec3 (-1) 0 (-1)))
       = acted trappingBot
           @ [PlaceBlock (Block (Vec3 1 (-1) (-1)) ''stone'' 1 ''block'') (Vec3 0 (-1) 0)]"
  by (simp add: placeOffset_v1_def plus_vec_def minus_vec_def scaled_def offset_def blockAt_def
      world_blockAt_def cell_def floored_def trappingBot_fields exampleWorld_def placeBlock_def
      acceptingRemote_def act_def isEmpty_def Let_def)

end
